(* ===== verification/Prelude.thy ===== *)
theory Prelude
  imports Main
begin

text \<open>
  What every component shares: the error values of the Go code, 64-bit and 32-bit
  integers as Go and PostgreSQL treat them, the list operations a SQL statement performs
  on a table, and the collections of simplification rules the later theories extend.
\<close>

section \<open>Rule collections\<close>

named_theorems act_simps \<open>inversion of an action that returned a given result\<close>
named_theorems frame_simps \<open>what an operation leaves unchanged\<close>
named_theorems sql_defs \<open>definitions of the SQL statements of the repositories\<close>

section \<open>Errors\<close>

text \<open>
  A Go \<open>error\<close> is a value. \<open>ErrNoRows\<close> is \<open>sql.ErrNoRows\<close>; \<open>ErrDriver\<close> is whatever
  the driver reports when the connection, the server or a serializable transaction fails;
  the next three are errors PostgreSQL raises for the constraints the migrations declare;
  \<open>ErrNet\<close> and \<open>ErrDecode\<close> are errors of \<open>net/http\<close> and of the JSON decoder;
  \<open>ErrNew\<close> is \<open>errors.New\<close> and \<open>ErrWrap\<close> is \<open>fmt.Errorf("...: %w", err)\<close>, with the
  text before the colon, and \<open>ErrStatus\<close> is \<open>fmt.Errorf("... %d", n)\<close>. \<open>ErrPanic\<close> is not
  an error but a panic on its way up the stack: no error handling of the code stops it.
\<close>

datatype err =
    ErrNoRows
  | ErrDriver
  | ErrUnique string
  | ErrForeignKey string
  | ErrRange
  | ErrNew string
  | ErrWrap string err
  | ErrStatus string int
  | ErrNet
  | ErrDecode
  | ErrPanic string

text \<open>\<open>errors.Is (e, target)\<close> follows the chain of wrapped errors.\<close>

fun errors_is :: "err \<Rightarrow> err \<Rightarrow> bool" where
  "errors_is (ErrWrap s e) t \<longleftrightarrow> ErrWrap s e = t \<or> errors_is e t"
| "errors_is e t \<longleftrightarrow> e = t"

section \<open>Integers\<close>

text \<open>
  Go's \<open>int64\<close> arithmetic wraps around; PostgreSQL's \<open>BIGINT\<close> and \<open>INT\<close> raise an error
  instead. Both are modelled on \<open>int\<close>, with the wrap-around and the range written out.
\<close>

definition wrap64 :: "int \<Rightarrow> int" where
  "wrap64 x = (x + 2 ^ 63) mod 2 ^ 64 - 2 ^ 63"

definition fits64 :: "int \<Rightarrow> bool" where
  "fits64 x \<longleftrightarrow> - (2 ^ 63) \<le> x \<and> x < 2 ^ 63"

definition fits32 :: "int \<Rightarrow> bool" where
  "fits32 x \<longleftrightarrow> - (2 ^ 31) \<le> x \<and> x < 2 ^ 31"

lemma wrap64_fits [simp]: "fits64 (wrap64 x)"
proof -
  have "0 \<le> (x + 2 ^ 63) mod 2 ^ 64" and "(x + 2 ^ 63) mod 2 ^ 64 < 2 ^ 64"
    by simp_all
  then show ?thesis unfolding fits64_def wrap64_def by simp
qed

lemma wrap64_id: "fits64 x \<Longrightarrow> wrap64 x = x"
  unfolding fits64_def wrap64_def by (simp add: mod_pos_pos_trivial)

lemma wrap64_eq_iff: "wrap64 x = x \<longleftrightarrow> fits64 x"
  by (metis wrap64_fits wrap64_id)

lemma wrap64_eq_mod: "wrap64 x = wrap64 y \<longleftrightarrow> x mod 2 ^ 64 = y mod 2 ^ 64"
proof -
  have "wrap64 x = wrap64 y \<longleftrightarrow> (x + 2 ^ 63) mod 2 ^ 64 = (y + 2 ^ 63) mod 2 ^ 64"
    by (simp add: wrap64_def)
  also have "\<dots> \<longleftrightarrow> x mod 2 ^ 64 = y mod 2 ^ 64"
    unfolding mod_eq_dvd_iff by simp
  finally show ?thesis .
qed

lemma wrap64_wrap64 [simp]: "wrap64 (wrap64 x) = wrap64 x"
  by (simp add: wrap64_id)

lemma wrap64_mod: "wrap64 x mod 2 ^ 64 = x mod 2 ^ 64"
  using wrap64_eq_mod [of "wrap64 x" x] by simp

lemma wrap64_add_left: "wrap64 (wrap64 x + y) = wrap64 (x + y)"
  unfolding wrap64_eq_mod by (metis mod_add_left_eq wrap64_mod)

lemma wrap64_add_cong: "wrap64 x = wrap64 y \<Longrightarrow> wrap64 (z + x) = wrap64 (z + y)"
  unfolding wrap64_eq_mod by (rule mod_add_cong) simp_all

text \<open>Negation is the one Go operation on money: it wraps only at the least value.\<close>

lemma wrap64_uminus:
  assumes "fits64 x" and "x \<noteq> - (2 ^ 63)"
  shows "wrap64 (- x) = - x"
  using assms by (intro wrap64_id) (auto simp: fits64_def)

lemma wrap64_uminus_min: "wrap64 (- (- (2 ^ 63))) = - (2 ^ 63)"
  by (simp add: wrap64_def)

section \<open>Bytes\<close>

text \<open>A Go string is a sequence of bytes, here a \<open>string\<close>.\<close>

abbreviation byte :: "char \<Rightarrow> nat" where
  "byte c \<equiv> of_char c"

lemma byte_less_256: "byte c < 256"
  using nat_of_char_less_256 by simp

section \<open>Tables as lists of rows\<close>

text \<open>
  \<open>SELECT ... WHERE p\<close> read with \<open>QueryRow(...).Scan\<close> takes the first row or fails with
  \<open>sql.ErrNoRows\<close>; \<open>UPDATE ... SET f WHERE p\<close> rewrites every matching row.
\<close>

definition select_first :: "('r \<Rightarrow> bool) \<Rightarrow> 'r list \<Rightarrow> err + 'r" where
  "select_first p rows = (case find p rows of None \<Rightarrow> Inl ErrNoRows | Some r \<Rightarrow> Inr r)"

definition update_where :: "('r \<Rightarrow> bool) \<Rightarrow> ('r \<Rightarrow> 'r) \<Rightarrow> 'r list \<Rightarrow> 'r list" where
  "update_where p f rows = map (\<lambda>r. if p r then f r else r) rows"

lemma select_first_InrD: "select_first p rows = Inr r \<Longrightarrow> r \<in> set rows \<and> p r"
  by (auto simp: select_first_def find_Some_iff split: option.splits)

lemma select_first_Inl: "select_first p rows = Inl e \<longleftrightarrow> e = ErrNoRows \<and> (\<forall>r\<in>set rows. \<not> p r)"
  by (auto simp: select_first_def find_None_iff find_Some_iff split: option.splits)

lemma select_first_append:
  "select_first p (xs @ ys) =
     (case select_first p xs of Inr r \<Rightarrow> Inr r | Inl _ \<Rightarrow> select_first p ys)"
  by (induction xs) (auto simp: select_first_def)

lemma find_append:
  "find p (xs @ ys) = (case find p xs of Some x \<Rightarrow> Some x | None \<Rightarrow> find p ys)"
  by (induction xs) auto

text \<open>A lookup by a key no two rows share finds the row.\<close>

lemma select_first_unique:
  assumes "r \<in> set rows" and "p r" and "\<And>s. s \<in> set rows \<Longrightarrow> p s \<Longrightarrow> s = r"
  shows "select_first p rows = Inr r"
proof (cases "select_first p rows")
  case (Inl e)
  with assms(1,2) show ?thesis by (simp add: select_first_Inl)
next
  case (Inr s)
  with assms(3) show ?thesis by (auto dest: select_first_InrD)
qed

lemma set_update_where:
  "set (update_where p f rows) = (\<lambda>r. if p r then f r else r) ` set rows"
  by (simp add: update_where_def)

lemma length_update_where [simp]: "length (update_where p f rows) = length rows"
  by (simp add: update_where_def)

lemma update_where_append [simp]:
  "update_where p f (xs @ ys) = update_where p f xs @ update_where p f ys"
  by (simp add: update_where_def)

lemma update_where_Nil [simp]: "update_where p f [] = []"
  by (simp add: update_where_def)

lemma update_where_Cons [simp]:
  "update_where p f (r # rs) = (if p r then f r else r) # update_where p f rs"
  by (simp add: update_where_def)

lemma update_where_none: "\<forall>r\<in>set rows. \<not> p r \<Longrightarrow> update_where p f rows = rows"
  by (simp add: update_where_def map_idI)

lemma map_update_where:
  assumes "\<And>r. g (f r) = g r"
  shows "map g (update_where p f rows) = map g rows"
  using assms by (simp add: update_where_def)

lemma filter_update_where:
  assumes "\<And>r. q (f r) = q r"
  shows "filter q (update_where p f rows) = update_where p f (filter q rows)"
  using assms by (induction rows) auto

lemma in_update_whereE:
  assumes "r \<in> set (update_where p f rows)"
  obtains s where "s \<in> set rows" and "r = (if p s then f s else s)"
  using assms by (auto simp: set_update_where)

lemma distinct_map_eqD:
  "distinct (map f xs) \<Longrightarrow> x \<in> set xs \<Longrightarrow> y \<in> set xs \<Longrightarrow> f x = f y \<Longrightarrow> x = y"
  by (auto simp: distinct_map dest: inj_onD)

lemma sum_list_filter_append:
  "sum_list (map f (filter p (xs @ ys))) =
     sum_list (map f (filter p xs)) + sum_list (map f (filter p ys))"
  for f :: "'a \<Rightarrow> int"
  by simp

text \<open>
  \<open>ORDER BY id\<close>: the rows in ascending order of their key.
\<close>

definition order_by :: "('r \<Rightarrow> int) \<Rightarrow> 'r list \<Rightarrow> 'r list" where
  "order_by key rows = sort_key key rows"

lemma set_order_by [simp]: "set (order_by key rows) = set rows"
  by (simp add: order_by_def)

lemma sorted_order_by: "sorted (map key (order_by key rows))"
  by (simp add: order_by_def)

lemma order_by_Nil_iff [simp]: "order_by key rows = [] \<longleftrightarrow> rows = []"
  by (metis set_empty set_order_by)

lemma order_by_ConsD:
  assumes "order_by key rows = r # rs"
  shows "r \<in> set rows" and "\<And>s. s \<in> set rows \<Longrightarrow> key r \<le> key s"
proof -
  have s: "set rows = set (r # rs)" by (metis assms set_order_by)
  then show "r \<in> set rows" by simp
  have "sorted (map key (r # rs))" by (metis assms sorted_order_by)
  then show "key r \<le> key s" if "s \<in> set rows" for s
    using that unfolding s by auto
qed

section \<open>Identifiers from a sequence\<close>

text \<open>
  The \<open>id\<close> column of a table, in insertion order: strictly increasing, positive, and
  never beyond the sequence.
\<close>

definition ids_ok :: "int list \<Rightarrow> int \<Rightarrow> bool" where
  "ids_ok xs n \<longleftrightarrow> sorted_wrt (<) xs \<and> (\<forall>x\<in>set xs. 0 < x \<and> x \<le> n) \<and> 0 \<le> n"

lemma ids_ok_Nil [simp]: "ids_ok [] n \<longleftrightarrow> 0 \<le> n"
  by (simp add: ids_ok_def)

lemma ids_ok_mono: "ids_ok xs n \<Longrightarrow> n \<le> m \<Longrightarrow> ids_ok xs m"
  by (fastforce simp: ids_ok_def)

lemma ids_ok_snoc: "ids_ok xs n \<Longrightarrow> ids_ok (xs @ [n + 1]) (n + 1)"
  by (fastforce simp: ids_ok_def sorted_wrt_append)

lemma ids_ok_distinct: "ids_ok xs n \<Longrightarrow> distinct xs"
  by (auto simp: ids_ok_def strict_sorted_iff)

lemma ids_ok_fresh: "ids_ok xs n \<Longrightarrow> n + 1 \<notin> set xs"
  by (fastforce simp: ids_ok_def)

lemma ids_ok_map_fresh: "ids_ok (map f rs) n \<Longrightarrow> r \<in> set rs \<Longrightarrow> f r \<noteq> n + 1"
  by (force simp: ids_ok_def)

lemma ids_ok_bounds: "ids_ok xs n \<Longrightarrow> x \<in> set xs \<Longrightarrow> 0 < x \<and> x \<le> n"
  by (auto simp: ids_ok_def)

end
