(* ===== verification/Schema.thy ===== *)
theory Schema
  imports Prelude
begin

text \<open>
  The tables of \<open>migrations/001_init.sql\<close> to \<open>migrations/005_security.sql\<close> that the Go
  code reads or writes, one record per row. A nullable column is an \<open>option\<close>; a time is
  an \<open>int\<close> of microseconds (the resolution of \<open>TIMESTAMPTZ\<close>), in UTC. Columns that no
  statement of the program ever sets away from their default or reads are left out
  (\<open>created_at\<close> and \<open>updated_at\<close> where only the default is used, \<open>deleted_at\<close> of the
  ledger's owner columns). No statement sets \<open>deleted_at\<close>, but the queries filter on it,
  so it is kept.
\<close>

section \<open>Rows\<close>

record user_row =
  u_id :: int
  u_vendor_id :: "int option"
  u_email :: string
  u_password_hash :: string
  u_role :: string
  u_created_at :: int
  u_deleted_at :: "int option"

record vendor_row =
  v_id :: int
  v_owner_user_id :: int
  v_name :: string
  v_slug :: string
  v_status :: string
  v_created_at :: int
  v_deleted_at :: "int option"

record wallet_row =
  wa_id :: int
  wa_user_id :: int
  wa_vendor_id :: "int option"
  wa_balance :: int
  wa_updated_at :: int
  wa_deleted_at :: "int option"

record wtx_row =
  wt_id :: int
  wt_wallet_id :: int
  wt_user_id :: int
  wt_amount :: int
  wt_type :: string
  wt_created_at :: int
  wt_deleted_at :: "int option"

record service_catalog_row =
  sc_id :: int
  sc_vendor_id :: int
  sc_name :: string
  sc_protocol :: string
  sc_duration_days :: int
  sc_traffic_gb :: int
  sc_price :: int

record catalog_row =
  c_id :: int
  c_vendor_id :: int
  c_slug :: string
  c_title :: string
  c_description :: string
  c_protocol :: string
  c_inbound_id :: int
  c_xui_node_id :: int
  c_traffic_limit_gb :: int
  c_duration_days :: int
  c_price_toman :: int
  c_is_active :: bool
  c_auto_provision :: bool
  c_renewal_enabled :: bool
  c_country_code :: string
  c_stock_status :: string
  c_deleted_at :: "int option"

record order_row =
  o_id :: int
  o_vendor_id :: int
  o_user_id :: int
  o_catalog_id :: int
  o_service_id :: "int option"
  o_amount :: int
  o_status :: string
  o_lifecycle_state :: string
  o_idempotency_key :: "string option"
  o_created_at :: int
  o_updated_at :: int
  o_deleted_at :: "int option"

record idem_row =
  k_id :: int
  k_vendor_id :: int
  k_user_id :: int
  k_key :: string
  k_order_id :: "int option"
  k_created_at :: int

text \<open>
  \<open>last_error\<close> holds the text \<open>err.Error()\<close>; the model keeps the error itself, because
  the wording of a driver error is not in the source.
\<close>

record job_row =
  j_id :: int
  j_vendor_id :: int
  j_order_id :: int
  j_status :: string
  j_retries :: int
  j_last_error :: "err option"
  j_dead_letter :: bool
  j_updated_at :: int
  j_deleted_at :: "int option"

record proxy_row =
  p_id :: int
  p_vendor_id :: int
  p_user_id :: int
  p_order_id :: "int option"
  p_panel_id :: "int option"
  p_uuid :: string
  p_protocol :: string
  p_subscription_url :: string
  p_qr_payload :: string
  p_config_payload :: string
  p_status :: string
  p_expires_at :: "int option"
  p_traffic_used_gb :: int
  p_traffic_limit_gb :: int
  p_duration_days :: int
  p_created_at :: int
  p_updated_at :: int
  p_deleted_at :: "int option"

record panel_row =
  x_id :: int
  x_vendor_id :: int
  x_name :: string
  x_url :: string
  x_token :: string
  x_inbound_id :: int
  x_is_active :: bool
  x_health :: string
  x_last_checked :: "int option"
  x_updated_at :: int
  x_deleted_at :: "int option"

record audit_row =
  a_id :: int
  a_vendor_id :: "int option"
  a_user_id :: "int option"
  a_actor_role :: string
  a_action :: string
  a_resource :: string
  a_resource_id :: "int option"
  a_ip :: string
  a_user_agent :: string
  a_status :: string
  a_detail :: string

record db =
  users :: "user_row list"
  vendors :: "vendor_row list"
  wallets :: "wallet_row list"
  wallet_txs :: "wtx_row list"
  service_catalog :: "service_catalog_row list"
  catalog_items :: "catalog_row list"
  orders :: "order_row list"
  idem_keys :: "idem_row list"
  jobs :: "job_row list"
  proxies :: "proxy_row list"
  panels :: "panel_row list"
  audit_logs :: "audit_row list"

definition empty_db :: db where
  "empty_db = \<lparr>users = [], vendors = [], wallets = [], wallet_txs = [], service_catalog = [],
     catalog_items = [], orders = [], idem_keys = [], jobs = [], proxies = [], panels = [],
     audit_logs = []\<rparr>"

text \<open>The tables whose \<open>id\<close> is a \<open>BIGSERIAL\<close>: each has a sequence of its own.\<close>

datatype tbl =
    TUsers | TVendors | TWallets | TWalletTxs | TCatalogItems | TOrders | TIdemKeys | TJobs
  | TProxies | TPanels | TAudit

section \<open>Foreign keys\<close>

text \<open>The referenced row exists (PostgreSQL looks at the row, not at \<open>deleted_at\<close>).\<close>

definition has_user :: "db \<Rightarrow> int \<Rightarrow> bool" where
  "has_user d i \<longleftrightarrow> list_ex (\<lambda>r. u_id r = i) (users d)"

definition has_vendor :: "db \<Rightarrow> int \<Rightarrow> bool" where
  "has_vendor d i \<longleftrightarrow> list_ex (\<lambda>r. v_id r = i) (vendors d)"

definition has_wallet :: "db \<Rightarrow> int \<Rightarrow> bool" where
  "has_wallet d i \<longleftrightarrow> list_ex (\<lambda>r. wa_id r = i) (wallets d)"

definition has_service_catalog :: "db \<Rightarrow> int \<Rightarrow> bool" where
  "has_service_catalog d i \<longleftrightarrow> list_ex (\<lambda>r. sc_id r = i) (service_catalog d)"

definition has_order :: "db \<Rightarrow> int \<Rightarrow> bool" where
  "has_order d i \<longleftrightarrow> list_ex (\<lambda>r. o_id r = i) (orders d)"

lemma has_user_iff: "has_user d i \<longleftrightarrow> i \<in> u_id ` set (users d)"
  by (auto simp: has_user_def list_ex_iff)

lemma has_vendor_iff: "has_vendor d i \<longleftrightarrow> i \<in> v_id ` set (vendors d)"
  by (auto simp: has_vendor_def list_ex_iff)

lemma has_wallet_iff: "has_wallet d i \<longleftrightarrow> i \<in> wa_id ` set (wallets d)"
  by (auto simp: has_wallet_def list_ex_iff)

lemma has_service_catalog_iff:
  "has_service_catalog d i \<longleftrightarrow> i \<in> sc_id ` set (service_catalog d)"
  by (auto simp: has_service_catalog_def list_ex_iff)

lemma has_order_iff: "has_order d i \<longleftrightarrow> i \<in> o_id ` set (orders d)"
  by (auto simp: has_order_def list_ex_iff)

lemmas has_iffs = has_user_iff has_vendor_iff has_wallet_iff has_service_catalog_iff has_order_iff

end
