(* ===== verification/Decimal.thy ===== *)
theory Decimal
  imports Prelude
begin

text \<open>
  Decimal text of integers, as \<open>fmt.Sprintf("%d", x)\<close> writes it and
  \<open>strconv.ParseInt(s, 10, 64)\<close> reads it where the caller drops the error: the value is 0
  on a syntax error and the nearest bound on a range error.
\<close>

fun show_nat :: "nat \<Rightarrow> string" where
  "show_nat n = (if n < 10 then [char_of (48 + n)]
     else show_nat (n div 10) @ [char_of (48 + n mod 10)])"

declare show_nat.simps [simp del]

definition show_int :: "int \<Rightarrow> string" where
  "show_int x = (if x < 0 then CHR ''-'' # show_nat (nat (- x)) else show_nat (nat x))"

definition is_digit :: "char \<Rightarrow> bool" where
  "is_digit c \<longleftrightarrow> 48 \<le> (of_char c :: nat) \<and> (of_char c :: nat) \<le> 57"

fun read_nat :: "nat \<Rightarrow> string \<Rightarrow> nat option" where
  "read_nat acc [] = Some acc"
| "read_nat acc (c # cs) =
     (if is_digit c then read_nat (10 * acc + (of_char c - 48)) cs else None)"

definition parse_nat :: "string \<Rightarrow> nat option" where
  "parse_nat s = (if s = [] then None else read_nat 0 s)"

definition parse_int64 :: "string \<Rightarrow> int" where
  "parse_int64 s =
     (let (neg, digits) = (case s of
          CHR ''+'' # ds \<Rightarrow> (False, ds)
        | CHR ''-'' # ds \<Rightarrow> (True, ds)
        | _ \<Rightarrow> (False, s))
      in case parse_nat digits of
           None \<Rightarrow> 0
         | Some n \<Rightarrow>
             if \<not> neg \<and> int n \<ge> 2 ^ 63 then 2 ^ 63 - 1
             else if neg \<and> int n > 2 ^ 63 then - (2 ^ 63)
             else if neg then - int n else int n)"

section \<open>Round trip\<close>

lemma of_char_digit: "k < 10 \<Longrightarrow> of_char (char_of (48 + k :: nat) :: char) = 48 + k"
  by (simp add: of_char_of take_bit_eq_mod)

lemma is_digit_digit: "k < 10 \<Longrightarrow> is_digit (char_of (48 + k :: nat))"
  by (simp add: is_digit_def of_char_digit)

lemma show_nat_digits: "c \<in> set (show_nat n) \<Longrightarrow> is_digit c"
proof (induction n rule: show_nat.induct)
  case (1 n)
  show ?case
  proof (cases "n < 10")
    case True
    with "1.prems" show ?thesis by (auto simp: show_nat.simps [of n] is_digit_digit)
  next
    case False
    with "1.prems" "1.IH" show ?thesis
      by (auto simp: show_nat.simps [of n] is_digit_digit)
  qed
qed

lemma show_nat_Nil [simp]: "show_nat n \<noteq> []"
  by (subst show_nat.simps) simp

lemma read_nat_append:
  "read_nat acc (xs @ ys) =
     (case read_nat acc xs of None \<Rightarrow> None | Some n \<Rightarrow> read_nat n ys)"
  by (induction acc xs rule: read_nat.induct) auto

lemma read_show_nat: "read_nat 0 (show_nat n) = Some n"
proof (induction n rule: show_nat.induct)
  case (1 n)
  show ?case
  proof (cases "n < 10")
    case True
    then show ?thesis by (simp add: show_nat.simps [of n] is_digit_digit of_char_digit)
  next
    case False
    with "1.IH" have "read_nat 0 (show_nat (n div 10)) = Some (n div 10)" by simp
    with False show ?thesis
      by (simp add: show_nat.simps [of n] read_nat_append is_digit_digit of_char_digit)
  qed
qed

lemma parse_show_nat: "parse_nat (show_nat n) = Some n"
  by (simp add: parse_nat_def read_show_nat)

lemma hd_show_nat: "show_nat n = c # cs \<Longrightarrow> c \<noteq> CHR ''+'' \<and> c \<noteq> CHR ''-''"
  using show_nat_digits [of c n] by (auto simp: is_digit_def)

lemma parse_int64_plain:
  assumes "parse_nat (c # cs) = Some n" and "c \<noteq> CHR ''+''" and "c \<noteq> CHR ''-''"
    and "int n < 2 ^ 63"
  shows "parse_int64 (c # cs) = int n"
proof -
  have "(case c # cs of CHR ''+'' # ds \<Rightarrow> (False, ds) | CHR ''-'' # ds \<Rightarrow> (True, ds)
     | _ \<Rightarrow> (False, c # cs)) = (False, c # cs)"
    using assms(2,3) by (auto split: char.splits bool.splits)
  then show ?thesis using assms(1,4) by (simp add: parse_int64_def)
qed

lemma parse_show_int:
  assumes "fits64 x"
  shows "parse_int64 (show_int x) = x"
proof (cases "x < 0")
  case True
  with assms show ?thesis
    by (simp add: show_int_def parse_int64_def parse_show_nat fits64_def)
next
  case False
  obtain c cs where s: "show_nat (nat x) = c # cs" by (cases "show_nat (nat x)") auto
  have "parse_int64 (c # cs) = int (nat x)"
    using parse_show_nat [of "nat x"] hd_show_nat [OF s] False assms unfolding s
    by (intro parse_int64_plain) (auto simp: fits64_def)
  with False s show ?thesis by (simp add: show_int_def)
qed

lemma show_int_inj: "show_int x = show_int y \<Longrightarrow> x = y"
proof -
  assume e: "show_int x = show_int y"
  have neg: "show_int z = CHR ''-'' # cs \<Longrightarrow> z < 0" for z cs
    using hd_show_nat [of "nat z"] by (auto simp: show_int_def split: if_splits)
  show "x = y"
  proof (cases "x < 0")
    case True
    then have "show_int x = CHR ''-'' # show_nat (nat (- x))" by (simp add: show_int_def)
    with e neg have "y < 0" by metis
    with True e have "show_nat (nat (- x)) = show_nat (nat (- y))" by (simp add: show_int_def)
    then have "nat (- x) = nat (- y)" by (metis parse_show_nat option.inject)
    with True \<open>y < 0\<close> show ?thesis by simp
  next
    case False
    then have "\<not> y < 0" using e neg by (metis show_int_def)
    with False e have "show_nat (nat x) = show_nat (nat y)" by (simp add: show_int_def)
    then have "nat x = nat y" by (metis parse_show_nat option.inject)
    with False \<open>\<not> y < 0\<close> show ?thesis by simp
  qed
qed

lemma show_int_no_colon: "CHR '':'' \<notin> set (show_int x)"
proof
  assume "CHR '':'' \<in> set (show_int x)"
  then have "is_digit CHR '':''"
    by (auto simp: show_int_def dest: show_nat_digits split: if_splits)
  then show False by (simp add: is_digit_def)
qed

end
