(* ===== verification/Json.thy ===== *)
theory Json
  imports Prelude Decimal "HOL-Library.List_Lexorder" "HOL-Library.Char_ord"
begin

text \<open>
  JSON text as Go's \<open>encoding/json\<close> writes and reads it. A Go string is a sequence of
  bytes, here a \<open>string\<close>: the encoder replaces what is not UTF-8 and escapes what HTML or
  JavaScript would trip over, the decoder checks the grammar, decodes escapes and surrogate
  pairs and refuses documents nested too deeply.
\<close>

section \<open>UTF-8\<close>

definition is_cont :: "char \<Rightarrow> bool" where
  "is_cont c \<longleftrightarrow> 128 \<le> byte c \<and> byte c < 192"

text \<open>
  How many bytes after \<open>c\<close> belong to its character (\<open>utf8.DecodeRune\<close>): \<open>None\<close> where no
  character begins. The second byte excludes long forms, surrogates and what lies beyond
  the last plane.
\<close>

definition rune_tail :: "char \<Rightarrow> string \<Rightarrow> nat option" where
  "rune_tail c s =
     (let b = byte c; b1 = (if s = [] then 0 else byte (hd s)) in
      if b < 128 then Some 0
      else if 194 \<le> b \<and> b < 224 \<and> 1 \<le> length s \<and> list_all is_cont (take 1 s) then Some 1
      else if 224 \<le> b \<and> b < 240 \<and> 2 \<le> length s \<and> list_all is_cont (take 2 s) \<and>
          (b = 224 \<longrightarrow> 160 \<le> b1) \<and> (b = 237 \<longrightarrow> b1 < 160) then Some 2
      else if 240 \<le> b \<and> b < 245 \<and> 3 \<le> length s \<and> list_all is_cont (take 3 s) \<and>
          (b = 240 \<longrightarrow> 144 \<le> b1) \<and> (b = 244 \<longrightarrow> b1 < 144) then Some 3
      else None)"

fun valid_utf8 :: "string \<Rightarrow> bool" where
  "valid_utf8 [] = True"
| "valid_utf8 (c # s) =
     (case rune_tail c s of None \<Rightarrow> False | Some k \<Rightarrow> valid_utf8 (drop k s))"

definition encode_rune :: "nat \<Rightarrow> string" where
  "encode_rune r =
     (if r < 128 then [char_of r]
      else if r < 2048 then [char_of (192 + r div 64), char_of (128 + r mod 64)]
      else if r < 65536 then
        [char_of (224 + r div 4096), char_of (128 + r div 64 mod 64), char_of (128 + r mod 64)]
      else [char_of (240 + r div 262144), char_of (128 + r div 4096 mod 64),
        char_of (128 + r div 64 mod 64), char_of (128 + r mod 64)])"

text \<open>U+FFFD, which stands for what is not a character.\<close>

definition replacement :: string where
  "replacement = [CHR 0xEF, CHR 0xBF, CHR 0xBD]"

section \<open>Writing strings\<close>

definition hex_digit :: "nat \<Rightarrow> char" where
  "hex_digit n = (if n < 10 then char_of (48 + n) else char_of (87 + n))"

definition quote_byte :: "char \<Rightarrow> string" where
  "quote_byte c =
     (if c = CHR 0x22 \<or> c = CHR 0x5C then [CHR 0x5C, c]
      else if c = CHR 0x08 then CHR 0x5C # ''b''
      else if c = CHR 0x0C then CHR 0x5C # ''f''
      else if c = CHR 0x0A then CHR 0x5C # ''n''
      else if c = CHR 0x0D then CHR 0x5C # ''r''
      else if c = CHR 0x09 then CHR 0x5C # ''t''
      else if byte c < 32 \<or> c = CHR ''<'' \<or> c = CHR ''>'' \<or> c = CHR ''&'' then
        CHR 0x5C # ''u00'' @ [hex_digit (byte c div 16), hex_digit (byte c mod 16)]
      else [c])"

text \<open>U+2028 and U+2029, which end lines in JavaScript, are escaped as well.\<close>

definition quote_rune :: "char \<Rightarrow> string \<Rightarrow> string" where
  "quote_rune c t =
     (if c = CHR 0xE2 \<and> t = [CHR 0x80, CHR 0xA8] then CHR 0x5C # ''u2028''
      else if c = CHR 0xE2 \<and> t = [CHR 0x80, CHR 0xA9] then CHR 0x5C # ''u2029''
      else c # t)"

fun quote_chars :: "string \<Rightarrow> string" where
  "quote_chars [] = []"
| "quote_chars (c # s) =
     (case rune_tail c s of
        None \<Rightarrow> CHR 0x5C # ''ufffd'' @ quote_chars s
      | Some k \<Rightarrow>
          (if k = 0 then quote_byte c else quote_rune c (take k s)) @ quote_chars (drop k s))"

definition quote :: "string \<Rightarrow> string" where
  "quote s = CHR 0x22 # quote_chars s @ [CHR 0x22]"

section \<open>Reading strings\<close>

definition hex_value :: "char \<Rightarrow> nat option" where
  "hex_value c =
     (if is_digit c then Some (byte c - 48)
      else if 97 \<le> byte c \<and> byte c \<le> 102 then Some (byte c - 87)
      else if 65 \<le> byte c \<and> byte c \<le> 70 then Some (byte c - 55)
      else None)"

definition read_hex4 :: "string \<Rightarrow> nat option" where
  "read_hex4 s =
     (if length s < 4 then None
      else case (hex_value (s ! 0), hex_value (s ! 1), hex_value (s ! 2), hex_value (s ! 3)) of
             (Some a, Some b, Some c, Some d) \<Rightarrow> Some (a * 4096 + b * 256 + c * 16 + d)
           | _ \<Rightarrow> None)"

text \<open>The low half a high surrogate needs after it, as another escape.\<close>

definition low_half :: "nat \<Rightarrow> string \<Rightarrow> nat option" where
  "low_half r s =
     (if 55296 \<le> r \<and> r < 56320 \<and> take 2 s = CHR 0x5C # ''u'' then
        (case read_hex4 (drop 2 s) of
           None \<Rightarrow> None
         | Some r1 \<Rightarrow> if 56320 \<le> r1 \<and> r1 < 57344 then Some r1 else None)
      else None)"

definition simple_escape :: "char \<Rightarrow> char option" where
  "simple_escape d =
     (if d \<in> {CHR 0x22, CHR 0x5C, CHR ''/''} then Some d
      else if d = CHR ''b'' then Some (CHR 0x08)
      else if d = CHR ''f'' then Some (CHR 0x0C)
      else if d = CHR ''n'' then Some (CHR 0x0A)
      else if d = CHR ''r'' then Some (CHR 0x0D)
      else if d = CHR ''t'' then Some (CHR 0x09)
      else None)"

text \<open>An escape after its backslash: what it stands for and how many bytes it takes.\<close>

definition read_escape :: "string \<Rightarrow> (string \<times> nat) option" where
  "read_escape s =
     (case s of
        [] \<Rightarrow> None
      | d # t \<Rightarrow>
          (case simple_escape d of
             Some x \<Rightarrow> Some ([x], 1)
           | None \<Rightarrow>
               if d \<noteq> CHR ''u'' then None
               else case read_hex4 t of
                      None \<Rightarrow> None
                    | Some r \<Rightarrow>
                        if r < 55296 \<or> 57344 \<le> r then Some (encode_rune r, 5)
                        else case low_half r (drop 4 t) of
                               None \<Rightarrow> Some (replacement, 5)
                             | Some r1 \<Rightarrow>
                                 Some (encode_rune (65536 + (r - 55296) * 1024 + (r1 - 56320)), 11)))"

text \<open>From after the opening quote: the string and what follows the closing quote.\<close>

fun unquote :: "string \<Rightarrow> (string \<times> string) option" where
  "unquote [] = None"
| "unquote (c # s) =
     (if c = CHR 0x22 then Some ([], s)
      else if c = CHR 0x5C then
        (case read_escape s of
           None \<Rightarrow> None
         | Some (x, k) \<Rightarrow> map_option (apfst (append x)) (unquote (drop k s)))
      else if byte c < 32 then None
      else case rune_tail c s of
             None \<Rightarrow> map_option (apfst (append replacement)) (unquote s)
           | Some k \<Rightarrow> map_option (apfst (append (c # take k s))) (unquote (drop k s)))"

section \<open>A string is read back\<close>

text \<open>What a reader makes of a string: its text, with U+FFFD for each byte that has no place in UTF-8.\<close>

fun repair :: "string \<Rightarrow> string" where
  "repair [] = []"
| "repair (c # s) =
     (case rune_tail c s of
        None \<Rightarrow> replacement @ repair s
      | Some k \<Rightarrow> c # take k s @ repair (drop k s))"

lemma repair_valid: "valid_utf8 s \<Longrightarrow> repair s = s"
  by (induction s rule: valid_utf8.induct) (auto split: option.splits)

lemma rune_tail_ascii [simp]: "byte c < 128 \<Longrightarrow> rune_tail c s = Some 0"
  by (simp add: rune_tail_def)

lemma rune_tail_bounds:
  assumes "rune_tail c s = Some k"
  shows "k \<le> length s" and "k = 0 \<longleftrightarrow> byte c < 128" and "list_all is_cont (take k s)"
  using assms by (auto simp: rune_tail_def Let_def split: if_splits)

text \<open>Only the bytes of the character matter.\<close>

lemma rune_tail_local:
  assumes "rune_tail c s = Some k"
  shows "rune_tail c (take k s @ x) = Some k"
proof -
  have hd: "hd (take k s @ x) = hd s" if "0 < k"
    using that rune_tail_bounds(1) [OF assms] by (cases s) (auto simp: take_Cons')
  have len: "length (take k s) = k" using rune_tail_bounds(1) [OF assms] by simp
  consider "k = 0" "byte c < 128" | "k = 1" "\<not> byte c < 128" | "k = 2" "\<not> byte c < 128"
    | "k = 3" "\<not> byte c < 128"
    using assms by (auto simp: rune_tail_def Let_def split: if_splits)
  then show ?thesis
    using assms hd len by cases (auto simp: rune_tail_def Let_def split: if_splits)
qed

lemma hex_value_digit: "n < 16 \<Longrightarrow> hex_value (hex_digit n) = Some n"
  by (auto simp: hex_value_def hex_digit_def is_digit_def of_char_of take_bit_eq_mod)

lemma encode_ascii: "byte c < 128 \<Longrightarrow> encode_rune (byte c) = [c]"
  by (simp add: encode_rune_def)

lemma map_apfst_append [simp]:
  "map_option (apfst (append [c])) m = map_option (apfst (Cons c)) m"
  by (cases m) auto

lemma unquote_plain:
  "byte c < 128 \<Longrightarrow> \<not> byte c < 32 \<Longrightarrow> c \<noteq> CHR 0x22 \<Longrightarrow> c \<noteq> CHR 0x5C \<Longrightarrow>
     unquote (c # x) = map_option (apfst (Cons c)) (unquote x)"
  by simp

lemma unquote_escape:
  "read_escape t = Some (y, k) \<Longrightarrow>
     unquote (CHR 0x5C # t) = map_option (apfst (append y)) (unquote (drop k t))"
  by simp

lemma unquote_rune:
  "rune_tail c s = Some k \<Longrightarrow> \<not> byte c < 128 \<Longrightarrow>
     unquote (c # s) = map_option (apfst (append (c # take k s))) (unquote (drop k s))"
  by auto

declare unquote.simps [simp del]

lemma read_escape_u:
  assumes "read_hex4 t = Some r" and "r < 55296"
  shows "read_escape (CHR ''u'' # t) = Some (encode_rune r, 5)"
  using assms by (simp add: read_escape_def simple_escape_def)

lemma read_hex4_low:
  "b < 256 \<Longrightarrow> read_hex4 (CHR ''0'' # CHR ''0'' # hex_digit (b div 16) # hex_digit (b mod 16) # x) = Some b"
  by (simp add: read_hex4_def hex_value_digit less_mult_imp_div_less)
     (simp add: hex_value_def is_digit_def)

lemma read_escape_simple:
  "simple_escape d = Some y \<Longrightarrow> read_escape (d # t) = Some ([y], 1)"
  by (simp add: read_escape_def)

lemma quote_byte_named:
  assumes "c \<in> {CHR 0x22, CHR 0x5C, CHR 0x08, CHR 0x0C, CHR 0x0A, CHR 0x0D, CHR 0x09}"
  shows "\<exists>d. simple_escape d = Some c \<and> quote_byte c = [CHR 0x5C, d]"
proof -
  have "simple_escape (CHR 0x22) = Some (CHR 0x22)" "simple_escape (CHR 0x5C) = Some (CHR 0x5C)"
    "simple_escape (CHR ''b'') = Some (CHR 0x08)" "simple_escape (CHR ''f'') = Some (CHR 0x0C)"
    "simple_escape (CHR ''n'') = Some (CHR 0x0A)" "simple_escape (CHR ''r'') = Some (CHR 0x0D)"
    "simple_escape (CHR ''t'') = Some (CHR 0x09)"
    by (simp_all add: simple_escape_def)
  with assms show ?thesis
    by (elim insertE emptyE) (auto simp: quote_byte_def)
qed

lemma unquote_quote_byte:
  assumes "byte c < 128"
  shows "unquote (quote_byte c @ x) = map_option (apfst (Cons c)) (unquote x)"
proof -
  consider (name) d where "simple_escape d = Some c" "quote_byte c = [CHR 0x5C, d]"
    | (hex) "quote_byte c = CHR 0x5C # ''u00'' @ [hex_digit (byte c div 16), hex_digit (byte c mod 16)]"
    | (plain) "quote_byte c = [c]" "\<not> byte c < 32" "c \<noteq> CHR 0x22" "c \<noteq> CHR 0x5C"
  proof (cases "c \<in> {CHR 0x22, CHR 0x5C, CHR 0x08, CHR 0x0C, CHR 0x0A, CHR 0x0D, CHR 0x09}")
    case True
    then show thesis using quote_byte_named name by blast
  next
    case False
    then have "quote_byte c = (if byte c < 32 \<or> c = CHR ''<'' \<or> c = CHR ''>'' \<or> c = CHR ''&'' then
        CHR 0x5C # ''u00'' @ [hex_digit (byte c div 16), hex_digit (byte c mod 16)] else [c])"
      by (simp add: quote_byte_def)
    with False show thesis
      by (cases "byte c < 32 \<or> c = CHR ''<'' \<or> c = CHR ''>'' \<or> c = CHR ''&''")
        (use hex plain in auto)
  qed
  then show ?thesis
  proof cases
    case name
    then show ?thesis by (simp add: unquote_escape [OF read_escape_simple])
  next
    case hex
    have "read_escape (CHR ''u'' # CHR ''0'' # CHR ''0'' # hex_digit (byte c div 16) #
        hex_digit (byte c mod 16) # x) = Some (encode_rune (byte c), 5)"
      using assms by (intro read_escape_u read_hex4_low) auto
    from unquote_escape [OF this] show ?thesis by (simp add: hex encode_ascii [OF assms])
  next
    case plain
    then show ?thesis using unquote_plain [OF assms] by simp
  qed
qed

lemma unquote_quote_rune:
  assumes "rune_tail c s = Some k" and "0 < k"
  shows "unquote (quote_rune c (take k s) @ x) = map_option (apfst (append (c # take k s))) (unquote x)"
proof -
  have r: "encode_rune 8232 = [CHR 0xE2, CHR 0x80, CHR 0xA8]" "encode_rune 8233 = [CHR 0xE2, CHR 0x80, CHR 0xA9]"
    by (simp_all add: encode_rune_def char_of_eq_iff take_bit_eq_mod)
  have e: "read_escape (''u2028'' @ x) = Some (encode_rune 8232, 5)"
    "read_escape (''u2029'' @ x) = Some (encode_rune 8233, 5)"
    by (simp_all add: read_escape_def simple_escape_def read_hex4_def hex_value_def is_digit_def)
  note big = rune_tail_bounds [OF assms(1)] assms(2)
  consider (one) "c = CHR 0xE2" "take k s = [CHR 0x80, CHR 0xA8]"
    | (two) "c = CHR 0xE2" "take k s = [CHR 0x80, CHR 0xA9]"
    | (plain) "quote_rune c (take k s) = c # take k s"
    unfolding quote_rune_def by metis
  then show ?thesis
  proof cases
    case one
    then show ?thesis using unquote_escape [OF e(1)] by (simp add: quote_rune_def r)
  next
    case two
    then show ?thesis using unquote_escape [OF e(2)] by (simp add: quote_rune_def r)
  next
    case plain
    then show ?thesis
      using unquote_rune [OF rune_tail_local [OF assms(1), of x]] big by simp
  qed
qed

lemma unquote_ufffd:
  "unquote (CHR 0x5C # ''ufffd'' @ x) = map_option (apfst (append replacement)) (unquote x)"
proof -
  have "read_escape (''ufffd'' @ x) = Some (encode_rune 65533, 5)"
    by (simp add: read_escape_def simple_escape_def read_hex4_def hex_value_def is_digit_def)
  moreover have "encode_rune 65533 = replacement"
    by (simp add: encode_rune_def replacement_def char_of_eq_iff take_bit_eq_mod)
  ultimately show ?thesis using unquote_escape [of "''ufffd'' @ x"] by simp
qed

theorem unquote_quote: "unquote (quote_chars s @ CHR 0x22 # x) = Some (repair s, x)"
proof (induction s rule: repair.induct)
  case 1
  show ?case by (simp add: unquote.simps)
next
  case (2 c s)
  show ?case
  proof (cases "rune_tail c s")
    case None
    with "2.IH"(1) unquote_ufffd [of "quote_chars s @ CHR 0x22 # x"] show ?thesis by simp
  next
    case (Some k)
    note IH = "2.IH"(2) [OF Some]
    show ?thesis
    proof (cases "k = 0")
      case True
      with rune_tail_bounds(2) [OF Some] have "byte c < 128" by simp
      with True IH Some show ?thesis by (simp add: unquote_quote_byte)
    next
      case False
      with Some IH show ?thesis by (simp add: unquote_quote_rune [OF Some])
    qed
  qed
qed

section \<open>Documents\<close>

text \<open>
  \<open>JInt\<close> is a number literal without fraction and exponent, \<open>JNum\<close> any other one, kept as
  its text. The members of an object keep their order and repetitions.
\<close>

datatype json =
    JNull
  | JBool bool
  | JInt int
  | JNum string
  | JStr string
  | JArr "json list"
  | JObj "(string \<times> json) list"

fun join_with :: "char \<Rightarrow> string list \<Rightarrow> string" where
  "join_with c [] = []"
| "join_with c [s] = s"
| "join_with c (s # t # ss) = s @ c # join_with c (t # ss)"

fun json_text :: "json \<Rightarrow> string" where
  "json_text JNull = ''null''"
| "json_text (JBool b) = (if b then ''true'' else ''false'')"
| "json_text (JInt n) = show_int n"
| "json_text (JNum s) = s"
| "json_text (JStr s) = quote s"
| "json_text (JArr vs) = ''['' @ join_with CHR '','' (map json_text vs) @ '']''"
| "json_text (JObj ms) =
     ''{'' @ join_with CHR '','' (map (\<lambda>(k, v). quote k @ '':'' @ json_text v) ms) @ ''}''"

text \<open>A Go map is written with its keys in the order of their bytes.\<close>

definition json_map :: "(string \<times> json) list \<Rightarrow> json" where
  "json_map ms = JObj (sort_key fst ms)"

section \<open>Reading documents\<close>

definition skip_ws :: "string \<Rightarrow> string" where
  "skip_ws s = dropWhile (\<lambda>c. c \<in> {CHR 0x20, CHR 0x09, CHR 0x0A, CHR 0x0D}) s"

definition read_word :: "string \<Rightarrow> json \<Rightarrow> string \<Rightarrow> (json \<times> string) option" where
  "read_word w v s =
     (if take (length w) s = w then Some (v, drop (length w) s) else None)"

text \<open>One or more digits; and the digits of an integer, where nothing follows a leading 0.\<close>

definition read_digits :: "string \<Rightarrow> (string \<times> string) option" where
  "read_digits s =
     (case takeWhile is_digit s of
        [] \<Rightarrow> None
      | d # ds \<Rightarrow> Some (d # ds, dropWhile is_digit s))"

definition read_int_part :: "string \<Rightarrow> (string \<times> string) option" where
  "read_int_part s =
     (if s \<noteq> [] \<and> hd s = CHR ''0'' then Some (''0'', tl s) else read_digits s)"

definition read_fraction :: "string \<Rightarrow> (string \<times> string) option" where
  "read_fraction s =
     (if s \<noteq> [] \<and> hd s = CHR ''.'' then map_option (apfst (Cons CHR ''.'')) (read_digits (tl s))
      else Some ([], s))"

definition read_exponent :: "string \<Rightarrow> (string \<times> string) option" where
  "read_exponent s =
     (if s \<noteq> [] \<and> hd s \<in> {CHR ''e'', CHR ''E''} then
        (let r = tl s;
             sign = (if r \<noteq> [] \<and> hd r \<in> {CHR ''+'', CHR ''-''} then [hd r] else [])
         in map_option (apfst (\<lambda>ds. hd s # sign @ ds)) (read_digits (drop (length sign) r)))
      else Some ([], s))"

fun digits_value :: "int \<Rightarrow> string \<Rightarrow> int" where
  "digits_value acc [] = acc"
| "digits_value acc (c # cs) = digits_value (10 * acc + (int (byte c) - 48)) cs"

definition read_number :: "string \<Rightarrow> (json \<times> string) option" where
  "read_number s =
     (let neg = s \<noteq> [] \<and> hd s = CHR ''-'' in
      case read_int_part (if neg then tl s else s) of
        None \<Rightarrow> None
      | Some (ds, r1) \<Rightarrow>
          (case read_fraction r1 of
             None \<Rightarrow> None
           | Some (fr, r2) \<Rightarrow>
               (case read_exponent r2 of
                  None \<Rightarrow> None
                | Some (ex, r3) \<Rightarrow>
                    let n = digits_value 0 ds in
                    Some (if fr = [] \<and> ex = [] then JInt (if neg then - n else n)
                          else JNum ((if neg then ''-'' else []) @ ds @ fr @ ex), r3))))"

lemma skip_ws_shorter: "skip_ws s = c # r \<Longrightarrow> length r < length s"
  by (metis skip_ws_def length_Cons length_dropWhile_le less_eq_Suc_le)

text \<open>
  \<open>d\<close> is how much deeper the document may nest. The elements and members are read after
  the opening bracket, up to the closing one. That the rest is shorter than the text is
  what ends the recursion; it always is.
\<close>

function parse_value :: "int \<Rightarrow> string \<Rightarrow> (json \<times> string) option"
  and parse_elems :: "int \<Rightarrow> string \<Rightarrow> (json list \<times> string) option"
  and parse_members :: "int \<Rightarrow> string \<Rightarrow> ((string \<times> json) list \<times> string) option"
where
  "parse_value d s =
     (case skip_ws s of
        [] \<Rightarrow> None
      | c # r \<Rightarrow>
          if c = CHR 0x22 then map_option (apfst JStr) (unquote r)
          else if c = CHR ''{'' then
            (if d \<le> 0 then None
             else if skip_ws r \<noteq> [] \<and> hd (skip_ws r) = CHR ''}'' then Some (JObj [], tl (skip_ws r))
             else map_option (apfst JObj) (parse_members (d - 1) r))
          else if c = CHR ''['' then
            (if d \<le> 0 then None
             else if skip_ws r \<noteq> [] \<and> hd (skip_ws r) = CHR '']'' then Some (JArr [], tl (skip_ws r))
             else map_option (apfst JArr) (parse_elems (d - 1) r))
          else if c = CHR ''n'' then read_word ''ull'' JNull r
          else if c = CHR ''t'' then read_word ''rue'' (JBool True) r
          else if c = CHR ''f'' then read_word ''alse'' (JBool False) r
          else read_number (c # r))"
| "parse_elems d s =
     (case parse_value d s of
        None \<Rightarrow> None
      | Some (v, r) \<Rightarrow>
          (case skip_ws r of
             [] \<Rightarrow> None
           | c # r1 \<Rightarrow>
               if c = CHR '']'' then Some ([v], r1)
               else if c = CHR '','' \<and> length r1 < length s then
                 map_option (apfst (Cons v)) (parse_elems d r1)
               else None))"
| "parse_members d s =
     (case skip_ws s of
        [] \<Rightarrow> None
      | c # r \<Rightarrow>
          if c \<noteq> CHR 0x22 then None
          else case unquote r of
                 None \<Rightarrow> None
               | Some (k, r1) \<Rightarrow>
                   (case skip_ws r1 of
                      [] \<Rightarrow> None
                    | c1 # r2 \<Rightarrow>
                        if c1 \<noteq> CHR '':'' \<or> \<not> length r2 < length s then None
                        else case parse_value d r2 of
                               None \<Rightarrow> None
                             | Some (v, r3) \<Rightarrow>
                                 (case skip_ws r3 of
                                    [] \<Rightarrow> None
                                  | c2 # r4 \<Rightarrow>
                                      if c2 = CHR ''}'' then Some ([(k, v)], r4)
                                      else if c2 = CHR '','' \<and> length r4 < length s then
                                        map_option (apfst (Cons (k, v))) (parse_members d r4)
                                      else None)))"
  by pat_completeness auto

termination
  by (relation "measure (\<lambda>x. case x of Inl (d, s) \<Rightarrow> 2 * length s
        | Inr (Inl (d, s)) \<Rightarrow> 2 * length s + 1 | Inr (Inr (d, s)) \<Rightarrow> 2 * length s + 1)")
     (auto dest: skip_ws_shorter)

text \<open>The depth \<open>encoding/json\<close> allows.\<close>

definition max_depth :: int where
  "max_depth = 10000"

text \<open>
  \<open>json.NewDecoder(r).Decode\<close> takes the first document and leaves what follows;
  \<open>json.Unmarshal\<close> wants nothing but white space after it.
\<close>

definition decode_first :: "string \<Rightarrow> json option" where
  "decode_first s = map_option fst (parse_value max_depth s)"

definition decode_all :: "string \<Rightarrow> json option" where
  "decode_all s =
     (case parse_value max_depth s of
        None \<Rightarrow> None
      | Some (v, r) \<Rightarrow> if skip_ws r = [] then Some v else None)"

section \<open>A document is read back\<close>

declare parse_value.simps [simp del] parse_elems.simps [simp del] parse_members.simps [simp del]

text \<open>
  The program writes no numbers but integers. What is read back of such a value is the
  value with its texts repaired, so the value itself when they are in UTF-8.
\<close>

fun integral :: "json \<Rightarrow> bool" where
  "integral (JNum s) = False"
| "integral (JArr vs) = list_all integral vs"
| "integral (JObj ms) = list_all (\<lambda>(k, v). integral v) ms"
| "integral _ = True"

fun repair_json :: "json \<Rightarrow> json" where
  "repair_json (JStr s) = JStr (repair s)"
| "repair_json (JArr vs) = JArr (map repair_json vs)"
| "repair_json (JObj ms) = JObj (map (\<lambda>(k, v). (repair k, repair_json v)) ms)"
| "repair_json v = v"

fun clean :: "json \<Rightarrow> bool" where
  "clean (JNum s) = False"
| "clean (JStr s) = valid_utf8 s"
| "clean (JArr vs) = list_all clean vs"
| "clean (JObj ms) = list_all (\<lambda>(k, v). valid_utf8 k \<and> clean v) ms"
| "clean _ = True"

fun depth :: "json \<Rightarrow> int" where
  "depth (JArr vs) = fold max (map depth vs) 0 + 1"
| "depth (JObj ms) = fold max (map (\<lambda>(k, v). depth v) ms) 0 + 1"
| "depth _ = 0"

lemma clean_integral: "clean v \<Longrightarrow> integral v"
  by (induction v) (auto simp: list_all_iff)

lemma clean_repair: "clean v \<Longrightarrow> repair_json v = v"
proof (induction v)
  case (JArr vs)
  then show ?case by (simp add: list_all_iff map_idI)
next
  case (JObj ms)
  have "(\<lambda>(k, v). (repair k, repair_json v)) m = m" if "m \<in> set ms" for m
    using JObj.IH [of m] JObj.prems that by (cases m) (auto simp: list_all_iff repair_valid)
  then show ?case by (simp add: map_idI)
qed (simp_all add: repair_valid)

text \<open>What may follow a number.\<close>

definition stops :: "string \<Rightarrow> bool" where
  "stops s \<longleftrightarrow> s = [] \<or> hd s \<in> {CHR '','', CHR '']'', CHR ''}'', CHR 0x0A}"

lemma fold_max_le: "fold max ns (m :: int) \<le> d \<longleftrightarrow> m \<le> d \<and> (\<forall>n\<in>set ns. n \<le> d)"
  by (induction ns arbitrary: m) auto

lemma skip_ws_simps [simp]:
  "skip_ws [] = []"
  "c \<notin> {CHR 0x20, CHR 0x09, CHR 0x0A, CHR 0x0D} \<Longrightarrow> skip_ws (c # s) = c # s"
  by (auto simp: skip_ws_def)

lemma read_word_append [simp]: "read_word w v (w @ s) = Some (v, s)"
  by (simp add: read_word_def)

lemma show_nat_lead: "show_nat n = CHR ''0'' # cs \<Longrightarrow> cs = []"
proof (induction n arbitrary: cs rule: show_nat.induct)
  case (1 n)
  show ?case
  proof (cases "n < 10")
    case True
    with "1.prems" show ?thesis by (simp add: show_nat.simps [of n])
  next
    case False
    obtain b bs where b: "show_nat (n div 10) = b # bs" by (cases "show_nat (n div 10)") auto
    with False "1.prems" have "b = CHR ''0''" by (simp add: show_nat.simps [of n])
    with b "1.IH" False have "show_nat (n div 10) = ''0''" by simp
    moreover have "parse_nat ''0'' = Some 0" by (simp add: parse_nat_def is_digit_def)
    ultimately have "n div 10 = 0" by (metis parse_show_nat option.inject)
    with False show ?thesis by simp
  qed
qed

lemma digits_until:
  assumes "stops s"
  shows "takeWhile is_digit (show_nat n @ s) = show_nat n" and "dropWhile is_digit (show_nat n @ s) = s"
proof -
  have "\<forall>c\<in>set (show_nat n). is_digit c" using show_nat_digits by blast
  moreover have "takeWhile is_digit s = []" "dropWhile is_digit s = s"
    using assms by (cases s; auto simp: stops_def is_digit_def)+
  ultimately show "takeWhile is_digit (show_nat n @ s) = show_nat n"
    and "dropWhile is_digit (show_nat n @ s) = s" by auto
qed

lemma read_int_part_show: "stops s \<Longrightarrow> read_int_part (show_nat n @ s) = Some (show_nat n, s)"
proof -
  assume st: "stops s"
  obtain c cs where n: "show_nat n = c # cs" by (cases "show_nat n") auto
  show ?thesis
  proof (cases "c = CHR ''0''")
    case True
    with show_nat_lead n have "cs = []" by metis
    with n True show ?thesis by (simp add: read_int_part_def)
  next
    case False
    with digits_until [OF st, of n] n show ?thesis
      by (auto simp: read_int_part_def read_digits_def split: list.splits)
  qed
qed

lemma digits_value_read: "read_nat acc s = Some n \<Longrightarrow> digits_value (int acc) s = int n"
proof (induction acc s rule: read_nat.induct)
  case (2 acc c cs)
  then have "is_digit c" "read_nat (10 * acc + (of_char c - 48)) cs = Some n"
    by (auto split: if_splits)
  moreover from this(1) have "int (10 * acc + (of_char c - 48)) = 10 * int acc + (int (byte c) - 48)"
    by (simp add: is_digit_def of_nat_diff)
  ultimately show ?case using "2.IH" by (metis digits_value.simps(2))
qed simp

lemma digits_value_show: "digits_value 0 (show_nat n) = int n"
  using digits_value_read [OF read_show_nat] by simp

lemma read_number_show: "stops s \<Longrightarrow> read_number (show_int n @ s) = Some (JInt n, s)"
proof -
  assume st: "stops s"
  have rest: "read_fraction s = Some ([], s)" "read_exponent s = Some ([], s)"
    using st by (auto simp: stops_def read_fraction_def read_exponent_def)
  show ?thesis
  proof (cases "n < 0")
    case True
    then show ?thesis
      by (simp add: read_number_def show_int_def read_int_part_show st rest digits_value_show)
  next
    case False
    obtain c cs where c: "show_nat (nat n) = c # cs" by (cases "show_nat (nat n)") auto
    then have "c \<noteq> CHR ''-''" using hd_show_nat by blast
    with False show ?thesis
      using read_int_part_show [OF st, of "nat n"] digits_value_show [of "nat n"]
      by (simp add: read_number_def show_int_def c rest)
  qed
qed

lemma show_int_head:
  "show_int n = c # cs \<Longrightarrow> is_digit c \<or> c = CHR ''-''"
  using show_nat_digits [of c "nat n"] by (auto simp: show_int_def split: if_splits)

lemma show_int_Nil [simp]: "show_int n \<noteq> []"
  by (simp add: show_int_def)

lemma parse_show_value:
  assumes "stops s"
  shows "parse_value d (show_int n @ s) = Some (JInt n, s)"
proof -
  obtain c cs where c: "show_int n = c # cs" by (cases "show_int n") auto
  from show_int_head [OF c] have "c \<notin> {CHR 0x20, CHR 0x09, CHR 0x0A, CHR 0x0D}"
    "c \<notin> {CHR 0x22, CHR ''{'', CHR ''['', CHR ''n'', CHR ''t'', CHR ''f''}"
    by (auto simp: is_digit_def)
  with read_number_show [OF assms, of n] show ?thesis
    by (simp add: parse_value.simps c)
qed

text \<open>No text begins with white space or a closing bracket.\<close>

lemma json_text_head:
  assumes "integral v"
  shows "\<exists>c r. json_text v = c # r \<and> c \<notin> {CHR 0x20, CHR 0x09, CHR 0x0A, CHR 0x0D, CHR '']'', CHR ''}''}"
proof (cases v)
  case (JInt n)
  obtain c cs where "show_int n = c # cs" by (cases "show_int n") auto
  with show_int_head [OF this] JInt show ?thesis by (auto simp: is_digit_def)
qed (use assms in \<open>auto simp: quote_def\<close>)

lemma skip_text: "integral v \<Longrightarrow> skip_ws (json_text v @ s) = json_text v @ s"
  using json_text_head [of v] by auto

lemma parse_elems_text:
  assumes "vs \<noteq> []" and "\<And>v s. v \<in> set vs \<Longrightarrow> stops s \<Longrightarrow> parse_value d (json_text v @ s) = Some (repair_json v, s)"
  shows "parse_elems d (join_with CHR '','' (map json_text vs) @ CHR '']'' # s) = Some (map repair_json vs, s)"
  using assms
proof (induction vs)
  case (Cons v vs)
  show ?case
  proof (cases vs)
    case Nil
    with Cons.prems(2) [of v "CHR '']'' # s"] show ?thesis
      by (simp add: parse_elems.simps stops_def)
  next
    case (Cons u us)
    let ?r = "join_with CHR '','' (map json_text vs) @ CHR '']'' # s"
    have "parse_value d (json_text v @ CHR '','' # ?r) = Some (repair_json v, CHR '','' # ?r)"
      by (rule Cons.prems(2)) (simp_all add: stops_def)
    moreover have "parse_elems d ?r = Some (map repair_json vs, s)"
      using Cons.IH Cons.prems(2) Cons by simp
    ultimately show ?thesis
      by (subst parse_elems.simps) (simp add: Cons)
  qed
qed simp

lemma parse_members_text:
  assumes "ms \<noteq> []"
    and "\<And>k v s. (k, v) \<in> set ms \<Longrightarrow> stops s \<Longrightarrow> parse_value d (json_text v @ s) = Some (repair_json v, s)"
  shows "parse_members d (join_with CHR '','' (map (\<lambda>(k, v). quote k @ '':'' @ json_text v) ms) @
     CHR ''}'' # s) = Some (map (\<lambda>(k, v). (repair k, repair_json v)) ms, s)"
  using assms
proof (induction ms)
  case (Cons m ms)
  obtain k v where m: "m = (k, v)" by fastforce
  note name = unquote_quote [of k]
  have val: "parse_value d (json_text v @ x) = Some (repair_json v, x)" if "stops x" for x
    using Cons.prems(2) [of k v x] that by (simp add: m)
  show ?case
  proof (cases ms)
    case Nil
    with val [of "CHR ''}'' # s"] show ?thesis
      by (subst parse_members.simps) (simp add: m quote_def name stops_def)
  next
    case (Cons u us)
    let ?r = "join_with CHR '','' (map (\<lambda>(k, v). quote k @ '':'' @ json_text v) ms) @ CHR ''}'' # s"
    have IH: "parse_members d ?r = Some (map (\<lambda>(k, v). (repair k, repair_json v)) ms, s)"
    proof (rule Cons.IH)
      show "parse_value d (json_text v @ s) = Some (repair_json v, s)"
        if "(k, v) \<in> set ms" "stops s" for k v s using that by (intro Cons.prems(2)) auto
    qed (simp add: Cons)
    with val [of "CHR '','' # ?r"] show ?thesis
      by (subst parse_members.simps) (simp add: m quote_def name stops_def Cons)
  qed
qed simp

lemma parse_array_text:
  assumes "list_all integral vs" and "depth (JArr vs) \<le> d"
    and IH: "\<And>v s. v \<in> set vs \<Longrightarrow> depth v \<le> d - 1 \<Longrightarrow> stops s \<Longrightarrow>
      parse_value (d - 1) (json_text v @ s) = Some (repair_json v, s)"
  shows "parse_value d (json_text (JArr vs) @ s) = Some (repair_json (JArr vs), s)"
proof (cases vs)
  case Nil
  with assms(2) show ?thesis by (simp add: parse_value.simps)
next
  case (Cons u us)
  have "fold max (map depth vs) 0 \<le> d - 1" using assms(2) by simp
  then have d: "0 \<le> d - 1" "\<forall>v\<in>set vs. depth v \<le> d - 1" unfolding fold_max_le by auto
  have "parse_elems (d - 1) (join_with CHR '','' (map json_text vs) @ CHR '']'' # s) = Some (map repair_json vs, s)"
    using Cons d(2) by (intro parse_elems_text IH) auto
  moreover obtain c r where "join_with CHR '','' (map json_text vs) = c # r"
      "c \<notin> {CHR 0x20, CHR 0x09, CHR 0x0A, CHR 0x0D, CHR '']''}"
  proof -
    have "integral u" using assms(1) Cons by simp
    from json_text_head [OF this] Cons that show thesis by (cases us) auto
  qed
  ultimately show ?thesis using d(1) by (simp add: parse_value.simps)
qed

lemma parse_object_text:
  assumes "list_all (\<lambda>(k, v). integral v) ms" and "depth (JObj ms) \<le> d"
    and IH: "\<And>k v s. (k, v) \<in> set ms \<Longrightarrow> depth v \<le> d - 1 \<Longrightarrow> stops s \<Longrightarrow>
      parse_value (d - 1) (json_text v @ s) = Some (repair_json v, s)"
  shows "parse_value d (json_text (JObj ms) @ s) = Some (repair_json (JObj ms), s)"
proof (cases ms)
  case Nil
  with assms(2) show ?thesis by (simp add: parse_value.simps)
next
  case (Cons m us)
  let ?t = "map (\<lambda>(k, v). quote k @ '':'' @ json_text v) ms"
  have "fold max (map (\<lambda>(k, v). depth v) ms) 0 \<le> d - 1" using assms(2) by simp
  then have d: "0 \<le> d - 1" "\<forall>(k, v)\<in>set ms. depth v \<le> d - 1"
    unfolding fold_max_le by auto
  have "parse_members (d - 1) (join_with CHR '','' ?t @ CHR ''}'' # s) =
      Some (map (\<lambda>(k, v). (repair k, repair_json v)) ms, s)"
    using Cons d(2) by (intro parse_members_text IH) auto
  moreover obtain r where "join_with CHR '','' ?t = CHR 0x22 # r"
    using Cons that by (cases m; cases us) (auto simp: quote_def)
  ultimately show ?thesis using d(1) by (simp add: parse_value.simps)
qed

theorem parse_text:
  "integral v \<Longrightarrow> depth v \<le> d \<Longrightarrow> stops s \<Longrightarrow> parse_value d (json_text v @ s) = Some (repair_json v, s)"
proof (induction v arbitrary: d s)
  case (JInt n)
  then show ?case by (simp add: parse_show_value)
next
  case (JStr t)
  then show ?case by (simp add: parse_value.simps quote_def unquote_quote)
next
  case (JArr vs)
  then show ?case by (intro parse_array_text) (auto simp: list_all_iff)
next
  case (JObj ms)
  then show ?case by (intro parse_object_text) (auto simp: list_all_iff)
qed (simp_all add: parse_value.simps read_word_def)

corollary decode_repaired:
  "integral v \<Longrightarrow> depth v \<le> max_depth \<Longrightarrow> decode_all (json_text v) = Some (repair_json v)"
  using parse_text [of v max_depth "[]"] by (simp add: decode_all_def stops_def)

corollary decode_repaired_first:
  "integral v \<Longrightarrow> depth v \<le> max_depth \<Longrightarrow> stops s \<Longrightarrow>
     decode_first (json_text v @ s) = Some (repair_json v)"
  using parse_text [of v max_depth s] by (simp add: decode_first_def)

corollary decode_text: "clean v \<Longrightarrow> depth v \<le> max_depth \<Longrightarrow> decode_all (json_text v) = Some v"
  by (simp add: decode_repaired clean_integral clean_repair)

corollary decode_text_first:
  "clean v \<Longrightarrow> depth v \<le> max_depth \<Longrightarrow> stops s \<Longrightarrow> decode_first (json_text v @ s) = Some v"
  by (simp add: decode_repaired_first clean_integral clean_repair)

section \<open>A text is one line\<close>

definition printable :: "string \<Rightarrow> bool" where
  "printable s \<longleftrightarrow> (\<forall>c\<in>set s. 32 \<le> byte c)"

lemma printable_simps [simp]:
  "printable []"
  "printable (c # s) \<longleftrightarrow> 32 \<le> byte c \<and> printable s"
  "printable (s @ t) \<longleftrightarrow> printable s \<and> printable t"
  by (auto simp: printable_def)

lemma printable_hex: "n < 16 \<Longrightarrow> 32 \<le> byte (hex_digit n)"
  by (simp add: hex_digit_def of_char_of take_bit_eq_mod)

lemma printable_quote_byte: "printable (quote_byte c)"
proof -
  have "byte c div 16 < 16" "byte c mod 16 < 16"
    using byte_less_256 [of c] by (simp_all add: less_mult_imp_div_less)
  then show ?thesis by (simp add: quote_byte_def printable_hex)
qed

lemma printable_quote_chars: "printable (quote_chars s)"
proof (induction s rule: quote_chars.induct)
  case (2 c s)
  have "printable (quote_rune c (take k s))" if k: "rune_tail c s = Some k" "k \<noteq> 0" for k
  proof -
    have "list_all is_cont (take k s)" "\<not> byte c < 128"
      using rune_tail_bounds(2,3) [OF k(1)] k(2) by auto
    then have "printable (c # take k s)"
      by (auto simp: printable_def list_all_iff is_cont_def)
    then show ?thesis by (simp add: quote_rune_def)
  qed
  with "2.IH" show ?case by (auto simp: printable_quote_byte split: option.splits)
qed simp

lemma printable_join: "\<forall>s\<in>set ss. printable s \<Longrightarrow> 32 \<le> byte c \<Longrightarrow> printable (join_with c ss)"
  by (induction c ss rule: join_with.induct) auto

lemma printable_show_int: "printable (show_int n)"
  by (auto simp: printable_def show_int_def is_digit_def dest: show_nat_digits)

lemma printable_json: "integral v \<Longrightarrow> printable (json_text v)"
proof (induction v)
  case (JArr vs)
  then show ?case by (auto simp: list_all_iff intro!: printable_join)
next
  case (JObj ms)
  have "printable (quote k @ '':'' @ json_text v)" if "(k, v) \<in> set ms" for k v
    using JObj.IH [OF that] JObj.prems that
    by (auto simp: list_all_iff quote_def printable_quote_chars)
  then show ?case by (auto intro!: printable_join)
qed (simp_all add: printable_show_int quote_def printable_quote_chars)

end
