(* ===== verification/Decode.thy ===== *)
theory Decode
  imports Json
begin

text \<open>
  How \<open>encoding/json\<close> fills a Go struct from a document. The tables, the tokens, the panels
  and the handlers read JSON this way.
\<close>

section \<open>Names\<close>

text \<open>
  Names of JSON members, and of headers, are compared without regard to case (ASCII; the two
  non-ASCII letters that fold to ASCII ones are not modelled).
\<close>

definition fold_char :: "char \<Rightarrow> char" where
  "fold_char c = (if 65 \<le> (of_char c :: nat) \<and> (of_char c :: nat) \<le> 90
     then char_of ((of_char c :: nat) + 32) else c)"

definition same_name :: "string \<Rightarrow> string \<Rightarrow> bool" where
  "same_name a b \<longleftrightarrow> map fold_char a = map fold_char b"

section \<open>Members into fields\<close>

text \<open>
  \<open>Decode\<close> assigns the members in their order, so the last of a name counts; \<open>null\<close> leaves
  a field as it is, a member of another type makes \<open>Decode\<close> fail.
\<close>

definition members :: "string \<Rightarrow> (string \<times> json) list \<Rightarrow> json list" where
  "members name ob = map snd (filter (\<lambda>(k, _). same_name k name) ob)"

fun int_member :: "json \<Rightarrow> bool" where
  "int_member (JInt n) = fits64 n"
| "int_member v = (v = JNull)"

fun str_member :: "json \<Rightarrow> bool" where
  "str_member (JStr _) = True"
| "str_member v = (v = JNull)"

fun bool_member :: "json \<Rightarrow> bool" where
  "bool_member (JBool _) = True"
| "bool_member v = (v = JNull)"

fun set_int :: "json \<Rightarrow> int \<Rightarrow> int" where
  "set_int (JInt n) _ = n"
| "set_int _ x = x"

fun set_int_ptr :: "json \<Rightarrow> int option \<Rightarrow> int option" where
  "set_int_ptr (JInt n) _ = Some n"
| "set_int_ptr JNull _ = None"
| "set_int_ptr _ x = x"

fun set_str :: "json \<Rightarrow> string \<Rightarrow> string" where
  "set_str (JStr s) _ = s"
| "set_str _ x = x"

fun set_bool :: "json \<Rightarrow> bool \<Rightarrow> bool" where
  "set_bool (JBool b) _ = b"
| "set_bool _ x = x"

definition int_field :: "string \<Rightarrow> (string \<times> json) list \<Rightarrow> int option" where
  "int_field name ob =
     (if list_all int_member (members name ob) then Some (fold set_int (members name ob) 0)
      else None)"

definition int_ptr_field :: "string \<Rightarrow> (string \<times> json) list \<Rightarrow> int option option" where
  "int_ptr_field name ob =
     (if list_all int_member (members name ob) then Some (fold set_int_ptr (members name ob) None)
      else None)"

definition str_field :: "string \<Rightarrow> (string \<times> json) list \<Rightarrow> string option" where
  "str_field name ob =
     (if list_all str_member (members name ob) then Some (fold set_str (members name ob) [])
      else None)"

definition bool_field :: "string \<Rightarrow> (string \<times> json) list \<Rightarrow> bool option" where
  "bool_field name ob =
     (if list_all bool_member (members name ob) then Some (fold set_bool (members name ob) False)
      else None)"

text \<open>
  The document \<open>null\<close> leaves the struct as it is; only an object has members to offer.
\<close>

definition decode_struct :: "((string \<times> json) list \<Rightarrow> 'a option) \<Rightarrow> json option \<Rightarrow> 'a option" where
  "decode_struct dec v =
     (case v of Some JNull \<Rightarrow> dec [] | Some (JObj ob) \<Rightarrow> dec ob | _ \<Rightarrow> None)"

end
