(* ===== verification/Events.thy ===== *)
theory Events
  imports Decode
begin

text \<open>
  The in-process event bus (\<open>internal/eventbus/bus.go\<close>) and the notification hub
  (\<open>internal/notification/hub.go\<close>). A Go channel is the list of the messages in its
  buffer, oldest first; a \<open>select\<close> with a \<open>default\<close> branch sends when the buffer has
  room and drops the message otherwise. A hub client receives the JSON text of the topic and
  the payload as a server-sent event.
\<close>

section \<open>Bounded channels\<close>

text \<open>
  The contract of a buffered channel that is only sent to without blocking: what fits is
  appended, what does not fit is dropped.
\<close>

locale bounded_channel =
  fixes cap :: nat
    and send :: "'m \<Rightarrow> 'm list \<Rightarrow> 'm list"
  assumes send_room: "length q < cap \<Longrightarrow> send m q = q @ [m]"
    and send_full: "cap \<le> length q \<Longrightarrow> send m q = q"
begin

lemma send_bound: "length q \<le> cap \<Longrightarrow> length (send m q) \<le> cap"
  by (cases "length q < cap") (auto simp: send_room send_full)

lemma fold_send:
  "length q \<le> cap \<Longrightarrow> fold send ms q = q @ take (cap - length q) ms"
proof (induction ms arbitrary: q)
  case Nil
  then show ?case by simp
next
  case (Cons m ms)
  show ?case
  proof (cases "length q < cap")
    case True
    then have "fold send ms (send m q) = send m q @ take (cap - length (send m q)) ms"
      by (intro Cons.IH) (simp add: send_room)
    moreover have "cap - length q = Suc (cap - Suc (length q))"
      using True by simp
    ultimately show ?thesis
      using True by (simp add: send_room)
  next
    case False
    then have "fold send ms (send m q) = q @ take (cap - length q) ms"
      using Cons.IH [of q] Cons.prems by (simp add: send_full)
    with False show ?thesis by simp
  qed
qed

text \<open>A channel nobody reads keeps the oldest messages and loses the later ones.\<close>

lemma fold_send_fresh: "fold send ms [] = take cap ms"
  using fold_send [of "[]" ms] by simp

lemma fold_send_bound: "length q \<le> cap \<Longrightarrow> length (fold send ms q) \<le> cap"
  by (simp add: fold_send)

end

section \<open>Event bus\<close>

text \<open>A payload is a \<open>map[string]any\<close>.\<close>

type_synonym payload = "(string \<times> json) list"

record Event =
  Topic :: string
  Payload :: payload

record Bus =
  subs :: "string \<Rightarrow> Event list list"

definition bus_new :: Bus where
  "bus_new = \<lparr>subs = (\<lambda>_. [])\<rparr>"

text \<open>\<open>Subscribe\<close> appends a channel with eight slots and returns it (here: its index).\<close>

definition subscribe :: "Bus \<Rightarrow> string \<Rightarrow> nat \<times> Bus" where
  "subscribe b topic =
     (length (subs b topic), b\<lparr>subs := (subs b)(topic := subs b topic @ [[]])\<rparr>)"

definition bus_send :: "Event \<Rightarrow> Event list \<Rightarrow> Event list" where
  "bus_send e ch = (if length ch < 8 then ch @ [e] else ch)"

definition publish :: "Bus \<Rightarrow> Event \<Rightarrow> Bus" where
  "publish b e = b\<lparr>subs := (subs b)(Topic e := map (bus_send e) (subs b (Topic e)))\<rparr>"

interpretation bus_channel: bounded_channel 8 bus_send
  by unfold_locales (auto simp: bus_send_def)

definition bus_ok :: "Bus \<Rightarrow> bool" where
  "bus_ok b \<longleftrightarrow> (\<forall>t. \<forall>ch\<in>set (subs b t). length ch \<le> 8)"

lemma bus_ok_new: "bus_ok bus_new"
  by (simp add: bus_ok_def bus_new_def)

lemma bus_ok_subscribe: "bus_ok b \<Longrightarrow> bus_ok (snd (subscribe b t))"
  by (auto simp: bus_ok_def subscribe_def)

lemma bus_ok_publish: "bus_ok b \<Longrightarrow> bus_ok (publish b e)"
  by (auto simp: bus_ok_def publish_def bus_channel.send_bound)

lemma subs_publish:
  "subs (publish b e) t =
     (if t = Topic e then map (bus_send e) (subs b t) else subs b t)"
  by (simp add: publish_def)

lemma subs_fold_publish:
  "subs (fold (\<lambda>e b. publish b e) es b) t =
     map (fold bus_send (filter (\<lambda>e. Topic e = t) es)) (subs b t)"
proof (induction es arbitrary: b)
  case Nil
  then show ?case by simp
next
  case (Cons e es)
  then show ?case by (simp add: subs_publish comp_def)
qed

section \<open>Notification hub\<close>

type_synonym message = string

text \<open>\<open>json.Marshal(map[string]any{"topic": topic, "payload": payload})\<close>\<close>

definition message_json :: "string \<Rightarrow> payload \<Rightarrow> json" where
  "message_json topic payload = json_map [(''topic'', JStr topic), (''payload'', json_map payload)]"

definition message_text :: "string \<Rightarrow> payload \<Rightarrow> message" where
  "message_text topic payload = json_text (message_json topic payload)"

record Hub =
  bus :: Bus
  clients :: "(nat \<times> message list) list"

definition new_hub :: "Bus \<Rightarrow> Hub" where
  "new_hub b = \<lparr>bus = b, clients = []\<rparr>"

definition hub_send :: "message \<Rightarrow> message list \<Rightarrow> message list" where
  "hub_send m ch = (if length ch < 16 then ch @ [m] else ch)"

text \<open>
  \<open>WS\<close>: a connecting client registers a channel with sixteen slots, a closing one removes
  it, and the loop in between writes the oldest message. \<open>c\<close> names the channel.
\<close>

definition ws_open :: "nat \<Rightarrow> Hub \<Rightarrow> Hub" where
  "ws_open c h = h\<lparr>clients := clients h @ [(c, [])]\<rparr>"

definition ws_close :: "nat \<Rightarrow> Hub \<Rightarrow> Hub" where
  "ws_close c h = h\<lparr>clients := filter (\<lambda>(d, _). d \<noteq> c) (clients h)\<rparr>"

definition ws_recv :: "nat \<Rightarrow> Hub \<Rightarrow> (message \<times> Hub) option" where
  "ws_recv c h =
     (case map_of (clients h) c of
        Some (m # ms) \<Rightarrow>
          Some (m, h\<lparr>clients := map (\<lambda>(d, q). (d, if d = c then ms else q)) (clients h)\<rparr>)
      | _ \<Rightarrow> None)"

definition notify :: "string \<Rightarrow> payload \<Rightarrow> Hub \<Rightarrow> Hub" where
  "notify topic payload h =
     \<lparr>bus = publish (bus h) \<lparr>Topic = topic, Payload = payload\<rparr>,
      clients = map (\<lambda>(c, q). (c, hub_send (message_text topic payload) q)) (clients h)\<rparr>"

interpretation hub_channel: bounded_channel 16 hub_send
  by unfold_locales (auto simp: hub_send_def)

definition hub_ok :: "Hub \<Rightarrow> bool" where
  "hub_ok h \<longleftrightarrow>
     bus_ok (bus h) \<and> distinct (map fst (clients h)) \<and>
     (\<forall>(c, q)\<in>set (clients h). length q \<le> 16)"

lemma clients_notify:
  "clients (notify t p h) = map (\<lambda>(c, q). (c, hub_send (message_text t p) q)) (clients h)"
  by (simp add: notify_def)

lemma map_of_map_snd: "map_of (map (\<lambda>(c, q). (c, f q)) xs) k = map_option f (map_of xs k)"
  by (induction xs) auto

lemma map_of_clients_notify:
  "map_of (clients (notify t p h)) c =
     map_option (hub_send (message_text t p)) (map_of (clients h) c)"
  by (simp add: clients_notify map_of_map_snd)

lemma fst_clients_notify [simp]: "map fst (clients (notify t p h)) = map fst (clients h)"
  by (simp add: clients_notify comp_def case_prod_unfold)

lemma hub_ok_new: "bus_ok b \<Longrightarrow> hub_ok (new_hub b)"
  by (simp add: hub_ok_def new_hub_def)

lemma hub_ok_notify: "hub_ok h \<Longrightarrow> hub_ok (notify t p h)"
  by (auto simp: hub_ok_def notify_def bus_ok_publish hub_channel.send_bound
      comp_def case_prod_unfold)

lemma hub_ok_open: "hub_ok h \<Longrightarrow> c \<notin> fst ` set (clients h) \<Longrightarrow> hub_ok (ws_open c h)"
  by (auto simp: hub_ok_def ws_open_def)

lemma hub_ok_close: "hub_ok h \<Longrightarrow> hub_ok (ws_close c h)"
  by (auto simp: hub_ok_def ws_close_def distinct_map_filter)

lemma hub_ok_recv: "hub_ok h \<Longrightarrow> ws_recv c h = Some (m, h') \<Longrightarrow> hub_ok h'"
  by (fastforce simp: hub_ok_def ws_recv_def comp_def case_prod_unfold
      split: option.splits list.splits dest!: map_of_SomeD)

text \<open>A client that nobody drains holds the first sixteen messages sent to it.\<close>

lemma clients_fold_notify:
  "map_of (clients (fold (\<lambda>(t, p) h. notify t p h) ms h)) c =
     map_option (fold hub_send (map (\<lambda>(t, p). message_text t p) ms)) (map_of (clients h) c)"
proof (induction ms arbitrary: h)
  case Nil
  then show ?case by (cases "map_of (clients h) c") auto
next
  case (Cons m ms)
  then show ?case
    by (cases m) (simp add: map_of_clients_notify option.map_comp comp_def)
qed

end
