(* ===== verification/Sql.thy ===== *)
theory Sql
  imports Schema Events
begin

text \<open>
  How a Go function runs statements against PostgreSQL through \<open>database/sql\<close>. The world
  is the tables, the sequences behind \<open>BIGSERIAL\<close> columns, the two clocks, the
  notification hub and the faults the environment injects. An action returns an error or
  a value together with the new world; \<open>andThen\<close> is Go's \<open>if err != nil { return err }\<close>.

  Faults: every round trip to the server takes the next element of \<open>w_faults\<close> (none left:
  no fault). \<open>FFail\<close> loses the request, \<open>FLost\<close> loses the answer: the server has run
  the statement, but the client sees an error. At a commit this is the ambiguous outcome
  a client cannot tell from a failure.

  Panels are HTTP services outside the program: \<open>w_replies\<close> is what the next requests to
  one will be answered (none left: no answer), \<open>w_sent\<close> the requests sent so far, the
  latest first.
\<close>

section \<open>World and actions\<close>

datatype fault = FOk | FFail | FLost

text \<open>
  A reply is a status and the text of the body.
\<close>

datatype reply = NoReply | Reply int string

record createReq =
  CQ_URL :: string
  CQ_Authorization :: string
  CQ_InboundID :: int
  CQ_Email :: string
  CQ_UUID :: string
  CQ_ExpiryUnix :: int
  CQ_TrafficGB :: int

record world =
  w_db :: db
  w_seq :: "tbl \<Rightarrow> int"
  w_faults :: "fault list"
  w_now :: int
  w_nano :: int
  w_hub :: Hub
  w_replies :: "reply list"
  w_sent :: "createReq list"

type_synonym 'a act = "world \<Rightarrow> (err + 'a) \<times> world"

definition ret :: "'a \<Rightarrow> 'a act" where
  "ret x w = (Inr x, w)"

definition fail :: "err \<Rightarrow> 'a act" where
  "fail e w = (Inl e, w)"

definition andThen :: "'a act \<Rightarrow> ('a \<Rightarrow> 'b act) \<Rightarrow> 'b act" where
  "andThen m f w =
     (case m w of (Inl e, w1) \<Rightarrow> (Inl e, w1) | (Inr x, w1) \<Rightarrow> f x w1)"

text \<open>\<open>if err != nil { return ..., g(err) }\<close>: the error is reported through \<open>g\<close>.\<close>

definition onErr :: "(err \<Rightarrow> err) \<Rightarrow> 'a act \<Rightarrow> 'a act" where
  "onErr g m w = (case m w of (Inl e, w1) \<Rightarrow> (Inl (g e), w1) | (Inr x, w1) \<Rightarrow> (Inr x, w1))"

text \<open>\<open>x, _ := m\<close>: the error is dropped and the zero value used instead.\<close>

definition orElse :: "'a \<Rightarrow> 'a act \<Rightarrow> 'a act" where
  "orElse z m w = (case m w of (Inl e, w1) \<Rightarrow> (Inr z, w1) | (Inr x, w1) \<Rightarrow> (Inr x, w1))"

text \<open>\<open>if errors.Is(err, target)\<close>: that one error counts as the result \<open>z\<close>.\<close>

definition catchErr :: "err \<Rightarrow> 'a \<Rightarrow> 'a act \<Rightarrow> 'a act" where
  "catchErr target z m w =
     (case m w of
        (Inl e, w1) \<Rightarrow> if errors_is e target then (Inr z, w1) else (Inl e, w1)
      | (Inr x, w1) \<Rightarrow> (Inr x, w1))"

text \<open>A call whose error the code looks at itself: \<open>h\<close> on an error, \<open>k\<close> otherwise.\<close>

definition attempt :: "'a act \<Rightarrow> (err \<Rightarrow> 'b act) \<Rightarrow> ('a \<Rightarrow> 'b act) \<Rightarrow> 'b act" where
  "attempt m h k w = (case m w of (Inl e, w1) \<Rightarrow> h e w1 | (Inr x, w1) \<Rightarrow> k x w1)"

definition notifyAct :: "string \<Rightarrow> payload \<Rightarrow> unit act" where
  "notifyAct t p w = (Inr (), w\<lparr>w_hub := notify t p (w_hub w)\<rparr>)"

text \<open>A pure function of the code that may return an error.\<close>

definition lift_res :: "err + 'a \<Rightarrow> 'a act" where
  "lift_res x = (case x of Inl e \<Rightarrow> fail e | Inr y \<Rightarrow> ret y)"

definition getNano :: "int act" where
  "getNano w = (Inr (w_nano w), w)"

section \<open>Statements\<close>

definition next_fault :: "world \<Rightarrow> fault" where
  "next_fault w = (case w_faults w of [] \<Rightarrow> FOk | f # _ \<Rightarrow> f)"

definition pop :: "world \<Rightarrow> world" where
  "pop w = w\<lparr>w_faults := tl (w_faults w)\<rparr>"

definition roundtrip :: "'a act \<Rightarrow> 'a act" where
  "roundtrip f w =
     (case next_fault w of
        FOk \<Rightarrow> f (pop w)
      | FFail \<Rightarrow> (Inl ErrDriver, pop w)
      | FLost \<Rightarrow> (Inl ErrDriver, snd (f (pop w))))"

text \<open>A \<open>SELECT\<close>, an \<open>UPDATE\<close>, and an \<open>INSERT ... RETURNING id\<close>. The sequence advances
  even when the insertion fails, and no rollback undoes that.\<close>

definition query :: "(db \<Rightarrow> err + 'a) \<Rightarrow> 'a act" where
  "query q = roundtrip (\<lambda>w. (q (w_db w), w))"

definition exec :: "(int \<Rightarrow> db \<Rightarrow> err + db) \<Rightarrow> unit act" where
  "exec u = roundtrip (\<lambda>w.
     case u (w_now w) (w_db w) of
       Inl e \<Rightarrow> (Inl e, w)
     | Inr d \<Rightarrow> (Inr (), w\<lparr>w_db := d\<rparr>))"

text \<open>An \<open>UPDATE ... RETURNING\<close>.\<close>

definition exec_returning :: "(int \<Rightarrow> db \<Rightarrow> err + 'a \<times> db) \<Rightarrow> 'a act" where
  "exec_returning u = roundtrip (\<lambda>w.
     case u (w_now w) (w_db w) of
       Inl e \<Rightarrow> (Inl e, w)
     | Inr (x, d) \<Rightarrow> (Inr x, w\<lparr>w_db := d\<rparr>))"

definition insert_returning :: "tbl \<Rightarrow> (int \<Rightarrow> int \<Rightarrow> db \<Rightarrow> err + db) \<Rightarrow> int act" where
  "insert_returning t mk = roundtrip (\<lambda>w.
     let i = w_seq w t + 1; w1 = w\<lparr>w_seq := (w_seq w)(t := i)\<rparr> in
     case mk i (w_now w) (w_db w) of
       Inl e \<Rightarrow> (Inl e, w1)
     | Inr d \<Rightarrow> (Inr i, w1\<lparr>w_db := d\<rparr>))"

definition insert_row :: "tbl \<Rightarrow> (int \<Rightarrow> int \<Rightarrow> db \<Rightarrow> err + db) \<Rightarrow> unit act" where
  "insert_row t mk = andThen (insert_returning t mk) (\<lambda>_. ret ())"

text \<open>
  A transaction: \<open>BeginTx\<close>, the body, \<open>Rollback\<close> on the first error, else \<open>Commit\<close>.
  \<open>fb\<close> and \<open>fc\<close> are what the caller makes of an error of the two ends. A rollback that
  fails only logs, and the server drops the transaction with the connection.
\<close>

definition begin_tx :: "unit act" where
  "begin_tx = roundtrip (ret ())"

definition commit_tx :: "db \<Rightarrow> unit act" where
  "commit_tx before w =
     (case next_fault w of
        FOk \<Rightarrow> (Inr (), pop w)
      | FFail \<Rightarrow> (Inl ErrDriver, (pop w)\<lparr>w_db := before\<rparr>)
      | FLost \<Rightarrow> (Inl ErrDriver, pop w))"

definition transaction :: "(err \<Rightarrow> err) \<Rightarrow> (err \<Rightarrow> err) \<Rightarrow> 'a act \<Rightarrow> 'a act" where
  "transaction fb fc body =
     andThen (onErr fb begin_tx) (\<lambda>_ w.
       case body w of
         (Inl e, w1) \<Rightarrow> (Inl e, w1\<lparr>w_db := w_db w\<rparr>)
       | (Inr x, w1) \<Rightarrow> andThen (onErr fc (commit_tx (w_db w))) (\<lambda>_. ret x) w1)"

section \<open>Inversion of successful actions\<close>

lemma pop_simps [simp]:
  "w_db (pop w) = w_db w" "w_seq (pop w) = w_seq w" "w_now (pop w) = w_now w"
  "w_nano (pop w) = w_nano w" "w_hub (pop w) = w_hub w" "w_faults (pop w) = tl (w_faults w)"
  "w_replies (pop w) = w_replies w" "w_sent (pop w) = w_sent w"
  by (simp_all add: pop_def)

lemma ret_Inr [act_simps]: "ret x w = (r, w') \<longleftrightarrow> r = Inr x \<and> w' = w"
  by (auto simp: ret_def)

lemma fail_Inr [act_simps]: "fail e w = (r, w') \<longleftrightarrow> r = Inl e \<and> w' = w"
  by (auto simp: fail_def)

lemma andThen_Inr [act_simps]:
  "andThen m f w = (Inr y, w') \<longleftrightarrow> (\<exists>x w1. m w = (Inr x, w1) \<and> f x w1 = (Inr y, w'))"
  by (auto simp: andThen_def split: prod.splits sum.splits)

lemma andThen_Inl:
  "andThen m f w = (Inl e, w') \<longleftrightarrow>
     m w = (Inl e, w') \<or> (\<exists>x w1. m w = (Inr x, w1) \<and> f x w1 = (Inl e, w'))"
  by (auto simp: andThen_def split: prod.splits sum.splits)

lemma onErr_Inr [act_simps]: "onErr g m w = (Inr x, w') \<longleftrightarrow> m w = (Inr x, w')"
  by (auto simp: onErr_def split: prod.splits sum.splits)

lemma onErr_Inl:
  "onErr g m w = (Inl e, w') \<longleftrightarrow> (\<exists>e'. e = g e' \<and> m w = (Inl e', w'))"
  by (auto simp: onErr_def split: prod.splits sum.splits)

lemma notifyAct_iff [act_simps]:
  "notifyAct t p w = (r, w') \<longleftrightarrow> r = Inr () \<and> w' = w\<lparr>w_hub := notify t p (w_hub w)\<rparr>"
  by (auto simp: notifyAct_def)

lemma getNano_iff [act_simps]: "getNano w = (r, w') \<longleftrightarrow> r = Inr (w_nano w) \<and> w' = w"
  by (auto simp: getNano_def)

lemma lift_res_iff [act_simps]: "lift_res x w = (r, w') \<longleftrightarrow> r = x \<and> w' = w"
  by (auto simp: lift_res_def fail_def ret_def split: sum.splits)

lemma query_Inr [act_simps]:
  "query q w = (Inr x, w') \<longleftrightarrow> next_fault w = FOk \<and> q (w_db w) = Inr x \<and> w' = pop w"
  by (auto simp: query_def roundtrip_def split: fault.splits)

lemma exec_Inr [act_simps]:
  "exec u w = (Inr x, w') \<longleftrightarrow>
     next_fault w = FOk \<and> (\<exists>d. u (w_now w) (w_db w) = Inr d \<and> w' = (pop w)\<lparr>w_db := d\<rparr>)"
  by (auto simp: exec_def roundtrip_def split: fault.splits sum.splits)

lemma exec_returning_Inr [act_simps]:
  "exec_returning u w = (Inr x, w') \<longleftrightarrow>
     next_fault w = FOk \<and>
     (\<exists>d. u (w_now w) (w_db w) = Inr (x, d) \<and> w' = (pop w)\<lparr>w_db := d\<rparr>)"
  by (auto simp: exec_returning_def roundtrip_def split: fault.splits sum.splits)

lemma insert_returning_Inr [act_simps]:
  "insert_returning t mk w = (Inr i, w') \<longleftrightarrow>
     next_fault w = FOk \<and> i = w_seq w t + 1 \<and>
     (\<exists>d. mk i (w_now w) (w_db w) = Inr d \<and>
        w' = (pop w)\<lparr>w_seq := (w_seq w)(t := i), w_db := d\<rparr>)"
  by (auto simp: insert_returning_def roundtrip_def Let_def split: fault.splits sum.splits)

lemma insert_row_Inr [act_simps]:
  "insert_row t mk w = (Inr x, w') \<longleftrightarrow>
     next_fault w = FOk \<and>
     (\<exists>d. mk (w_seq w t + 1) (w_now w) (w_db w) = Inr d \<and>
        w' = (pop w)\<lparr>w_seq := (w_seq w)(t := w_seq w t + 1), w_db := d\<rparr>)"
  by (auto simp: insert_row_def act_simps)

lemma begin_tx_Inr [act_simps]: "begin_tx w = (Inr x, w') \<longleftrightarrow> next_fault w = FOk \<and> w' = pop w"
  by (auto simp: begin_tx_def roundtrip_def ret_def split: fault.splits)

lemma begin_tx_Inl: "begin_tx w = (Inl e, w') \<longleftrightarrow> next_fault w \<noteq> FOk \<and> e = ErrDriver \<and> w' = pop w"
  by (auto simp: begin_tx_def roundtrip_def ret_def split: fault.splits)

lemma commit_tx_Inr [act_simps]:
  "commit_tx d w = (Inr x, w') \<longleftrightarrow> next_fault w = FOk \<and> w' = pop w"
  by (auto simp: commit_tx_def split: fault.splits)

lemma commit_tx_Inl:
  "commit_tx d w = (Inl e, w') \<longleftrightarrow>
     e = ErrDriver \<and>
     (next_fault w = FFail \<and> w' = (pop w)\<lparr>w_db := d\<rparr> \<or> next_fault w = FLost \<and> w' = pop w)"
  by (auto simp: commit_tx_def split: fault.splits)

section \<open>What a statement can do to the tables\<close>

lemma exec_db: "exec u w = (r, w') \<Longrightarrow> w_db w' = w_db w \<or> u (w_now w) (w_db w) = Inr (w_db w')"
  by (auto simp: exec_def roundtrip_def split: fault.splits sum.splits)

lemma exec_returning_db:
  "exec_returning u w = (r, w') \<Longrightarrow>
     w_db w' = w_db w \<or> (\<exists>x. u (w_now w) (w_db w) = Inr (x, w_db w'))"
  by (auto simp: exec_returning_def roundtrip_def split: fault.splits sum.splits)

lemma insert_returning_db:
  "insert_returning t mk w = (r, w') \<Longrightarrow>
     w_db w' = w_db w \<or> mk (w_seq w t + 1) (w_now w) (w_db w) = Inr (w_db w')"
  by (auto simp: insert_returning_def roundtrip_def Let_def split: fault.splits sum.splits)

section \<open>What a transaction can do\<close>

lemma transaction_Inr [act_simps]:
  "transaction fb fc body w = (Inr x, w') \<longleftrightarrow>
     next_fault w = FOk \<and>
     (\<exists>w1. body (pop w) = (Inr x, w1) \<and> next_fault w1 = FOk \<and> w' = pop w1)"
  unfolding transaction_def
  by (auto simp: act_simps split: prod.splits sum.splits)

text \<open>
  The three outcomes of a transaction: committed and reported, rolled back, or committed
  with the answer lost. There is no fourth: the tables never hold part of the body.
\<close>

lemma transaction_cases:
  assumes "transaction fb fc body w = (r, w')"
  obtains (committed) x w1 where "r = Inr x" "body (pop w) = (Inr x, w1)" "w' = pop w1"
  | (rolled_back) e where "r = Inl e" "w_db w' = w_db w"
  | (lost) x w1 where "r = Inl (fc ErrDriver)" "body (pop w) = (Inr x, w1)" "w' = pop w1"
proof (cases r)
  case (Inr x)
  with assms show thesis by (auto simp: act_simps intro: committed)
next
  case (Inl e)
  with assms have t: "transaction fb fc body w = (Inl e, w')" by simp
  from t consider "\<exists>e'. begin_tx w = (Inl e', w')"
    | w1 e1 where "begin_tx w = (Inr (), pop w)" "body (pop w) = (Inl e1, w1)"
        "w' = w1\<lparr>w_db := w_db (pop w)\<rparr>"
    | x w1 where "begin_tx w = (Inr (), pop w)" "body (pop w) = (Inr x, w1)"
        "commit_tx (w_db (pop w)) w1 = (Inl ErrDriver, w')" "e = fc ErrDriver"
    unfolding transaction_def
    by (auto simp: andThen_Inl onErr_Inl act_simps commit_tx_Inl
        split: prod.splits sum.splits)
  then show thesis
  proof cases
    case 1
    with Inl rolled_back show thesis by (auto simp: begin_tx_Inl)
  next
    case 2
    with Inl rolled_back show thesis by auto
  next
    case 3
    with Inl show thesis
      by (auto simp: commit_tx_Inl intro: rolled_back lost)
  qed
qed

lemma transaction_db:
  assumes "transaction fb fc body w = (r, w')"
  shows "w_db w' = w_db w \<or> (\<exists>x w1. body (pop w) = (Inr x, w1) \<and> w_db w' = w_db w1)"
  using assms by (cases rule: transaction_cases) auto

section \<open>Evaluation when the environment injects no fault\<close>

lemma nofault_simps:
  assumes "w_faults w = []"
  shows nofault_query: "query q w = (q (w_db w), w)"
    and nofault_exec: "exec u w =
      (case u (w_now w) (w_db w) of Inl e \<Rightarrow> (Inl e, w) | Inr d \<Rightarrow> (Inr (), w\<lparr>w_db := d\<rparr>))"
    and nofault_exec_returning: "exec_returning v w =
      (case v (w_now w) (w_db w) of
         Inl e \<Rightarrow> (Inl e, w) | Inr (x, d) \<Rightarrow> (Inr x, w\<lparr>w_db := d\<rparr>))"
    and nofault_insert: "insert_returning t mk w =
      (let i = w_seq w t + 1; w1 = w\<lparr>w_seq := (w_seq w)(t := i)\<rparr> in
       case mk i (w_now w) (w_db w) of
         Inl e \<Rightarrow> (Inl e, w1) | Inr d \<Rightarrow> (Inr i, w1\<lparr>w_db := d\<rparr>))"
    and nofault_insert_row: "insert_row t mk w =
      (let i = w_seq w t + 1; w1 = w\<lparr>w_seq := (w_seq w)(t := i)\<rparr> in
       case mk i (w_now w) (w_db w) of
         Inl e \<Rightarrow> (Inl e, w1) | Inr d \<Rightarrow> (Inr (), w1\<lparr>w_db := d\<rparr>))"
    and nofault_begin: "begin_tx w = (Inr (), w)"
    and nofault_commit: "commit_tx d w = (Inr (), w)"
proof -
  from assms have p: "pop w = w" and n: "next_fault w = FOk"
    by (simp_all add: pop_def next_fault_def)
  show "query q w = (q (w_db w), w)"
    and "exec u w =
      (case u (w_now w) (w_db w) of Inl e \<Rightarrow> (Inl e, w) | Inr d \<Rightarrow> (Inr (), w\<lparr>w_db := d\<rparr>))"
    and "exec_returning v w =
      (case v (w_now w) (w_db w) of
         Inl e \<Rightarrow> (Inl e, w) | Inr (x, d) \<Rightarrow> (Inr x, w\<lparr>w_db := d\<rparr>))"
    and i: "insert_returning t mk w =
      (let i = w_seq w t + 1; w1 = w\<lparr>w_seq := (w_seq w)(t := i)\<rparr> in
       case mk i (w_now w) (w_db w) of
         Inl e \<Rightarrow> (Inl e, w1) | Inr d \<Rightarrow> (Inr i, w1\<lparr>w_db := d\<rparr>))"
    and "begin_tx w = (Inr (), w)" and "commit_tx d w = (Inr (), w)"
    by (simp_all add: query_def exec_def exec_returning_def insert_returning_def begin_tx_def commit_tx_def
        roundtrip_def p n ret_def split: sum.splits)
  show "insert_row t mk w =
      (let i = w_seq w t + 1; w1 = w\<lparr>w_seq := (w_seq w)(t := i)\<rparr> in
       case mk i (w_now w) (w_db w) of
         Inl e \<Rightarrow> (Inl e, w1) | Inr d \<Rightarrow> (Inr (), w1\<lparr>w_db := d\<rparr>))"
    by (auto simp: insert_row_def andThen_def i ret_def Let_def split: sum.splits)
qed

end
