(* ===== verification/StoreInv.thy ===== *)
theory StoreInv
  imports Sql
begin

text \<open>
  Invariants of the tables and how they survive an action whatever faults occur. An
  invariant speaks of the sequences and the tables; it must not break when a sequence
  advances, because sequences do so even in a transaction that is rolled back. The locale
  states that contract and derives one rule for each way actions are put together.
\<close>

type_synonym seqs = "tbl \<Rightarrow> int"
type_synonym table_inv = "seqs \<Rightarrow> db \<Rightarrow> bool"

definition holds :: "table_inv \<Rightarrow> world \<Rightarrow> bool" where
  "holds I w \<longleftrightarrow> I (w_seq w) (w_db w)"

definition keeps :: "table_inv \<Rightarrow> 'a act \<Rightarrow> bool" where
  "keeps I a \<longleftrightarrow> (\<forall>w. holds I w \<longrightarrow> holds I (snd (a w)))"

lemma keepsD: "keeps I a \<Longrightarrow> a w = (r, w') \<Longrightarrow> holds I w \<Longrightarrow> holds I w'"
  by (auto simp: keeps_def dest!: spec [of _ w])

section \<open>Framed actions\<close>

text \<open>
  What every action leaves alone is a relation between the world before and after that is
  reflexive, transitive and does not look at the tables. The locale derives it for each
  construction from these laws.
\<close>

definition via :: "(world \<Rightarrow> world \<Rightarrow> bool) \<Rightarrow> 'a act \<Rightarrow> bool" where
  "via R a \<longleftrightarrow> (\<forall>w. R w (snd (a w)))"

lemma viaD: "via R a \<Longrightarrow> a w = (r, w') \<Longrightarrow> R w w'"
  by (auto simp: via_def dest!: spec [of _ w])

lemma snd_onErr [simp]: "snd (onErr g m w) = snd (m w)"
  by (simp add: onErr_def split: prod.splits sum.splits)

lemma snd_orElse [simp]: "snd (orElse z m w) = snd (m w)"
  by (simp add: orElse_def split: prod.splits sum.splits)

lemma snd_catchErr [simp]: "snd (catchErr t z m w) = snd (m w)"
  by (simp add: catchErr_def split: prod.splits sum.splits)

locale frame_relation =
  fixes R :: "world \<Rightarrow> world \<Rightarrow> bool"
  assumes R_refl: "R w w"
    and R_trans: "R w w1 \<Longrightarrow> R w1 w2 \<Longrightarrow> R w w2"
    and R_db: "R w (w\<lparr>w_db := d\<rparr>)"
    and R_pop: "R w (pop w)"
    and R_seq: "R w (w\<lparr>w_seq := (w_seq w)(t := w_seq w t + 1)\<rparr>)"
begin

lemma via_basic: "via R (ret x)" "via R (fail e)" "via R getNano" "via R (lift_res y)"
  by (simp_all add: via_def ret_def fail_def getNano_def lift_res_def R_refl split: sum.splits)

lemma via_andThen:
  assumes "via R m" and "\<And>x. via R (f x)"
  shows "via R (andThen m f)"
  unfolding via_def
proof
  fix w
  obtain r w1 where m: "m w = (r, w1)" by (cases "m w")
  have "R w w1" using assms(1) m by (rule viaD)
  moreover have "R w1 (snd (f x w1))" for x using assms(2) by (simp add: via_def)
  ultimately show "R w (snd (andThen m f w))"
    by (cases r) (auto simp: andThen_def m intro: R_trans)
qed

lemma via_if: "via R a \<Longrightarrow> via R b \<Longrightarrow> via R (if c then a else b)"
  by simp

lemma via_onErr: "via R m \<Longrightarrow> via R (onErr g m)"
  by (simp add: via_def)

lemma via_orElse: "via R m \<Longrightarrow> via R (orElse z m)"
  by (simp add: via_def)

lemma via_catchErr: "via R m \<Longrightarrow> via R (catchErr t z m)"
  by (simp add: via_def)

lemma via_attempt:
  assumes "via R m" and "\<And>e. via R (h e)" and "\<And>x. via R (k x)"
  shows "via R (attempt m h k)"
  unfolding via_def
proof
  fix w
  obtain r w1 where m: "m w = (r, w1)" by (cases "m w")
  have "R w w1" using assms(1) m by (rule viaD)
  moreover have "R w1 (snd (h e w1))" "R w1 (snd (k x w1))" for e x
    using assms(2,3) by (simp_all add: via_def)
  ultimately show "R w (snd (attempt m h k w))"
    by (cases r) (auto simp: attempt_def m intro: R_trans)
qed

lemma via_roundtrip: "via R f \<Longrightarrow> via R (roundtrip f)"
  by (auto simp: via_def roundtrip_def intro: R_pop R_trans split: fault.splits)

lemma via_query: "via R (query q)"
  unfolding query_def by (rule via_roundtrip) (simp add: via_def R_refl)

lemma via_exec: "via R (exec u)"
  unfolding exec_def by (rule via_roundtrip) (auto simp: via_def R_refl R_db split: sum.splits)

lemma via_exec_returning: "via R (exec_returning u)"
  unfolding exec_returning_def
  by (rule via_roundtrip) (auto simp: via_def R_refl R_db split: sum.splits)

lemma via_insert_returning: "via R (insert_returning t mk)"
  unfolding insert_returning_def
  by (rule via_roundtrip)
     (auto simp: via_def Let_def intro: R_seq R_trans [OF R_seq R_db] split: sum.splits)

lemma via_insert_row: "via R (insert_row t mk)"
  unfolding insert_row_def by (intro via_andThen via_insert_returning via_basic)

lemma via_begin_tx: "via R begin_tx"
  unfolding begin_tx_def by (intro via_roundtrip via_basic)

lemma via_commit_tx: "via R (commit_tx d)"
  by (auto simp: via_def commit_tx_def intro: R_pop R_trans [OF R_pop R_db] split: fault.splits)

lemma via_transaction:
  assumes "via R body"
  shows "via R (transaction fb fc body)"
proof -
  have "via R (\<lambda>w. case body w of
       (Inl e, w1) \<Rightarrow> (Inl e, w1\<lparr>w_db := w_db w\<rparr>)
     | (Inr x, w1) \<Rightarrow> andThen (onErr fc (commit_tx (w_db w))) (\<lambda>_. ret x) w1)"
    unfolding via_def
  proof
    fix w
    obtain r w1 where b: "body w = (r, w1)" by (cases "body w")
    have 1: "R w w1" using assms b by (rule viaD)
    have 2: "R w1 (snd (andThen (onErr fc (commit_tx (w_db w))) (\<lambda>_. ret x) w1))" for x
    proof -
      have "via R (andThen (onErr fc (commit_tx (w_db w))) (\<lambda>_. ret x))"
        by (intro via_andThen via_onErr via_commit_tx via_basic)
      then show ?thesis by (simp add: via_def)
    qed
    show "R w (snd (case body w of
       (Inl e, w1) \<Rightarrow> (Inl e, w1\<lparr>w_db := w_db w\<rparr>)
     | (Inr x, w1) \<Rightarrow> andThen (onErr fc (commit_tx (w_db w))) (\<lambda>_. ret x) w1))"
      by (cases r) (simp_all add: b R_trans [OF 1 R_db] R_trans [OF 1 2])
  qed
  then show ?thesis
    unfolding transaction_def by (intro via_andThen via_onErr via_begin_tx)
qed

lemmas via_intros = via_basic via_attempt via_andThen via_if via_onErr via_orElse via_catchErr via_query via_exec
  via_exec_returning  via_insert_returning via_insert_row via_transaction

end

text \<open>
  Every action only advances sequences and leaves the clocks alone; the actions that send
  no notification and no request leave the hub and the network alone as well.
\<close>

definition framed_rel :: "world \<Rightarrow> world \<Rightarrow> bool" where
  "framed_rel w w' \<longleftrightarrow> w_seq w \<le> w_seq w' \<and> w_now w' = w_now w \<and> w_nano w' = w_nano w"

definition silent_rel :: "world \<Rightarrow> world \<Rightarrow> bool" where
  "silent_rel w w' \<longleftrightarrow>
     w_hub w' = w_hub w \<and> w_sent w' = w_sent w \<and> w_replies w' = w_replies w"

interpretation framed: frame_relation framed_rel
  by unfold_locales (auto simp: framed_rel_def le_fun_def intro: order_trans)

interpretation silent: frame_relation silent_rel
  by unfold_locales (auto simp: silent_rel_def)

named_theorems frame_intros \<open>framed and silent actions, by construction\<close>

lemma framed_notifyAct: "via framed_rel (notifyAct t p)"
  by (simp add: via_def framed_rel_def notifyAct_def)

lemmas [frame_intros] = framed.via_intros silent.via_intros framed_notifyAct

lemma framed_seq: "via framed_rel a \<Longrightarrow> a w = (r, w') \<Longrightarrow> w_seq w \<le> w_seq w'"
  by (drule viaD) (auto simp: framed_rel_def)

lemma silent_hub: "via silent_rel a \<Longrightarrow> a w = (r, w') \<Longrightarrow> w_hub w' = w_hub w"
  by (drule viaD) (auto simp: silent_rel_def)

lemma silent_sent: "via silent_rel a \<Longrightarrow> a w = (r, w') \<Longrightarrow> w_sent w' = w_sent w"
  by (drule viaD) (auto simp: silent_rel_def)

section \<open>Reads\<close>

text \<open>
  An action that only reads leaves tables, sequences, clocks and hub alone. It either ends
  the action it starts, with nothing changed, or hands over to the rest.
\<close>

definition quiet_rel :: "world \<Rightarrow> world \<Rightarrow> bool" where
  "quiet_rel w w' \<longleftrightarrow>
     w_db w' = w_db w \<and> w_seq w' = w_seq w \<and> w_now w' = w_now w \<and> w_nano w' = w_nano w \<and>
     w_hub w' = w_hub w"

named_theorems quiet_intros \<open>actions that only read\<close>

lemma quiet_rel_refl: "quiet_rel w w"
  by (simp add: quiet_rel_def)

lemma quiet_rel_trans: "quiet_rel w w1 \<Longrightarrow> quiet_rel w1 w2 \<Longrightarrow> quiet_rel w w2"
  by (simp add: quiet_rel_def)

lemma quiet_basic [quiet_intros]:
  "via quiet_rel (query q)" "via quiet_rel getNano" "via quiet_rel (ret x)" "via quiet_rel (fail e)"
  "via quiet_rel (lift_res y)"
  by (auto simp: lift_res_def via_def quiet_rel_def query_def roundtrip_def getNano_def ret_def fail_def
      split: fault.splits sum.splits)

lemma quiet_wrapped [quiet_intros]:
  "via quiet_rel m \<Longrightarrow> via quiet_rel (onErr g m)" "via quiet_rel m \<Longrightarrow> via quiet_rel (orElse z m)"
  "via quiet_rel m \<Longrightarrow> via quiet_rel (catchErr t z m)"
  by (simp_all add: via_def)

lemma quiet_andThen [quiet_intros]:
  assumes "via quiet_rel m" and "\<And>x. via quiet_rel (f x)"
  shows "via quiet_rel (andThen m f)"
  unfolding via_def
proof
  fix w
  obtain r w1 where m: "m w = (r, w1)" by (cases "m w")
  have "quiet_rel w w1" using assms(1) m by (rule viaD)
  moreover have "quiet_rel w1 (snd (f x w1))" for x using assms(2) by (simp add: via_def)
  ultimately show "quiet_rel w (snd (andThen m f w))"
    by (cases r) (auto simp: andThen_def m intro: quiet_rel_trans)
qed

lemma quiet_if [quiet_intros]: "via quiet_rel a \<Longrightarrow> via quiet_rel b \<Longrightarrow> via quiet_rel (if c then a else b)"
  by simp

lemma quietD: "via quiet_rel a \<Longrightarrow> a w = (r, w') \<Longrightarrow> quiet_rel w w'"
  by (rule viaD)

lemma read_then:
  assumes "andThen m f w = (r, w')" and "via quiet_rel m"
  obtains (stop) e where "m w = (Inl e, w')" "r = Inl e" "quiet_rel w w'"
  | (go) x w1 where "m w = (Inr x, w1)" "quiet_rel w w1" "f x w1 = (r, w')"
proof (cases "m w")
  case (Pair q w1)
  with assms(2) have "quiet_rel w w1" by (rule quietD)
  with Pair assms(1) that show thesis by (cases q) (auto simp: andThen_def)
qed

section \<open>The contract of a table invariant\<close>

locale table_invariant =
  fixes I :: table_inv
  assumes seq_mono: "I s d \<Longrightarrow> s \<le> s' \<Longrightarrow> I s' d"
begin

lemma holds_mono: "holds I w \<Longrightarrow> w_seq w \<le> w_seq w' \<Longrightarrow> w_db w' = w_db w \<Longrightarrow> holds I w'"
  by (auto simp: holds_def intro: seq_mono)

lemma keeps_basic:
  shows "keeps I (ret x)" and "keeps I (fail e)" and "keeps I (notifyAct t p)"
    and "keeps I getNano" and "keeps I (lift_res y)"
  by (simp_all add: keeps_def holds_def ret_def fail_def notifyAct_def getNano_def lift_res_def
      split: sum.splits)

lemma keeps_andThen:
  assumes "keeps I m" and "\<And>x. keeps I (f x)"
  shows "keeps I (andThen m f)"
  unfolding keeps_def
proof (intro allI impI)
  fix w
  assume w: "holds I w"
  obtain r w1 where m: "m w = (r, w1)" by (cases "m w")
  have w1: "holds I w1" using assms(1) m w by (rule keepsD)
  with assms(2) show "holds I (snd (andThen m f w))"
    by (cases r) (auto simp: andThen_def m keeps_def)
qed

lemma keeps_attempt:
  assumes "keeps I m" and "\<And>e. keeps I (h e)" and "\<And>x. keeps I (k x)"
  shows "keeps I (attempt m h k)"
  unfolding keeps_def
proof (intro allI impI)
  fix w
  assume w: "holds I w"
  obtain r w1 where m: "m w = (r, w1)" by (cases "m w")
  have w1: "holds I w1" using assms(1) m w by (rule keepsD)
  with assms(2,3) show "holds I (snd (attempt m h k w))"
    by (cases r) (auto simp: attempt_def m keeps_def)
qed

lemma keeps_if: "keeps I a \<Longrightarrow> keeps I b \<Longrightarrow> keeps I (if c then a else b)"
  by simp

lemma keeps_onErr: "keeps I m \<Longrightarrow> keeps I (onErr g m)"
  by (simp add: keeps_def)

lemma keeps_orElse: "keeps I m \<Longrightarrow> keeps I (orElse z m)"
  by (simp add: keeps_def)

lemma keeps_catchErr: "keeps I m \<Longrightarrow> keeps I (catchErr t z m)"
  by (simp add: keeps_def)

lemma keeps_query: "keeps I (query q)"
  by (auto simp: keeps_def holds_def query_def roundtrip_def split: fault.splits)

lemma keeps_exec:
  assumes "\<And>n s d d'. u n d = Inr d' \<Longrightarrow> I s d \<Longrightarrow> I s d'"
  shows "keeps I (exec u)"
  using assms
  by (auto simp: keeps_def holds_def exec_def roundtrip_def split: fault.splits sum.splits)

lemma keeps_exec_returning:
  assumes "\<And>n s d x d'. u n d = Inr (x, d') \<Longrightarrow> I s d \<Longrightarrow> I s d'"
  shows "keeps I (exec_returning u)"
  using assms
  by (auto simp: keeps_def holds_def exec_returning_def roundtrip_def
      split: fault.splits sum.splits)

lemma keeps_insert_returning:
  assumes "\<And>n s d d'. mk (s t + 1) n d = Inr d' \<Longrightarrow> I s d \<Longrightarrow> I (s(t := s t + 1)) d'"
  shows "keeps I (insert_returning t mk)"
proof -
  have "I (s(t := s t + 1)) d" if "I s d" for s d
    using that by (rule seq_mono) (simp add: le_fun_def)
  with assms show ?thesis
    by (auto simp: keeps_def holds_def insert_returning_def roundtrip_def Let_def
        split: fault.splits sum.splits)
qed

lemma holds_insert_returning:
  assumes "holds I w" and "insert_returning t mk w = (r, w')"
    and "\<And>d'. mk (w_seq w t + 1) (w_now w) (w_db w) = Inr d' \<Longrightarrow>
      I ((w_seq w)(t := w_seq w t + 1)) d'"
  shows "holds I w'"
proof -
  have "I ((w_seq w)(t := w_seq w t + 1)) (w_db w)"
    using assms(1) [unfolded holds_def] by (rule seq_mono) (simp add: le_fun_def)
  with assms show ?thesis
    by (auto simp: holds_def insert_returning_def roundtrip_def Let_def
        split: fault.splits sum.splits)
qed

lemma keeps_insert_row:
  assumes "\<And>n s d d'. mk (s t + 1) n d = Inr d' \<Longrightarrow> I s d \<Longrightarrow> I (s(t := s t + 1)) d'"
  shows "keeps I (insert_row t mk)"
  unfolding insert_row_def
  by (intro keeps_andThen keeps_insert_returning keeps_basic) (rule assms)

text \<open>
  A transaction keeps the invariant when its whole body does, whatever the tables look
  like in between: a rollback restores the tables and only the sequences have moved.
\<close>

lemma keeps_transaction:
  assumes "via framed_rel body"
    and "\<And>w x w'. holds I w \<Longrightarrow> body w = (Inr x, w') \<Longrightarrow> holds I w'"
  shows "keeps I (transaction fb fc body)"
  unfolding keeps_def
proof (intro allI impI)
  fix w
  assume w: "holds I w"
  obtain r w' where t: "transaction fb fc body w = (r, w')"
    by (cases "transaction fb fc body w")
  have pw: "holds I (pop w)" using w by (simp add: holds_def)
  have "w_seq w \<le> w_seq w'"
    using framed.via_transaction [OF assms(1)] t by (rule framed_seq)
  have "holds I w'"
    using t
  proof (cases rule: transaction_cases)
    case (committed x w1)
    with assms(2) [OF pw] show ?thesis by (simp add: holds_def)
  next
    case (rolled_back e)
    with w \<open>w_seq w \<le> w_seq w'\<close> show ?thesis by (auto intro: holds_mono)
  next
    case (lost x w1)
    with assms(2) [OF pw] show ?thesis by (simp add: holds_def)
  qed
  with t show "holds I (snd (transaction fb fc body w))" by simp
qed

lemma keeps_transaction_step: "via framed_rel body \<Longrightarrow> keeps I body \<Longrightarrow> keeps I (transaction fb fc body)"
  by (rule keeps_transaction) (auto dest: keepsD)

lemmas keeps_intros = keeps_basic keeps_attempt keeps_andThen keeps_if keeps_onErr keeps_orElse keeps_catchErr keeps_query

end

end
