(* ===== verification/WalletRepo.thy ===== *)
theory WalletRepo
  imports StoreInv
begin

text \<open>
  Wallets and their ledger: \<open>internal/repository/wallet_repository.go\<close>, the
  \<open>WalletTxRepository\<close> of \<open>internal/repository/order_repository.go\<close>,
  \<open>internal/wallet/service.go\<close> and \<open>internal/payment/wallet_payment.go\<close>. The main
  results: every wallet's balance is the sum of its ledger entries, and a debit inside an
  order transaction never overdraws.
\<close>

section \<open>Statements\<close>

text \<open>
  \<open>INSERT INTO wallets(user_id,balance) VALUES($1,0) ON CONFLICT DO NOTHING\<close>: the only
  unique constraint is \<open>UNIQUE(user_id, vendor_id)\<close>, and two rows whose \<open>vendor_id\<close> is
  NULL never conflict in it.
\<close>

definition wallet_conflict :: "int \<Rightarrow> int option \<Rightarrow> wallet_row \<Rightarrow> bool" where
  "wallet_conflict u v r \<longleftrightarrow>
     wa_user_id r = u \<and>
     (case (v, wa_vendor_id r) of (Some a, Some b) \<Rightarrow> a = b | _ \<Rightarrow> False)"

definition sql_insert_wallet :: "int \<Rightarrow> int \<Rightarrow> int \<Rightarrow> db \<Rightarrow> err + db" where
  "sql_insert_wallet userID i now d =
     (if list_ex (wallet_conflict userID None) (wallets d) then Inr d
      else if \<not> has_user d userID then Inl (ErrForeignKey ''wallets_user_id_fkey'')
      else Inr (d\<lparr>wallets := wallets d @
        [\<lparr>wa_id = i, wa_user_id = userID, wa_vendor_id = None, wa_balance = 0,
          wa_updated_at = now, wa_deleted_at = None\<rparr>]\<rparr>))"

definition sql_wallet_sub :: "int \<Rightarrow> int \<Rightarrow> int \<Rightarrow> db \<Rightarrow> err + db" where
  "sql_wallet_sub amount walletID now d =
     (if list_all (\<lambda>r. wa_id r = walletID \<longrightarrow> fits64 (wa_balance r - amount)) (wallets d)
      then Inr (d\<lparr>wallets := update_where (\<lambda>r. wa_id r = walletID)
        (\<lambda>r. r\<lparr>wa_balance := wa_balance r - amount, wa_updated_at := now\<rparr>) (wallets d)\<rparr>)
      else Inl ErrRange)"

definition sql_wallet_add :: "int \<Rightarrow> int \<Rightarrow> int \<Rightarrow> db \<Rightarrow> err + db" where
  "sql_wallet_add amount walletID now d =
     (if list_all (\<lambda>r. wa_id r = walletID \<longrightarrow> fits64 (wa_balance r + amount)) (wallets d)
      then Inr (d\<lparr>wallets := update_where (\<lambda>r. wa_id r = walletID)
        (\<lambda>r. r\<lparr>wa_balance := wa_balance r + amount, wa_updated_at := now\<rparr>) (wallets d)\<rparr>)
      else Inl ErrRange)"

definition sql_insert_wtx ::
  "int \<Rightarrow> int \<Rightarrow> int \<Rightarrow> string \<Rightarrow> int \<Rightarrow> int \<Rightarrow> db \<Rightarrow> err + db" where
  "sql_insert_wtx walletID userID amount typ i now d =
     (if \<not> has_wallet d walletID then Inl (ErrForeignKey ''wallet_transactions_wallet_id_fkey'')
      else if \<not> has_user d userID then Inl (ErrForeignKey ''wallet_transactions_user_id_fkey'')
      else Inr (d\<lparr>wallet_txs := wallet_txs d @
        [\<lparr>wt_id = i, wt_wallet_id = walletID, wt_user_id = userID, wt_amount = amount,
          wt_type = typ, wt_created_at = now, wt_deleted_at = None\<rparr>]\<rparr>))"

lemmas [sql_defs] = sql_insert_wallet_def sql_wallet_sub_def sql_wallet_add_def
  sql_insert_wtx_def

section \<open>Repository operations\<close>

definition ensure_for_user :: "int \<Rightarrow> unit act" where
  "ensure_for_user userID = insert_row TWallets (sql_insert_wallet userID)"

definition wallet_balance :: "int \<Rightarrow> int act" where
  "wallet_balance userID =
     query (\<lambda>d. map_sum id wa_balance
       (select_first (\<lambda>r. wa_user_id r = userID \<and> wa_deleted_at r = None) (wallets d)))"

definition apply_body :: "int \<Rightarrow> int \<Rightarrow> string \<Rightarrow> unit act" where
  "apply_body userID amount typ =
     andThen (query (\<lambda>d. select_first (\<lambda>r. wa_user_id r = userID) (wallets d))) (\<lambda>r.
     andThen (exec (sql_wallet_add amount (wa_id r))) (\<lambda>_.
     insert_row TWalletTxs (sql_insert_wtx (wa_id r) userID amount typ)))"

definition apply_transaction :: "int \<Rightarrow> int \<Rightarrow> string \<Rightarrow> unit act" where
  "apply_transaction userID amount typ = transaction id id (apply_body userID amount typ)"

definition list_transactions :: "int \<Rightarrow> nat \<Rightarrow> wtx_row list act" where
  "list_transactions userID limit =
     query (\<lambda>d. Inr (take limit (rev (order_by wt_id
       (filter (\<lambda>t. wt_user_id t = userID \<and> wt_deleted_at t = None) (wallet_txs d))))))"

text \<open>
  \<open>WalletTxRepository.DeductTx\<close> runs inside the caller's transaction. The amount is
  negated by Go for the ledger entry and subtracted by PostgreSQL from the balance.
\<close>

definition deduct_tx :: "int \<Rightarrow> int \<Rightarrow> unit act" where
  "deduct_tx userID amount =
     andThen (query (\<lambda>d. select_first
       (\<lambda>r. wa_user_id r = userID \<and> wa_deleted_at r = None) (wallets d))) (\<lambda>r.
     if wa_balance r < amount then fail (ErrNew ''insufficient wallet balance'')
     else andThen (exec (sql_wallet_sub amount (wa_id r))) (\<lambda>_.
       insert_row TWalletTxs
         (sql_insert_wtx (wa_id r) userID (wrap64 (- amount)) ''order_debit'')))"

text \<open>\<open>wallet.Service.Balance\<close> and \<open>payment.Service.Deduct\<close> (over any wallet repository).\<close>

definition wallet_service_balance :: "int \<Rightarrow> int act" where
  "wallet_service_balance userID = wallet_balance userID"

definition payment_deduct ::
  "(int \<Rightarrow> int \<Rightarrow> string \<Rightarrow> unit act) \<Rightarrow> int \<Rightarrow> int \<Rightarrow> unit act" where
  "payment_deduct applyTransaction userID amount =
     applyTransaction userID (wrap64 (- amount)) ''order_debit''"

lemma wallet_frames [frame_intros]:
  "via framed_rel (ensure_for_user u)" "via silent_rel (ensure_for_user u)"
  "via framed_rel (wallet_balance u)" "via silent_rel (wallet_balance u)"
  "via framed_rel (apply_body u a t)" "via silent_rel (apply_body u a t)"
  "via framed_rel (apply_transaction u a t)" "via silent_rel (apply_transaction u a t)"
  "via framed_rel (deduct_tx u a)" "via silent_rel (deduct_tx u a)"
  unfolding ensure_for_user_def wallet_balance_def apply_transaction_def apply_body_def deduct_tx_def
  by (intro frame_intros)+

lemma wallet_quiet [quiet_intros]:
  "via quiet_rel (wallet_balance u)" "via quiet_rel (list_transactions u n)"
  "via quiet_rel (wallet_service_balance u)"
  unfolding wallet_service_balance_def wallet_balance_def list_transactions_def
  by (intro quiet_intros)+

section \<open>Effects on the tables\<close>

text \<open>
  Both ways of moving money post a change to one wallet and append one ledger entry.
\<close>

definition post_wallet ::
  "int \<Rightarrow> int \<Rightarrow> int \<Rightarrow> int \<Rightarrow> string \<Rightarrow> int \<Rightarrow> int \<Rightarrow> db \<Rightarrow> db" where
  "post_wallet walletID userID delta amount typ i now d =
     d\<lparr>wallets := update_where (\<lambda>r. wa_id r = walletID)
         (\<lambda>r. r\<lparr>wa_balance := wa_balance r + delta, wa_updated_at := now\<rparr>) (wallets d),
       wallet_txs := wallet_txs d @
         [\<lparr>wt_id = i, wt_wallet_id = walletID, wt_user_id = userID, wt_amount = amount,
           wt_type = typ, wt_created_at = now, wt_deleted_at = None\<rparr>]\<rparr>"

lemma post_wallet_simps [simp]:
  "users (post_wallet wid u dl a t i n d) = users d"
  "vendors (post_wallet wid u dl a t i n d) = vendors d"
  "service_catalog (post_wallet wid u dl a t i n d) = service_catalog d"
  "catalog_items (post_wallet wid u dl a t i n d) = catalog_items d"
  "orders (post_wallet wid u dl a t i n d) = orders d"
  "idem_keys (post_wallet wid u dl a t i n d) = idem_keys d"
  "jobs (post_wallet wid u dl a t i n d) = jobs d"
  "proxies (post_wallet wid u dl a t i n d) = proxies d"
  "panels (post_wallet wid u dl a t i n d) = panels d"
  "audit_logs (post_wallet wid u dl a t i n d) = audit_logs d"
  "map wa_id (wallets (post_wallet wid u dl a t i n d)) = map wa_id (wallets d)"
  "map wa_user_id (wallets (post_wallet wid u dl a t i n d)) = map wa_user_id (wallets d)"
  "map wa_deleted_at (wallets (post_wallet wid u dl a t i n d)) = map wa_deleted_at (wallets d)"
  by (simp_all add: post_wallet_def map_update_where)

abbreviation live_wallet :: "int \<Rightarrow> wallet_row \<Rightarrow> bool" where
  "live_wallet u r \<equiv> wa_user_id r = u \<and> wa_deleted_at r = None"

lemma deduct_tx_InrD:
  assumes "deduct_tx u a w = (Inr x, w')"
  obtains r where "select_first (live_wallet u) (wallets (w_db w)) = Inr r"
    and "a \<le> wa_balance r"
    and "fits64 (wa_balance r - a)"
    and "w_db w' = post_wallet (wa_id r) u (- a) (wrap64 (- a)) ''order_debit''
           (w_seq w TWalletTxs + 1) (w_now w) (w_db w)"
    and "w_seq w' = (w_seq w)(TWalletTxs := w_seq w TWalletTxs + 1)"
proof -
  from assms obtain r w1 where
    r: "select_first (live_wallet u) (wallets (w_db w)) = Inr r" and
    le: "a \<le> wa_balance r" and
    1: "exec (sql_wallet_sub a (wa_id r)) (pop w) = (Inr (), w1)" and
    2: "insert_row TWalletTxs (sql_insert_wtx (wa_id r) u (wrap64 (- a)) ''order_debit'') w1
          = (Inr x, w')"
    unfolding deduct_tx_def by (auto simp: act_simps split: if_splits)
  have "r \<in> set (wallets (w_db w))" using r by (auto dest: select_first_InrD)
  with r le 1 2 show thesis
    by (intro that [of r])
       (auto simp: act_simps sql_defs post_wallet_def list_all_iff split: if_splits)
qed

lemma apply_body_InrD:
  assumes "apply_body u a t w = (Inr x, w')"
  obtains r where "select_first (\<lambda>r. wa_user_id r = u) (wallets (w_db w)) = Inr r"
    and "fits64 (wa_balance r + a)"
    and "w_db w' = post_wallet (wa_id r) u a a t (w_seq w TWalletTxs + 1) (w_now w) (w_db w)"
    and "w_seq w' = (w_seq w)(TWalletTxs := w_seq w TWalletTxs + 1)"
proof -
  from assms obtain r w1 where
    r: "select_first (\<lambda>r. wa_user_id r = u) (wallets (w_db w)) = Inr r" and
    1: "exec (sql_wallet_add a (wa_id r)) (pop w) = (Inr (), w1)" and
    2: "insert_row TWalletTxs (sql_insert_wtx (wa_id r) u a t) w1 = (Inr x, w')"
    unfolding apply_body_def by (auto simp: act_simps)
  have "r \<in> set (wallets (w_db w))" using r by (auto dest: select_first_InrD)
  with r 1 2 show thesis
    by (intro that [of r])
       (auto simp: act_simps sql_defs post_wallet_def list_all_iff split: if_splits)
qed

text \<open>Where a user has no wallet or too little money, the debit fails and changes nothing.\<close>

lemma deduct_tx_insufficient:
  assumes "select_first (live_wallet u) (wallets (w_db w)) = Inr r" and "wa_balance r < a"
    and "next_fault w = FOk"
  shows "deduct_tx u a w = (Inl (ErrNew ''insufficient wallet balance''), pop w)"
  using assms by (simp add: deduct_tx_def andThen_def query_def roundtrip_def fail_def)

section \<open>The ledger invariant\<close>

definition ledger_sum :: "db \<Rightarrow> int \<Rightarrow> int" where
  "ledger_sum d wid = sum_list (map wt_amount (filter (\<lambda>t. wt_wallet_id t = wid) (wallet_txs d)))"

text \<open>
  Go adds and negates in 64 bits, PostgreSQL refuses to leave 64 bits: the balance of a
  wallet is the 64-bit sum of its ledger entries.
\<close>

definition ledger_inv :: table_inv where
  "ledger_inv s d \<longleftrightarrow>
     ids_ok (map wa_id (wallets d)) (s TWallets) \<and>
     (\<forall>r\<in>set (wallets d). wa_balance r = wrap64 (ledger_sum d (wa_id r))) \<and>
     (\<forall>t\<in>set (wallet_txs d). wt_wallet_id t \<in> wa_id ` set (wallets d))"

interpretation ledger: table_invariant ledger_inv
  by unfold_locales (auto simp: ledger_inv_def le_fun_def intro: ids_ok_mono)

lemma ledger_inv_cong:
  "wallets d' = wallets d \<Longrightarrow> wallet_txs d' = wallet_txs d \<Longrightarrow> ledger_inv s d' = ledger_inv s d"
  by (simp add: ledger_inv_def ledger_sum_def)

lemma ledger_sum_post:
  "ledger_sum (post_wallet wid u dl a t i n d) k = ledger_sum d k + (if k = wid then a else 0)"
  by (simp add: ledger_sum_def post_wallet_def)

lemma ledger_inv_post:
  assumes "ledger_inv s d" and q: "q \<in> set (wallets d)" and "fits64 (wa_balance q + dl)"
    and "wrap64 a = wrap64 dl"
  shows "ledger_inv s (post_wallet (wa_id q) u dl a t i n d)"
proof -
  let ?d = "post_wallet (wa_id q) u dl a t i n d"
  have ids: "wa_id ` set (wallets ?d) = wa_id ` set (wallets d)"
    by (metis list.set_map post_wallet_simps(11))
  have same: "p = q" if "p \<in> set (wallets d)" "wa_id p = wa_id q" for p
    using assms(1) q that by (auto simp: ledger_inv_def dest!: ids_ok_distinct intro: distinct_map_eqD)
  have "wa_balance r = wrap64 (ledger_sum ?d (wa_id r))" if r: "r \<in> set (wallets ?d)" for r
  proof -
    from r obtain p where p: "p \<in> set (wallets d)" and
      r: "r = (if wa_id p = wa_id q then p\<lparr>wa_balance := wa_balance p + dl, wa_updated_at := n\<rparr> else p)"
      by (auto simp: post_wallet_def set_update_where)
    have bal: "wa_balance p = wrap64 (ledger_sum d (wa_id p))"
      using assms(1) p by (simp add: ledger_inv_def)
    show ?thesis
    proof (cases "wa_id p = wa_id q")
      case True
      then have "wa_balance p + dl = wrap64 (wa_balance p + dl)"
        using same [OF p] assms(3) by (simp add: wrap64_id)
      also have "\<dots> = wrap64 (ledger_sum d (wa_id p) + a)"
        unfolding bal wrap64_add_left by (rule wrap64_add_cong) (simp add: assms(4))
      finally show ?thesis using True by (simp add: r ledger_sum_post)
    next
      case False
      with bal show ?thesis by (simp add: r ledger_sum_post)
    qed
  qed
  moreover have "\<forall>x\<in>set (wallet_txs ?d). wt_wallet_id x \<in> wa_id ` set (wallets ?d)"
    unfolding ids using assms(1) q by (auto simp: post_wallet_def ledger_inv_def)
  ultimately show ?thesis
    using assms(1) by (simp add: ledger_inv_def)
qed

lemma ledger_inv_new_wallet:
  assumes "ledger_inv s d" and "sql_insert_wallet u (s TWallets + 1) n d = Inr d'"
  shows "ledger_inv (s(TWallets := s TWallets + 1)) d'"
proof (cases "d' = d")
  case True
  with assms(1) show ?thesis
    by (auto simp: ledger_inv_def intro: ids_ok_mono)
next
  case False
  let ?i = "s TWallets + 1"
  have fresh: "?i \<notin> set (map wa_id (wallets d))"
    using assms(1) by (intro ids_ok_fresh) (simp add: ledger_inv_def)
  then have "\<forall>t\<in>set (wallet_txs d). wt_wallet_id t \<noteq> ?i"
    using assms(1) by (force simp: ledger_inv_def)
  then have "filter (\<lambda>t. wt_wallet_id t = ?i) (wallet_txs d) = []"
    by (simp add: filter_empty_conv)
  then have z: "ledger_sum d ?i = 0" by (simp add: ledger_sum_def)
  from False assms(2) have "d' = d\<lparr>wallets := wallets d @
        [\<lparr>wa_id = ?i, wa_user_id = u, wa_vendor_id = None, wa_balance = 0,
          wa_updated_at = n, wa_deleted_at = None\<rparr>]\<rparr>"
    by (auto simp: sql_insert_wallet_def split: if_splits)
  with assms(1) z show ?thesis
    by (auto simp: ledger_inv_def ledger_sum_def wrap64_def intro: ids_ok_snoc)
qed

lemma ledger_ensure: "keeps ledger_inv (ensure_for_user u)"
  unfolding ensure_for_user_def
  by (rule ledger.keeps_insert_row) (rule ledger_inv_new_wallet)

lemma ledger_apply: "keeps ledger_inv (apply_transaction u a t)"
  unfolding apply_transaction_def
proof (rule ledger.keeps_transaction)
  fix w x w'
  assume h: "holds ledger_inv w" and b: "apply_body u a t w = (Inr x, w')"
  from b show "holds ledger_inv w'"
  proof (cases rule: apply_body_InrD)
    case (1 r)
    then have "r \<in> set (wallets (w_db w))" by (auto dest: select_first_InrD)
    with h 1(2,3) have "ledger_inv (w_seq w) (w_db w')"
      by (simp add: holds_def ledger_inv_post)
    then show ?thesis
      unfolding holds_def by (rule ledger.seq_mono) (simp add: 1(4) le_fun_def)
  qed
qed (intro wallet_frames)

section \<open>One wallet per user\<close>

text \<open>
  No constraint of the schema forbids a second wallet of the same user (the unique key has
  a NULL column), so that each user has at most one is an invariant of the program, kept
  because only \<open>Register\<close> creates wallets, for a fresh user.
\<close>

definition one_wallet :: "db \<Rightarrow> bool" where
  "one_wallet d \<longleftrightarrow>
     distinct (map wa_id (wallets d)) \<and> distinct (map wa_user_id (wallets d)) \<and>
     set (map wa_deleted_at (wallets d)) \<subseteq> {None}"

definition wallet_view :: "db \<Rightarrow> int \<Rightarrow> int option" where
  "wallet_view d u =
     (case select_first (live_wallet u) (wallets d) of
        Inl e \<Rightarrow> None | Inr r \<Rightarrow> Some (wa_balance r))"

lemma one_wallet_post [simp]:
  "one_wallet (post_wallet wid u dl a t i n d) = one_wallet d"
  by (simp only: one_wallet_def post_wallet_simps)

lemma one_wallet_select:
  assumes "one_wallet d" and "r \<in> set (wallets d)"
  shows "select_first (live_wallet (wa_user_id r)) (wallets d) = Inr r"
    and "select_first (\<lambda>s. wa_user_id s = wa_user_id r) (wallets d) = Inr r"
proof -
  have del: "wa_deleted_at s = None" if "s \<in> set (wallets d)" for s
    using assms(1) that by (auto simp: one_wallet_def)
  have eq: "s = r" if "s \<in> set (wallets d)" "wa_user_id s = wa_user_id r" for s
    using assms that by (auto simp: one_wallet_def intro: distinct_map_eqD)
  show "select_first (live_wallet (wa_user_id r)) (wallets d) = Inr r"
    by (rule select_first_unique) (use assms(2) del eq in auto)
  show "select_first (\<lambda>s. wa_user_id s = wa_user_id r) (wallets d) = Inr r"
    by (rule select_first_unique) (use assms(2) eq in auto)
qed

lemma wallet_view_Some_iff:
  assumes "one_wallet d"
  shows "wallet_view d u = Some b \<longleftrightarrow> (\<exists>r\<in>set (wallets d). wa_user_id r = u \<and> wa_balance r = b)"
proof
  assume "wallet_view d u = Some b"
  then show "\<exists>r\<in>set (wallets d). wa_user_id r = u \<and> wa_balance r = b"
    by (auto simp: wallet_view_def split: sum.splits dest!: select_first_InrD)
next
  assume "\<exists>r\<in>set (wallets d). wa_user_id r = u \<and> wa_balance r = b"
  then show "wallet_view d u = Some b"
    using one_wallet_select(1) [OF assms] by (auto simp: wallet_view_def)
qed

lemma wallet_view_post:
  assumes "one_wallet d" and r: "r \<in> set (wallets d)"
  shows "wallet_view (post_wallet (wa_id r) u dl a t i n d) =
     (wallet_view d)(wa_user_id r \<mapsto> wa_balance r + dl)"
proof
  fix v
  let ?d = "post_wallet (wa_id r) u dl a t i n d"
  let ?f = "\<lambda>s. if wa_id s = wa_id r
       then s\<lparr>wa_balance := wa_balance s + dl, wa_updated_at := n\<rparr> else s"
  have ok: "one_wallet ?d" using assms(1) by simp
  have ws: "set (wallets ?d) = ?f ` set (wallets d)"
    by (simp add: post_wallet_def set_update_where)
  have same: "s = r" if "s \<in> set (wallets d)" "wa_id s = wa_id r \<or> wa_user_id s = wa_user_id r" for s
    using assms that by (auto simp: one_wallet_def intro: distinct_map_eqD)
  let ?r = "r\<lparr>wa_balance := wa_balance r + dl, wa_updated_at := n\<rparr>"
  have ws': "set (wallets ?d) = insert ?r (set (wallets d) - {r})"
  proof -
    have "?f s = (if s = r then ?r else s)" if "s \<in> set (wallets d)" for s
      using same [OF that] by (cases "wa_id s = wa_id r") auto
    then have "?f ` set (wallets d) = (\<lambda>s. if s = r then ?r else s) ` set (wallets d)"
      by (intro image_cong) auto
    also have "\<dots> = insert ?r (set (wallets d) - {r})" using r by auto
    finally show ?thesis unfolding ws .
  qed
  show "wallet_view ?d v = ((wallet_view d)(wa_user_id r \<mapsto> wa_balance r + dl)) v"
  proof (cases "v = wa_user_id r")
    case True
    have "wallet_view ?d v = Some (wa_balance r + dl)"
      unfolding wallet_view_Some_iff [OF ok] ws' using True by simp
    with True show ?thesis by simp
  next
    case False
    have "wallet_view ?d v = Some b \<longleftrightarrow> wallet_view d v = Some b" for b
      unfolding wallet_view_Some_iff [OF ok] wallet_view_Some_iff [OF assms(1)] ws'
      using False by auto
    with False show ?thesis by (metis fun_upd_other option.exhaust)
  qed
qed

section \<open>The repository interface of the payment service\<close>

text \<open>
  \<open>payment.WalletRepo\<close>: \<open>view\<close> is the balance of each user's wallet. An application that
  reports an error may still have been committed (the answer was lost); it is never
  committed in part.
\<close>

locale wallet_repository =
  fixes applyTransaction :: "int \<Rightarrow> int \<Rightarrow> string \<Rightarrow> unit act"
    and balanceOf :: "int \<Rightarrow> int act"
    and view :: "db \<Rightarrow> int \<Rightarrow> int option"
    and ok :: "db \<Rightarrow> bool"
  assumes apply_done: "ok (w_db w) \<Longrightarrow> applyTransaction u a t w = (Inr x, w') \<Longrightarrow>
      \<exists>b. view (w_db w) u = Some b \<and> view (w_db w') = (view (w_db w))(u \<mapsto> b + a)"
    and apply_failed: "ok (w_db w) \<Longrightarrow> applyTransaction u a t w = (Inl e, w') \<Longrightarrow>
      view (w_db w') = view (w_db w) \<or>
      (\<exists>b. view (w_db w) u = Some b \<and> view (w_db w') = (view (w_db w))(u \<mapsto> b + a))"
    and apply_ok: "ok (w_db w) \<Longrightarrow> applyTransaction u a t w = (r, w') \<Longrightarrow> ok (w_db w')"
    and balance_reads: "ok (w_db w) \<Longrightarrow> balanceOf u w = (Inr b, w') \<Longrightarrow>
      view (w_db w) u = Some b \<and> w_db w' = w_db w"
begin

lemma deduct_done:
  assumes "ok (w_db w)" and "payment_deduct applyTransaction u a w = (Inr x, w')"
    and "fits64 a" and "a \<noteq> - (2 ^ 63)"
  shows "\<exists>b. view (w_db w) u = Some b \<and> view (w_db w') = (view (w_db w))(u \<mapsto> b - a)"
  using apply_done [OF assms(1) assms(2) [unfolded payment_deduct_def]]
  by (simp add: wrap64_uminus [OF assms(3,4)])

lemma deduct_then_balance:
  assumes "ok (w_db w)" and "payment_deduct applyTransaction u a w = (Inr x, w1)"
    and "balanceOf u w1 = (Inr c, w2)" and "balanceOf u w = (Inr b, w0)"
    and "fits64 a" and "a \<noteq> - (2 ^ 63)"
  shows "c = b - a"
proof -
  from deduct_done [OF assms(1,2,5,6)]
  obtain b' where b': "view (w_db w) u = Some b'" "view (w_db w1) u = Some (b' - a)"
    by auto
  have "ok (w_db w1)"
    using assms(1) assms(2) [unfolded payment_deduct_def] by (rule apply_ok)
  then have "view (w_db w1) u = Some c" using assms(3) by (auto dest: balance_reads)
  moreover have "view (w_db w) u = Some b" using assms(1,4) by (auto dest: balance_reads)
  ultimately show ?thesis using b' by simp
qed

text \<open>Deducting one amount never touches another user's wallet, reported or not.\<close>

lemma deduct_others:
  assumes "ok (w_db w)" and "payment_deduct applyTransaction u a w = (r, w')" and "v \<noteq> u"
  shows "view (w_db w') v = view (w_db w) v"
proof (cases r)
  case (Inl e)
  with assms show ?thesis
    by (auto simp: payment_deduct_def dest!: apply_failed)
next
  case (Inr x)
  with assms show ?thesis
    by (auto simp: payment_deduct_def dest!: apply_done)
qed

end

lemma apply_body_view:
  assumes "one_wallet (w_db w)" and "apply_body u a t w = (Inr x, w')"
  shows "one_wallet (w_db w') \<and> (\<exists>b. wallet_view (w_db w) u = Some b \<and>
     wallet_view (w_db w') = (wallet_view (w_db w))(u \<mapsto> b + a))"
  using assms(2)
proof (cases rule: apply_body_InrD)
  case (1 r)
  then have r: "r \<in> set (wallets (w_db w))" "wa_user_id r = u"
    by (auto dest: select_first_InrD)
  moreover have "wallet_view (w_db w) u = Some (wa_balance r)"
    using r assms(1) by (auto simp: wallet_view_Some_iff)
  ultimately show ?thesis
    using wallet_view_post [OF assms(1) r(1)] assms(1) by (simp add: 1(3))
qed

lemma deduct_tx_view:
  assumes "one_wallet (w_db w)" and "deduct_tx u a w = (Inr x, w')"
  shows "one_wallet (w_db w') \<and> (\<exists>b. wallet_view (w_db w) u = Some b \<and> a \<le> b \<and>
     wallet_view (w_db w') = (wallet_view (w_db w))(u \<mapsto> b - a))"
  using assms(2)
proof (cases rule: deduct_tx_InrD)
  case (1 r)
  then have r: "r \<in> set (wallets (w_db w))" "wa_user_id r = u"
    by (auto dest: select_first_InrD)
  moreover have "wallet_view (w_db w) u = Some (wa_balance r)"
    using r assms(1) by (auto simp: wallet_view_Some_iff)
  ultimately show ?thesis
    using wallet_view_post [OF assms(1) r(1)] assms(1) by (simp add: 1(2,4))
qed

interpretation sql_wallets: wallet_repository apply_transaction wallet_balance wallet_view one_wallet
proof unfold_locales
  fix w :: world and u a t x w'
  assume ok: "one_wallet (w_db w)"
  have body: "one_wallet (w_db w1) \<and> (\<exists>b. wallet_view (w_db w) u = Some b \<and>
     wallet_view (w_db w1) = (wallet_view (w_db w))(u \<mapsto> b + a))"
    if "apply_body u a t (pop w) = (Inr y, w1)" for y w1
    using apply_body_view [OF _ that] ok by simp
  show "\<exists>b. wallet_view (w_db w) u = Some b \<and>
      wallet_view (w_db w') = (wallet_view (w_db w))(u \<mapsto> b + a)"
    if "apply_transaction u a t w = (Inr x, w')"
    using that unfolding apply_transaction_def
    by (auto simp: act_simps dest: body)
  show "wallet_view (w_db w') = wallet_view (w_db w) \<or>
      (\<exists>b. wallet_view (w_db w) u = Some b \<and>
        wallet_view (w_db w') = (wallet_view (w_db w))(u \<mapsto> b + a))"
    if "apply_transaction u a t w = (Inl e, w')" for e
    using transaction_db [OF that [unfolded apply_transaction_def]] by (auto dest: body)
  show "one_wallet (w_db w')" if "apply_transaction u a t w = (r, w')" for r
    using transaction_db [OF that [unfolded apply_transaction_def]] ok by (auto dest: body)
next
  fix w :: world and u b w'
  show "wallet_view (w_db w) u = Some b \<and> w_db w' = w_db w"
    if "one_wallet (w_db w)" "wallet_balance u w = (Inr b, w')"
    using that
    by (cases "select_first (live_wallet u) (wallets (w_db w))")
       (auto simp: wallet_balance_def act_simps wallet_view_def)
qed

end
