(* ===== verification/CatalogRepo.thy ===== *)
theory CatalogRepo
  imports StoreInv
begin

text \<open>
  The catalogue: \<open>CatalogRepository\<close> of \<open>internal/repository/commerce_repository.go\<close> and
  the \<open>CatalogPriceRepository\<close> of \<open>internal/repository/order_repository.go\<close>.
\<close>

record CatalogItemInput =
  CI_VendorID :: int
  CI_Slug :: string
  CI_Title :: string
  CI_Description :: string
  CI_Protocol :: string
  CI_InboundID :: int
  CI_XUINodeID :: int
  CI_TrafficLimitGB :: int
  CI_DurationDays :: int
  CI_PriceToman :: int
  CI_IsActive :: bool
  CI_AutoProvision :: bool
  CI_RenewalEnabled :: bool
  CI_CountryCode :: string
  CI_StockStatus :: string

text \<open>\<open>ExpiresAt\<close> is the zero time, \<open>None\<close>: no statement sets it.\<close>

record CatalogPrice =
  CP_VendorID :: int
  CP_Price :: int
  CP_IsActive :: bool
  CP_ExpiresAt :: "int option"

definition sql_insert_catalog :: "CatalogItemInput \<Rightarrow> int \<Rightarrow> int \<Rightarrow> db \<Rightarrow> err + db" where
  "sql_insert_catalog item i now d =
     (if list_ex (\<lambda>r. c_vendor_id r = CI_VendorID item \<and> c_slug r = CI_Slug item)
           (catalog_items d)
      then Inl (ErrUnique ''catalog_items_vendor_id_slug_key'')
      else if \<not> has_vendor d (CI_VendorID item)
      then Inl (ErrForeignKey ''catalog_items_vendor_id_fkey'')
      else Inr (d\<lparr>catalog_items := catalog_items d @
        [\<lparr>c_id = i, c_vendor_id = CI_VendorID item, c_slug = CI_Slug item,
          c_title = CI_Title item, c_description = CI_Description item,
          c_protocol = CI_Protocol item, c_inbound_id = CI_InboundID item,
          c_xui_node_id = CI_XUINodeID item, c_traffic_limit_gb = CI_TrafficLimitGB item,
          c_duration_days = CI_DurationDays item, c_price_toman = CI_PriceToman item,
          c_is_active = CI_IsActive item, c_auto_provision = CI_AutoProvision item,
          c_renewal_enabled = CI_RenewalEnabled item, c_country_code = CI_CountryCode item,
          c_stock_status = CI_StockStatus item, c_deleted_at = None\<rparr>]\<rparr>))"

text \<open>
  The two \<open>INT\<close> columns take 32 bits: the driver refuses a larger Go \<open>int\<close> before it
  sends the statement.
\<close>

definition catalog_create :: "CatalogItemInput \<Rightarrow> unit act" where
  "catalog_create item =
     (if fits32 (CI_TrafficLimitGB item) \<and> fits32 (CI_DurationDays item)
      then insert_row TCatalogItems (sql_insert_catalog item)
      else fail ErrRange)"

definition item_of_row :: "catalog_row \<Rightarrow> CatalogItemInput" where
  "item_of_row r =
     \<lparr>CI_VendorID = c_vendor_id r, CI_Slug = c_slug r, CI_Title = c_title r,
      CI_Description = c_description r, CI_Protocol = c_protocol r,
      CI_InboundID = c_inbound_id r, CI_XUINodeID = c_xui_node_id r,
      CI_TrafficLimitGB = c_traffic_limit_gb r, CI_DurationDays = c_duration_days r,
      CI_PriceToman = c_price_toman r, CI_IsActive = c_is_active r,
      CI_AutoProvision = c_auto_provision r, CI_RenewalEnabled = c_renewal_enabled r,
      CI_CountryCode = c_country_code r, CI_StockStatus = c_stock_status r\<rparr>"

definition catalog_get_by_id :: "int \<Rightarrow> CatalogItemInput act" where
  "catalog_get_by_id i =
     query (\<lambda>d. map_sum id item_of_row
       (select_first (\<lambda>r. c_id r = i \<and> c_deleted_at r = None) (catalog_items d)))"

definition price_of_row :: "catalog_row \<Rightarrow> CatalogPrice" where
  "price_of_row r =
     \<lparr>CP_VendorID = c_vendor_id r, CP_Price = c_price_toman r, CP_IsActive = c_is_active r,
      CP_ExpiresAt = None\<rparr>"

abbreviation live_item :: "int \<Rightarrow> int \<Rightarrow> catalog_row \<Rightarrow> bool" where
  "live_item vendorID catalogID r \<equiv>
     c_id r = catalogID \<and> c_vendor_id r = vendorID \<and> c_deleted_at r = None"

definition catalog_price_get :: "int \<Rightarrow> int \<Rightarrow> CatalogPrice act" where
  "catalog_price_get vendorID catalogID =
     query (\<lambda>d. map_sum id price_of_row
       (select_first (live_item vendorID catalogID) (catalog_items d)))"

lemmas [sql_defs] = sql_insert_catalog_def

lemma catalog_frames [frame_intros]:
  "via framed_rel (catalog_create item)" "via silent_rel (catalog_create item)"
  "via framed_rel (catalog_get_by_id i)" "via silent_rel (catalog_get_by_id i)"
  "via framed_rel (catalog_price_get v c)" "via silent_rel (catalog_price_get v c)"
  unfolding catalog_create_def catalog_get_by_id_def catalog_price_get_def
  by (intro frame_intros)+

lemma catalog_quiet [quiet_intros]:
  "via quiet_rel (catalog_get_by_id i)" "via quiet_rel (catalog_price_get v c)"
  unfolding catalog_get_by_id_def catalog_price_get_def
  by (intro quiet_intros)+

lemma map_sum_Inr_iff: "map_sum f g x = Inr z \<longleftrightarrow> (\<exists>y. x = Inr y \<and> z = g y)"
  by (cases x) auto

lemma catalog_price_get_Inr [act_simps]:
  "catalog_price_get v c w = (Inr p, w') \<longleftrightarrow>
     next_fault w = FOk \<and> w' = pop w \<and>
     (\<exists>r. select_first (live_item v c) (catalog_items (w_db w)) = Inr r \<and> p = price_of_row r)"
  by (auto simp: catalog_price_get_def act_simps map_sum_Inr_iff)

lemma catalog_price_get_sound:
  assumes "catalog_price_get v c w = (Inr p, w')"
  obtains r where "r \<in> set (catalog_items (w_db w))" and "c_id r = c" and "c_vendor_id r = v"
    and "p = price_of_row r" and "w_db w' = w_db w"
  using assms by (auto simp: act_simps dest!: select_first_InrD)

text \<open>Two items of one vendor never share a slug, and an item belongs to a vendor.\<close>

definition catalog_inv :: table_inv where
  "catalog_inv s d \<longleftrightarrow>
     ids_ok (map c_id (catalog_items d)) (s TCatalogItems) \<and>
     distinct (map (\<lambda>r. (c_vendor_id r, c_slug r)) (catalog_items d)) \<and>
     (\<forall>r\<in>set (catalog_items d). c_vendor_id r \<in> v_id ` set (vendors d) \<and>
        fits32 (c_traffic_limit_gb r) \<and> fits32 (c_duration_days r) \<and> c_deleted_at r = None)"

interpretation catalog: table_invariant catalog_inv
  by unfold_locales (auto simp: catalog_inv_def le_fun_def intro: ids_ok_mono)

lemma catalog_inv_cong:
  "catalog_items d' = catalog_items d \<Longrightarrow> set (map v_id (vendors d)) \<subseteq> set (map v_id (vendors d'))
    \<Longrightarrow> catalog_inv s d \<Longrightarrow> catalog_inv s d'"
  by (auto simp: catalog_inv_def)

lemma catalog_create_keeps: "keeps catalog_inv (catalog_create item)"
proof (cases "fits32 (CI_TrafficLimitGB item) \<and> fits32 (CI_DurationDays item)")
  case True
  have "keeps catalog_inv (insert_row TCatalogItems (sql_insert_catalog item))"
  proof (rule catalog.keeps_insert_row)
    fix n s d d'
    assume i: "sql_insert_catalog item (s TCatalogItems + 1) n d = Inr d'" and I: "catalog_inv s d"
    from I have "ids_ok (map c_id (catalog_items d) @ [s TCatalogItems + 1]) (s TCatalogItems + 1)"
      by (auto simp: catalog_inv_def intro: ids_ok_snoc)
    with i I True show "catalog_inv (s(TCatalogItems := s TCatalogItems + 1)) d'"
      by (fastforce simp: sql_insert_catalog_def catalog_inv_def list_ex_iff has_vendor_iff
          split: if_splits)
  qed
  with True show ?thesis by (simp add: catalog_create_def)
next
  case False
  then show ?thesis unfolding catalog_create_def by (simp only: if_False catalog.keeps_basic)
qed

end
