(* ===== verification/OrderRepo.thy ===== *)
theory OrderRepo
  imports StoreInv
begin

text \<open>
  Orders, idempotency keys and provisioning jobs:
  \<open>internal/repository/order_repository.go\<close> (its wallet and catalogue parts are in
  \<open>WalletRepo\<close> and \<open>CatalogRepo\<close>), with \<open>models.Order\<close> of
  \<open>internal/models/commerce.go\<close>.
\<close>

section \<open>Orders\<close>

record Order =
  O_ID :: int
  O_VendorID :: int
  O_UserID :: int
  O_CatalogID :: int
  O_ServiceID :: "int option"
  O_Amount :: int
  O_Status :: string
  O_LifecycleState :: string
  O_IdempotencyKey :: "string option"
  O_CreatedAt :: int

text \<open>
  \<open>INSERT INTO orders\<close>: the row refers to a vendor, a user and, by the migrations, a row
  of \<open>service_catalog\<close>, not of \<open>catalog_items\<close>.
\<close>

definition sql_insert_order :: "Order \<Rightarrow> int \<Rightarrow> int \<Rightarrow> db \<Rightarrow> err + db" where
  "sql_insert_order ord i now d =
     (if \<not> has_vendor d (O_VendorID ord) then Inl (ErrForeignKey ''orders_vendor_id_fkey'')
      else if \<not> has_user d (O_UserID ord) then Inl (ErrForeignKey ''orders_user_id_fkey'')
      else if \<not> has_service_catalog d (O_CatalogID ord)
      then Inl (ErrForeignKey ''orders_catalog_id_fkey'')
      else Inr (d\<lparr>orders := orders d @
        [\<lparr>o_id = i, o_vendor_id = O_VendorID ord, o_user_id = O_UserID ord,
          o_catalog_id = O_CatalogID ord, o_service_id = None, o_amount = O_Amount ord,
          o_status = O_Status ord, o_lifecycle_state = O_LifecycleState ord,
          o_idempotency_key = O_IdempotencyKey ord, o_created_at = now, o_updated_at = now,
          o_deleted_at = None\<rparr>]\<rparr>))"

definition orders_create :: "Order \<Rightarrow> int act" where
  "orders_create ord = insert_returning TOrders (sql_insert_order ord)"

definition orders_create_tx :: "Order \<Rightarrow> int act" where
  "orders_create_tx ord = insert_returning TOrders (sql_insert_order ord)"

definition sql_link_service :: "int \<Rightarrow> int \<Rightarrow> int \<Rightarrow> db \<Rightarrow> err + db" where
  "sql_link_service orderID serviceID now d =
     Inr (d\<lparr>orders := update_where (\<lambda>r. o_id r = orderID)
       (\<lambda>r. r\<lparr>o_service_id := Some serviceID, o_updated_at := now\<rparr>) (orders d)\<rparr>)"

definition link_service_tx :: "int \<Rightarrow> int \<Rightarrow> unit act" where
  "link_service_tx orderID serviceID = exec (sql_link_service orderID serviceID)"

definition sql_order_status :: "int \<Rightarrow> string \<Rightarrow> string \<Rightarrow> int \<Rightarrow> db \<Rightarrow> err + db" where
  "sql_order_status orderID status lifecycle now d =
     Inr (d\<lparr>orders := update_where (\<lambda>r. o_id r = orderID)
       (\<lambda>r. r\<lparr>o_status := status, o_lifecycle_state := lifecycle, o_updated_at := now\<rparr>)
       (orders d)\<rparr>)"

definition orders_update_status :: "int \<Rightarrow> string \<Rightarrow> string \<Rightarrow> unit act" where
  "orders_update_status orderID status lifecycle = exec (sql_order_status orderID status lifecycle)"

text \<open>
  \<open>ByID\<close> and \<open>ListByUser\<close> select eight columns: \<open>ServiceID\<close> and \<open>IdempotencyKey\<close> of
  the struct they return stay nil.
\<close>

definition order_of_row :: "order_row \<Rightarrow> Order" where
  "order_of_row r =
     \<lparr>O_ID = o_id r, O_VendorID = o_vendor_id r, O_UserID = o_user_id r,
      O_CatalogID = o_catalog_id r, O_ServiceID = None, O_Amount = o_amount r,
      O_Status = o_status r, O_LifecycleState = o_lifecycle_state r,
      O_IdempotencyKey = None, O_CreatedAt = o_created_at r\<rparr>"

abbreviation live_order :: "int \<Rightarrow> int \<Rightarrow> order_row \<Rightarrow> bool" where
  "live_order vendorID orderID r \<equiv>
     o_id r = orderID \<and> o_vendor_id r = vendorID \<and> o_deleted_at r = None"

definition orders_by_id :: "int \<Rightarrow> int \<Rightarrow> Order act" where
  "orders_by_id vendorID orderID =
     query (\<lambda>d. map_sum id order_of_row
       (select_first (live_order vendorID orderID) (orders d)))"

definition orders_list_by_user :: "int \<Rightarrow> nat \<Rightarrow> Order list act" where
  "orders_list_by_user userID limit =
     query (\<lambda>d. Inr (map order_of_row (take limit (rev (order_by o_id
       (filter (\<lambda>r. o_user_id r = userID \<and> o_deleted_at r = None) (orders d)))))))"

section \<open>Idempotency keys\<close>

abbreviation idem_match :: "int \<Rightarrow> int \<Rightarrow> string \<Rightarrow> idem_row \<Rightarrow> bool" where
  "idem_match v u k r \<equiv> k_vendor_id r = v \<and> k_user_id r = u \<and> k_key r = k"

text \<open>\<open>Resolve\<close>: no row and a NULL \<open>order_id\<close> both give 0 with no error.\<close>

definition idem_resolve :: "int \<Rightarrow> int \<Rightarrow> string \<Rightarrow> int act" where
  "idem_resolve vendorID userID key =
     andThen (catchErr ErrNoRows None (query (\<lambda>d. map_sum id k_order_id
       (select_first (idem_match vendorID userID key) (idem_keys d))))) (\<lambda>orderID.
     ret (case orderID of None \<Rightarrow> 0 | Some i \<Rightarrow> i))"

definition sql_insert_idem :: "int \<Rightarrow> int \<Rightarrow> string \<Rightarrow> int \<Rightarrow> int \<Rightarrow> db \<Rightarrow> err + db" where
  "sql_insert_idem vendorID userID key i now d =
     (if list_ex (idem_match vendorID userID key) (idem_keys d)
      then Inl (ErrUnique ''order_idempotency_keys_vendor_id_user_id_idempotency_key_key'')
      else if \<not> has_vendor d vendorID
      then Inl (ErrForeignKey ''order_idempotency_keys_vendor_id_fkey'')
      else if \<not> has_user d userID
      then Inl (ErrForeignKey ''order_idempotency_keys_user_id_fkey'')
      else Inr (d\<lparr>idem_keys := idem_keys d @
        [\<lparr>k_id = i, k_vendor_id = vendorID, k_user_id = userID, k_key = key,
          k_order_id = None, k_created_at = now\<rparr>]\<rparr>))"

definition idem_reserve_tx :: "int \<Rightarrow> int \<Rightarrow> string \<Rightarrow> unit act" where
  "idem_reserve_tx vendorID userID key = insert_row TIdemKeys (sql_insert_idem vendorID userID key)"

definition sql_link_idem :: "int \<Rightarrow> int \<Rightarrow> string \<Rightarrow> int \<Rightarrow> int \<Rightarrow> db \<Rightarrow> err + db" where
  "sql_link_idem vendorID userID key orderID now d =
     Inr (d\<lparr>idem_keys := update_where (idem_match vendorID userID key)
       (\<lambda>r. r\<lparr>k_order_id := Some orderID\<rparr>) (idem_keys d)\<rparr>)"

definition idem_link_order_tx :: "int \<Rightarrow> int \<Rightarrow> string \<Rightarrow> int \<Rightarrow> unit act" where
  "idem_link_order_tx vendorID userID key orderID = exec (sql_link_idem vendorID userID key orderID)"

section \<open>Provisioning jobs\<close>

definition sql_insert_job :: "int \<Rightarrow> int \<Rightarrow> int \<Rightarrow> int \<Rightarrow> db \<Rightarrow> err + db" where
  "sql_insert_job vendorID orderID i now d =
     (if \<not> has_vendor d vendorID then Inl (ErrForeignKey ''provisioning_jobs_vendor_id_fkey'')
      else if \<not> has_order d orderID then Inl (ErrForeignKey ''provisioning_jobs_order_id_fkey'')
      else Inr (d\<lparr>jobs := jobs d @
        [\<lparr>j_id = i, j_vendor_id = vendorID, j_order_id = orderID, j_status = ''pending'',
          j_retries = 0, j_last_error = None, j_dead_letter = False, j_updated_at = now,
          j_deleted_at = None\<rparr>]\<rparr>))"

definition jobs_enqueue_tx :: "int \<Rightarrow> int \<Rightarrow> unit act" where
  "jobs_enqueue_tx vendorID orderID = insert_row TJobs (sql_insert_job vendorID orderID)"

definition claimable :: "job_row \<Rightarrow> bool" where
  "claimable j \<longleftrightarrow> j_status j = ''pending'' \<and> \<not> j_dead_letter j \<and> j_deleted_at j = None"

definition sql_claim :: "int \<Rightarrow> db \<Rightarrow> err + (int \<times> int \<times> int) \<times> db" where
  "sql_claim now d =
     (case order_by j_id (filter claimable (jobs d)) of
        [] \<Rightarrow> Inl ErrNoRows
      | j # _ \<Rightarrow> Inr ((j_id j, j_order_id j, j_vendor_id j),
          d\<lparr>jobs := update_where (\<lambda>x. j_id x = j_id j)
            (\<lambda>x. x\<lparr>j_status := ''provisioning'', j_updated_at := now\<rparr>) (jobs d)\<rparr>))"

definition jobs_claim_next :: "(int \<times> int \<times> int) act" where
  "jobs_claim_next = exec_returning sql_claim"

definition sql_mark_done :: "int \<Rightarrow> int \<Rightarrow> db \<Rightarrow> err + db" where
  "sql_mark_done jobID now d =
     Inr (d\<lparr>jobs := update_where (\<lambda>x. j_id x = jobID)
       (\<lambda>x. x\<lparr>j_status := ''done'', j_updated_at := now\<rparr>) (jobs d)\<rparr>)"

definition jobs_mark_done :: "int \<Rightarrow> unit act" where
  "jobs_mark_done jobID = exec (sql_mark_done jobID)"

definition sql_mark_failed :: "int \<Rightarrow> err \<Rightarrow> bool \<Rightarrow> int \<Rightarrow> db \<Rightarrow> err + db" where
  "sql_mark_failed jobID lastErr dead now d =
     (if list_all (\<lambda>x. j_id x = jobID \<longrightarrow> fits32 (j_retries x + 1)) (jobs d)
      then Inr (d\<lparr>jobs := update_where (\<lambda>x. j_id x = jobID)
        (\<lambda>x. x\<lparr>j_status := ''failed'', j_retries := j_retries x + 1,
            j_last_error := Some lastErr, j_dead_letter := dead, j_updated_at := now\<rparr>)
        (jobs d)\<rparr>)
      else Inl ErrRange)"

definition jobs_mark_failed :: "int \<Rightarrow> err \<Rightarrow> bool \<Rightarrow> unit act" where
  "jobs_mark_failed jobID lastErr dead = exec (sql_mark_failed jobID lastErr dead)"

lemmas [sql_defs] = sql_insert_order_def sql_link_service_def sql_order_status_def
  sql_insert_idem_def sql_link_idem_def sql_insert_job_def sql_claim_def sql_mark_done_def
  sql_mark_failed_def

section \<open>Frames and inversion\<close>

lemma order_repo_frames [frame_intros]:
  "via framed_rel (orders_create ord)" "via silent_rel (orders_create ord)"
  "via framed_rel (orders_create_tx ord)" "via silent_rel (orders_create_tx ord)"
  "via framed_rel (link_service_tx i sid)" "via silent_rel (link_service_tx i sid)"
  "via framed_rel (orders_update_status i st l)" "via silent_rel (orders_update_status i st l)"
  "via framed_rel (orders_by_id v i)" "via silent_rel (orders_by_id v i)"
  "via framed_rel (orders_list_by_user u n)" "via silent_rel (orders_list_by_user u n)"
  "via framed_rel (idem_resolve v u k)" "via silent_rel (idem_resolve v u k)"
  "via framed_rel (idem_reserve_tx v u k)" "via silent_rel (idem_reserve_tx v u k)"
  "via framed_rel (idem_link_order_tx v u k i)" "via silent_rel (idem_link_order_tx v u k i)"
  "via framed_rel (jobs_enqueue_tx v i)" "via silent_rel (jobs_enqueue_tx v i)"
  "via framed_rel jobs_claim_next" "via silent_rel jobs_claim_next"
  "via framed_rel (jobs_mark_done i)" "via silent_rel (jobs_mark_done i)"
  "via framed_rel (jobs_mark_failed i e b)" "via silent_rel (jobs_mark_failed i e b)"
  unfolding orders_create_def orders_create_tx_def link_service_tx_def orders_update_status_def
    orders_by_id_def orders_list_by_user_def idem_resolve_def idem_reserve_tx_def
    idem_link_order_tx_def jobs_enqueue_tx_def jobs_claim_next_def jobs_mark_done_def
    jobs_mark_failed_def
  by (intro frame_intros)+

lemma order_repo_quiet [quiet_intros]:
  "via quiet_rel (orders_by_id v i)" "via quiet_rel (orders_list_by_user u n)"
  "via quiet_rel (idem_resolve v u k)"
  unfolding orders_by_id_def orders_list_by_user_def idem_resolve_def
  by (intro quiet_intros)+

end
