(* ===== verification/ProxyRepo.thy ===== *)
theory ProxyRepo
  imports StoreInv
begin

text \<open>
  Proxy services: the \<open>ProxyServiceRepository\<close> of
  \<open>internal/repository/proxy_repository.go\<close>. A Go time is an \<open>int\<close> of nanoseconds, a
  column of type \<open>TIMESTAMPTZ\<close> one of microseconds: writing rounds down, reading is exact.
\<close>

section \<open>Times\<close>

definition db_time :: "int \<Rightarrow> int" where
  "db_time t = t div 1000"

definition go_time :: "int \<Rightarrow> int" where
  "go_time t = t * 1000"

text \<open>The microseconds of \<open>(days || ' days')::interval\<close> in UTC, and PostgreSQL's range.\<close>

definition day_us :: int where
  "day_us = 86400000000"

definition fits_ts :: "int \<Rightarrow> bool" where
  "fits_ts x \<longleftrightarrow> - 210866803200000000 \<le> x \<and> x < 9224318016000000000"

lemma db_go_time [simp]: "db_time (go_time t) = t"
  by (simp add: db_time_def go_time_def)

lemma go_db_time: "go_time (db_time t) \<le> t \<and> t < go_time (db_time t) + 1000"
  by (simp add: db_time_def go_time_def) presburger

section \<open>Operations\<close>

record ProxyServiceRecord =
  PS_ID :: int
  PS_VendorID :: int
  PS_UserID :: int
  PS_OrderID :: "int option"
  PS_PanelID :: "int option"
  PS_UUID :: string
  PS_Protocol :: string
  PS_SubscriptionURL :: string
  PS_QRPayload :: string
  PS_ConfigPayload :: string
  PS_Status :: string
  PS_ExpiresAt :: "int option"
  PS_TrafficUsedGB :: int
  PS_TrafficLimitGB :: int
  PS_DurationDays :: int
  PS_CreatedAt :: int
  PS_UpdatedAt :: int

definition record_of_row :: "proxy_row \<Rightarrow> ProxyServiceRecord" where
  "record_of_row r =
     \<lparr>PS_ID = p_id r, PS_VendorID = p_vendor_id r, PS_UserID = p_user_id r,
      PS_OrderID = p_order_id r, PS_PanelID = p_panel_id r, PS_UUID = p_uuid r,
      PS_Protocol = p_protocol r, PS_SubscriptionURL = p_subscription_url r,
      PS_QRPayload = p_qr_payload r, PS_ConfigPayload = p_config_payload r,
      PS_Status = p_status r, PS_ExpiresAt = map_option go_time (p_expires_at r),
      PS_TrafficUsedGB = p_traffic_used_gb r, PS_TrafficLimitGB = p_traffic_limit_gb r,
      PS_DurationDays = p_duration_days r, PS_CreatedAt = go_time (p_created_at r),
      PS_UpdatedAt = go_time (p_updated_at r)\<rparr>"

text \<open>
  \<open>CREATE UNIQUE INDEX ... ON proxy_services(uuid) WHERE deleted_at IS NULL\<close>, and foreign
  keys to the vendor, the user and (unless NULL) the order.
\<close>

definition sql_insert_proxy :: "ProxyServiceRecord \<Rightarrow> int \<Rightarrow> int \<Rightarrow> db \<Rightarrow> err + db" where
  "sql_insert_proxy rc i now d =
     (if list_ex (\<lambda>r. p_uuid r = PS_UUID rc \<and> p_deleted_at r = None) (proxies d)
      then Inl (ErrUnique ''idx_proxy_services_uuid'')
      else if \<not> has_vendor d (PS_VendorID rc)
      then Inl (ErrForeignKey ''proxy_services_vendor_id_fkey'')
      else if \<not> has_user d (PS_UserID rc)
      then Inl (ErrForeignKey ''proxy_services_user_id_fkey'')
      else if (case PS_OrderID rc of None \<Rightarrow> False | Some oid \<Rightarrow> \<not> has_order d oid)
      then Inl (ErrForeignKey ''proxy_services_order_id_fkey'')
      else Inr (d\<lparr>proxies := proxies d @
        [\<lparr>p_id = i, p_vendor_id = PS_VendorID rc, p_user_id = PS_UserID rc,
          p_order_id = PS_OrderID rc, p_panel_id = PS_PanelID rc, p_uuid = PS_UUID rc,
          p_protocol = PS_Protocol rc, p_subscription_url = PS_SubscriptionURL rc,
          p_qr_payload = PS_QRPayload rc, p_config_payload = PS_ConfigPayload rc,
          p_status = PS_Status rc, p_expires_at = map_option db_time (PS_ExpiresAt rc),
          p_traffic_used_gb = 0, p_traffic_limit_gb = PS_TrafficLimitGB rc,
          p_duration_days = PS_DurationDays rc, p_created_at = now, p_updated_at = now,
          p_deleted_at = None\<rparr>]\<rparr>))"

definition proxy_create_tx :: "ProxyServiceRecord \<Rightarrow> int act" where
  "proxy_create_tx rc =
     (if fits32 (PS_TrafficLimitGB rc) \<and> fits32 (PS_DurationDays rc) \<and>
         (case PS_ExpiresAt rc of None \<Rightarrow> True | Some t \<Rightarrow> fits_ts (db_time t))
      then insert_returning TProxies (sql_insert_proxy rc)
      else fail ErrRange)"

definition select_proxy :: "(proxy_row \<Rightarrow> bool) \<Rightarrow> ProxyServiceRecord act" where
  "select_proxy p =
     query (\<lambda>d. map_sum id record_of_row
       (select_first (\<lambda>r. p r \<and> p_deleted_at r = None) (proxies d)))"

definition proxy_by_id :: "int \<Rightarrow> int \<Rightarrow> ProxyServiceRecord act" where
  "proxy_by_id vendorID i = select_proxy (\<lambda>r. p_id r = i \<and> p_vendor_id r = vendorID)"

definition proxy_by_id_for_user_tx :: "int \<Rightarrow> int \<Rightarrow> ProxyServiceRecord act" where
  "proxy_by_id_for_user_tx i userID = select_proxy (\<lambda>r. p_id r = i \<and> p_user_id r = userID)"

definition proxy_by_id_for_user :: "int \<Rightarrow> int \<Rightarrow> ProxyServiceRecord act" where
  "proxy_by_id_for_user i userID = select_proxy (\<lambda>r. p_id r = i \<and> p_user_id r = userID)"

definition proxy_by_uuid :: "int \<Rightarrow> string \<Rightarrow> ProxyServiceRecord act" where
  "proxy_by_uuid vendorID uuid = select_proxy (\<lambda>r. p_uuid r = uuid \<and> p_vendor_id r = vendorID)"

definition list_proxies :: "(proxy_row \<Rightarrow> bool) \<Rightarrow> ProxyServiceRecord list act" where
  "list_proxies p =
     query (\<lambda>d. Inr (map record_of_row (rev (order_by p_id
       (filter (\<lambda>r. p r \<and> p_deleted_at r = None) (proxies d))))))"

definition proxy_list_all_by_user :: "int \<Rightarrow> ProxyServiceRecord list act" where
  "proxy_list_all_by_user userID = list_proxies (\<lambda>r. p_user_id r = userID)"

definition proxy_list_by_user :: "int \<Rightarrow> int \<Rightarrow> ProxyServiceRecord list act" where
  "proxy_list_by_user vendorID userID =
     list_proxies (\<lambda>r. p_vendor_id r = vendorID \<and> p_user_id r = userID)"

definition extended_expiry :: "int \<Rightarrow> int \<Rightarrow> int option \<Rightarrow> int" where
  "extended_expiry now days expires =
     (case expires of
        None \<Rightarrow> now + days * day_us
      | Some t \<Rightarrow> if t < now then now + days * day_us else t + days * day_us)"

definition sql_extend_expiry :: "int \<Rightarrow> int \<Rightarrow> int \<Rightarrow> db \<Rightarrow> err + db" where
  "sql_extend_expiry i days now d =
     (if list_all (\<lambda>r. p_id r = i \<longrightarrow> fits_ts (extended_expiry now days (p_expires_at r))) (proxies d)
      then Inr (d\<lparr>proxies := update_where (\<lambda>r. p_id r = i)
        (\<lambda>r. r\<lparr>p_expires_at := Some (extended_expiry now days (p_expires_at r)),
            p_updated_at := now\<rparr>) (proxies d)\<rparr>)
      else Inl ErrRange)"

definition proxy_extend_expiry_tx :: "int \<Rightarrow> int \<Rightarrow> unit act" where
  "proxy_extend_expiry_tx i days = exec (sql_extend_expiry i days)"

definition sql_proxy_status :: "int \<Rightarrow> int \<Rightarrow> string \<Rightarrow> int \<Rightarrow> db \<Rightarrow> err + db" where
  "sql_proxy_status vendorID i status now d =
     Inr (d\<lparr>proxies := update_where (\<lambda>r. p_id r = i \<and> p_vendor_id r = vendorID)
       (\<lambda>r. r\<lparr>p_status := status, p_updated_at := now\<rparr>) (proxies d)\<rparr>)"

definition proxy_update_status :: "int \<Rightarrow> int \<Rightarrow> string \<Rightarrow> unit act" where
  "proxy_update_status vendorID i status = exec (sql_proxy_status vendorID i status)"

definition proxy_suspend :: "int \<Rightarrow> int \<Rightarrow> unit act" where
  "proxy_suspend vendorID i = proxy_update_status vendorID i ''suspended''"

definition proxy_resume :: "int \<Rightarrow> int \<Rightarrow> unit act" where
  "proxy_resume vendorID i = proxy_update_status vendorID i ''active''"

definition overdue :: "int \<Rightarrow> proxy_row \<Rightarrow> bool" where
  "overdue now r \<longleftrightarrow>
     p_status r = ''active'' \<and> (case p_expires_at r of None \<Rightarrow> False | Some t \<Rightarrow> t < now) \<and>
     p_deleted_at r = None"

definition sql_mark_expired :: "int \<Rightarrow> db \<Rightarrow> err + int \<times> db" where
  "sql_mark_expired now d =
     Inr (int (length (filter (overdue now) (proxies d))),
       d\<lparr>proxies := update_where (overdue now)
         (\<lambda>r. r\<lparr>p_status := ''expired'', p_updated_at := now\<rparr>) (proxies d)\<rparr>)"

definition proxy_mark_expired :: "int act" where
  "proxy_mark_expired = exec_returning sql_mark_expired"

lemmas [sql_defs] = sql_insert_proxy_def sql_extend_expiry_def sql_proxy_status_def
  sql_mark_expired_def

lemma proxy_repo_frames [frame_intros]:
  "via framed_rel (proxy_create_tx rc)" "via silent_rel (proxy_create_tx rc)"
  "via framed_rel (select_proxy p)" "via silent_rel (select_proxy p)"
  "via framed_rel (list_proxies p)" "via silent_rel (list_proxies p)"
  "via framed_rel (proxy_extend_expiry_tx i n)" "via silent_rel (proxy_extend_expiry_tx i n)"
  "via framed_rel (proxy_update_status v i s)" "via silent_rel (proxy_update_status v i s)"
  "via framed_rel proxy_mark_expired" "via silent_rel proxy_mark_expired"
  unfolding proxy_create_tx_def select_proxy_def list_proxies_def proxy_extend_expiry_tx_def
    proxy_update_status_def proxy_mark_expired_def
  by (intro frame_intros)+

lemma proxy_lookup_frames [frame_intros]:
  "via framed_rel (proxy_by_id v i)" "via silent_rel (proxy_by_id v i)"
  "via framed_rel (proxy_by_id_for_user_tx i u)" "via silent_rel (proxy_by_id_for_user_tx i u)"
  "via framed_rel (proxy_by_id_for_user i u)" "via silent_rel (proxy_by_id_for_user i u)"
  "via framed_rel (proxy_by_uuid v s)" "via silent_rel (proxy_by_uuid v s)"
  "via framed_rel (proxy_list_all_by_user u)" "via silent_rel (proxy_list_all_by_user u)"
  "via framed_rel (proxy_list_by_user v u)" "via silent_rel (proxy_list_by_user v u)"
  "via framed_rel (proxy_suspend v i)" "via silent_rel (proxy_suspend v i)"
  "via framed_rel (proxy_resume v i)" "via silent_rel (proxy_resume v i)"
  unfolding proxy_by_id_def proxy_by_id_for_user_tx_def proxy_by_id_for_user_def
    proxy_by_uuid_def proxy_list_all_by_user_def proxy_list_by_user_def proxy_suspend_def
    proxy_resume_def
  by (intro frame_intros)+

lemma proxy_repo_quiet [quiet_intros]:
  "via quiet_rel (proxy_by_id v i)" "via quiet_rel (proxy_by_id_for_user_tx i u)"
  "via quiet_rel (proxy_by_id_for_user i u)" "via quiet_rel (proxy_by_uuid v s)"
  "via quiet_rel (proxy_list_all_by_user u)" "via quiet_rel (proxy_list_by_user v u)"
  unfolding proxy_by_id_def proxy_by_id_for_user_tx_def proxy_by_id_for_user_def
    proxy_by_uuid_def proxy_list_all_by_user_def proxy_list_by_user_def select_proxy_def
    list_proxies_def
  by (intro quiet_intros)+

section \<open>Lookups and updates\<close>

text \<open>The row an insertion stores.\<close>

definition service_row :: "ProxyServiceRecord \<Rightarrow> int \<Rightarrow> int \<Rightarrow> proxy_row" where
  "service_row rc i now =
     \<lparr>p_id = i, p_vendor_id = PS_VendorID rc, p_user_id = PS_UserID rc,
      p_order_id = PS_OrderID rc, p_panel_id = PS_PanelID rc, p_uuid = PS_UUID rc,
      p_protocol = PS_Protocol rc, p_subscription_url = PS_SubscriptionURL rc,
      p_qr_payload = PS_QRPayload rc, p_config_payload = PS_ConfigPayload rc,
      p_status = PS_Status rc, p_expires_at = map_option db_time (PS_ExpiresAt rc),
      p_traffic_used_gb = 0, p_traffic_limit_gb = PS_TrafficLimitGB rc,
      p_duration_days = PS_DurationDays rc, p_created_at = now, p_updated_at = now,
      p_deleted_at = None\<rparr>"

lemma proxy_create_tx_Inr:
  assumes "proxy_create_tx rc w = (Inr i, w')"
  shows "i = w_seq w TProxies + 1 \<and> next_fault w = FOk \<and>
     (\<forall>r\<in>set (proxies (w_db w)). p_deleted_at r = None \<longrightarrow> p_uuid r \<noteq> PS_UUID rc) \<and>
     w' = (pop w)\<lparr>w_seq := (w_seq w)(TProxies := i),
        w_db := (w_db w)\<lparr>proxies := proxies (w_db w) @ [service_row rc i (w_now w)]\<rparr>\<rparr>"
  using assms
  by (auto simp: proxy_create_tx_def act_simps sql_insert_proxy_def service_row_def list_ex_iff
      split: if_splits)

lemma select_proxy_Inr:
  "select_proxy p w = (Inr rc, w') \<longleftrightarrow>
     next_fault w = FOk \<and> w' = pop w \<and>
     (\<exists>r. select_first (\<lambda>r. p r \<and> p_deleted_at r = None) (proxies (w_db w)) = Inr r \<and>
        rc = record_of_row r)"
  by (cases "select_first (\<lambda>r. p r \<and> p_deleted_at r = None) (proxies (w_db w))")
     (auto simp: select_proxy_def act_simps)

lemma select_proxy_InrE:
  assumes "select_proxy p w = (Inr rc, w')"
  obtains r where "r \<in> set (proxies (w_db w))" and "p r" and "p_deleted_at r = None"
    and "rc = record_of_row r" and "w' = pop w"
  using assms by (auto simp: select_proxy_Inr dest!: select_first_InrD)

text \<open>
  The renewal rule: the new expiry is a whole number of days after the later of now and
  the old expiry.
\<close>

lemma extended_expiry_max:
  "extended_expiry now days expires =
     (case expires of None \<Rightarrow> now | Some t \<Rightarrow> max now t) + days * day_us"
  by (auto simp: extended_expiry_def max_def split: option.splits)

section \<open>Integrity\<close>

text \<open>
  Services have identifiers from the sequence, no two live services share a UUID, and each
  belongs to an existing vendor, user and (if any) order.
\<close>

definition proxy_inv :: table_inv where
  "proxy_inv s d \<longleftrightarrow>
     ids_ok (map p_id (proxies d)) (s TProxies) \<and>
     distinct (map p_uuid (filter (\<lambda>r. p_deleted_at r = None) (proxies d))) \<and>
     (\<forall>r\<in>set (proxies d). p_vendor_id r \<in> v_id ` set (vendors d) \<and>
        p_user_id r \<in> u_id ` set (users d) \<and>
        (\<forall>oid. p_order_id r = Some oid \<longrightarrow> oid \<in> o_id ` set (orders d)))"

interpretation proxy: table_invariant proxy_inv
  by unfold_locales (auto simp: proxy_inv_def le_fun_def intro: ids_ok_mono)

lemma proxy_inv_mono:
  assumes "proxy_inv s d" and "proxies d' = proxies d"
    and "set (map v_id (vendors d)) \<subseteq> set (map v_id (vendors d'))"
    and "set (map u_id (users d)) \<subseteq> set (map u_id (users d'))"
    and "set (map o_id (orders d)) \<subseteq> set (map o_id (orders d'))"
  shows "proxy_inv s d'"
  using assms unfolding proxy_inv_def by (simp add: subset_iff)

text \<open>An update of columns outside the key columns keeps the integrity.\<close>

lemma proxy_inv_update:
  assumes "proxy_inv s d"
    and "\<And>r. p_id (f r) = p_id r" "\<And>r. p_uuid (f r) = p_uuid r"
    and "\<And>r. p_deleted_at (f r) = p_deleted_at r" "\<And>r. p_vendor_id (f r) = p_vendor_id r"
    and "\<And>r. p_user_id (f r) = p_user_id r" "\<And>r. p_order_id (f r) = p_order_id r"
  shows "proxy_inv s (d\<lparr>proxies := update_where q f (proxies d)\<rparr>)"
  using assms
  by (auto simp: proxy_inv_def map_update_where filter_update_where set_update_where)

lemma proxy_create_keeps: "keeps proxy_inv (proxy_create_tx rc)"
proof -
  have "keeps proxy_inv (insert_returning TProxies (sql_insert_proxy rc))"
  proof (rule proxy.keeps_insert_returning)
    fix n s d d'
    assume i: "sql_insert_proxy rc (s TProxies + 1) n d = Inr d'" and I: "proxy_inv s d"
    from I have "ids_ok (map p_id (proxies d) @ [s TProxies + 1]) (s TProxies + 1)"
      by (auto simp: proxy_inv_def intro: ids_ok_snoc)
    with i I show "proxy_inv (s(TProxies := s TProxies + 1)) d'"
      by (fastforce simp: sql_insert_proxy_def proxy_inv_def list_ex_iff has_iffs
          split: if_splits option.splits)
  qed
  then show ?thesis
    unfolding proxy_create_tx_def by (intro proxy.keeps_if proxy.keeps_basic)
qed

lemma proxy_updates_keep:
  "keeps proxy_inv (proxy_extend_expiry_tx i days)"
  "keeps proxy_inv (proxy_update_status v i st)"
  "keeps proxy_inv proxy_mark_expired"
  unfolding proxy_extend_expiry_tx_def proxy_update_status_def proxy_mark_expired_def
  by (auto simp: sql_defs split: if_splits
      intro!: proxy.keeps_exec proxy.keeps_exec_returning proxy_inv_update)

lemma extend_expiry_InrD:
  assumes "proxy_extend_expiry_tx i days w = (Inr x, w')"
  shows "w_seq w' = w_seq w" and "w_db w' = (w_db w)\<lparr>proxies := update_where (\<lambda>r. p_id r = i)
        (\<lambda>r. r\<lparr>p_expires_at := Some (extended_expiry (w_now w) days (p_expires_at r)),
            p_updated_at := w_now w\<rparr>) (proxies (w_db w))\<rparr>"
  using assms by (auto simp: proxy_extend_expiry_tx_def act_simps sql_defs split: if_splits)

end
