(* ===== verification/OrderService.thy ===== *)
theory OrderService
  imports WalletRepo CatalogRepo OrderRepo ProxyRepo Decimal
begin

text \<open>
  The order service, \<open>internal/order/service.go\<close>: \<open>Create\<close> and \<open>Renew\<close>. Both run five
  writes in one transaction: reserve the idempotency key, debit the wallet, insert the
  order, link the key to it, enqueue the provisioning job; \<open>Renew\<close> also extends the
  service. \<open>placed\<close> is what the five writes amount to; the two operations refine it.
\<close>

section \<open>Create\<close>

record CreateRequest =
  R_VendorID :: int
  R_UserID :: int
  R_CatalogID :: int
  R_IdempotencyKey :: string

record CreateResponse =
  RS_OrderID :: int
  RS_Status :: string
  RS_Lifecycle :: string
  RS_Duplicate :: bool

definition new_order :: "int \<Rightarrow> int \<Rightarrow> int \<Rightarrow> int \<Rightarrow> string \<Rightarrow> Order" where
  "new_order vendorID userID catalogID amount key =
     \<lparr>O_ID = 0, O_VendorID = vendorID, O_UserID = userID, O_CatalogID = catalogID,
      O_ServiceID = None, O_Amount = amount, O_Status = ''approved'',
      O_LifecycleState = ''pending'', O_IdempotencyKey = Some key, O_CreatedAt = 0\<rparr>"

definition approved_response :: "int \<Rightarrow> CreateResponse" where
  "approved_response orderID =
     \<lparr>RS_OrderID = orderID, RS_Status = ''approved'', RS_Lifecycle = ''pending'',
      RS_Duplicate = False\<rparr>"

definition duplicate_response :: "Order \<Rightarrow> CreateResponse" where
  "duplicate_response ord =
     \<lparr>RS_OrderID = O_ID ord, RS_Status = O_Status ord, RS_Lifecycle = O_LifecycleState ord,
      RS_Duplicate = True\<rparr>"

text \<open>The reads before the transaction: the catalogue item and its checks.\<close>

definition create_validate :: "CreateRequest \<Rightarrow> CatalogPrice act" where
  "create_validate req =
     andThen (onErr (ErrWrap ''catalog lookup'')
       (catalog_price_get (R_VendorID req) (R_CatalogID req))) (\<lambda>cat.
     if CP_VendorID cat \<noteq> R_VendorID req then fail (ErrNew ''vendor isolation violation'')
     else if \<not> CP_IsActive cat then fail (ErrNew ''catalog item is not active'')
     else ret cat)"

definition create_body :: "CreateRequest \<Rightarrow> CatalogPrice \<Rightarrow> int act" where
  "create_body req cat =
     andThen (onErr (ErrWrap ''idempotency reserve (possible duplicate race)'')
       (idem_reserve_tx (R_VendorID req) (R_UserID req) (R_IdempotencyKey req))) (\<lambda>_.
     andThen (onErr (ErrWrap ''wallet deduction'')
       (deduct_tx (R_UserID req) (CP_Price cat))) (\<lambda>_.
     andThen (onErr (ErrWrap ''order insert'')
       (orders_create_tx (new_order (R_VendorID req) (R_UserID req) (R_CatalogID req)
          (CP_Price cat) (R_IdempotencyKey req)))) (\<lambda>orderID.
     andThen (onErr (ErrWrap ''idempotency link'')
       (idem_link_order_tx (R_VendorID req) (R_UserID req) (R_IdempotencyKey req) orderID)) (\<lambda>_.
     andThen (onErr (ErrWrap ''enqueue provisioning'')
       (jobs_enqueue_tx (R_VendorID req) orderID)) (\<lambda>_.
     ret orderID)))))"

definition create_commit :: "CreateRequest \<Rightarrow> CatalogPrice \<Rightarrow> CreateResponse act" where
  "create_commit req cat =
     andThen (transaction (ErrWrap ''begin tx'') (ErrWrap ''commit'') (create_body req cat)) (\<lambda>orderID.
     andThen (notifyAct ''order.approved''
       [(''order_id'', JInt orderID), (''vendor_id'', JInt (R_VendorID req)),
        (''user_id'', JInt (R_UserID req))]) (\<lambda>_.
     ret (approved_response orderID)))"

definition order_create :: "CreateRequest \<Rightarrow> CreateResponse act" where
  "order_create req =
     (if R_IdempotencyKey req = [] then fail (ErrNew ''idempotency_key is required'')
      else
        andThen (onErr (ErrWrap ''idempotency resolve'')
          (idem_resolve (R_VendorID req) (R_UserID req) (R_IdempotencyKey req))) (\<lambda>existingID.
        if existingID \<noteq> 0 then
          andThen (onErr (ErrWrap ''load existing order'')
            (orders_by_id (R_VendorID req) existingID)) (\<lambda>ord.
          ret (duplicate_response ord))
        else
          andThen (create_validate req) (\<lambda>cat. create_commit req cat)))"

section \<open>Renew\<close>

definition renew_key :: "int \<Rightarrow> int \<Rightarrow> string" where
  "renew_key serviceID nano = ''renew:'' @ show_int serviceID @ '':'' @ show_int nano"

definition renew_body :: "int \<Rightarrow> int \<Rightarrow> int act" where
  "renew_body userID serviceID =
     andThen (proxy_by_id_for_user_tx serviceID userID) (\<lambda>svcRec.
     case PS_OrderID svcRec of
       None \<Rightarrow> fail (ErrNew ''original order not found for service'')
     | Some origID \<Rightarrow>
         andThen (orders_by_id (PS_VendorID svcRec) origID) (\<lambda>origOrder.
         andThen (catalog_price_get (PS_VendorID svcRec) (O_CatalogID origOrder)) (\<lambda>cat.
         andThen getNano (\<lambda>nano.
         let key = renew_key serviceID nano in
         andThen (idem_reserve_tx (PS_VendorID svcRec) userID key) (\<lambda>_.
         andThen (deduct_tx userID (CP_Price cat)) (\<lambda>_.
         andThen (orders_create_tx (new_order (PS_VendorID svcRec) userID
           (O_CatalogID origOrder) (CP_Price cat) key)) (\<lambda>orderID.
         andThen (idem_link_order_tx (PS_VendorID svcRec) userID key orderID) (\<lambda>_.
         andThen (jobs_enqueue_tx (PS_VendorID svcRec) orderID) (\<lambda>_.
         andThen (proxy_extend_expiry_tx serviceID (PS_DurationDays svcRec)) (\<lambda>_.
         ret orderID))))))))))"

definition order_renew :: "int \<Rightarrow> int \<Rightarrow> CreateResponse act" where
  "order_renew userID serviceID =
     andThen (transaction id id (renew_body userID serviceID)) (\<lambda>orderID.
     andThen (notifyAct ''order.renewed''
       [(''order_id'', JInt orderID), (''service_id'', JInt serviceID),
        (''user_id'', JInt userID)]) (\<lambda>_.
     ret (approved_response orderID)))"

section \<open>What placing an order amounts to\<close>

definition placed ::
  "wallet_row \<Rightarrow> int \<Rightarrow> int \<Rightarrow> int \<Rightarrow> int \<Rightarrow> string \<Rightarrow> seqs \<Rightarrow> int \<Rightarrow> db \<Rightarrow> db" where
  "placed r vendorID userID catalogID price key s now d =
     (post_wallet (wa_id r) userID (- price) (wrap64 (- price)) ''order_debit''
        (s TWalletTxs + 1) now d)
     \<lparr>orders := orders d @
        [\<lparr>o_id = s TOrders + 1, o_vendor_id = vendorID, o_user_id = userID,
          o_catalog_id = catalogID, o_service_id = None, o_amount = price,
          o_status = ''approved'', o_lifecycle_state = ''pending'',
          o_idempotency_key = Some key, o_created_at = now, o_updated_at = now,
          o_deleted_at = None\<rparr>],
      idem_keys := idem_keys d @
        [\<lparr>k_id = s TIdemKeys + 1, k_vendor_id = vendorID, k_user_id = userID, k_key = key,
          k_order_id = Some (s TOrders + 1), k_created_at = now\<rparr>],
      jobs := jobs d @
        [\<lparr>j_id = s TJobs + 1, j_vendor_id = vendorID, j_order_id = s TOrders + 1,
          j_status = ''pending'', j_retries = 0, j_last_error = None,
          j_dead_letter = False, j_updated_at = now, j_deleted_at = None\<rparr>]\<rparr>"

definition placed_seq :: "seqs \<Rightarrow> seqs" where
  "placed_seq s = s(TWalletTxs := s TWalletTxs + 1, TOrders := s TOrders + 1,
     TIdemKeys := s TIdemKeys + 1, TJobs := s TJobs + 1)"

text \<open>What the tables must hold for the five writes to go through.\<close>

definition can_place :: "wallet_row \<Rightarrow> int \<Rightarrow> int \<Rightarrow> int \<Rightarrow> int \<Rightarrow> string \<Rightarrow> db \<Rightarrow> bool" where
  "can_place r vendorID userID catalogID price key d \<longleftrightarrow>
     has_vendor d vendorID \<and> has_user d userID \<and> has_service_catalog d catalogID \<and>
     \<not> list_ex (idem_match vendorID userID key) (idem_keys d) \<and>
     select_first (live_wallet userID) (wallets d) = Inr r \<and>
     price \<le> wa_balance r \<and> fits64 (wa_balance r - price)"

lemma post_wallet_idem:
  "post_wallet wid u dl a t i n (d\<lparr>idem_keys := ks\<rparr>) =
     (post_wallet wid u dl a t i n d)\<lparr>idem_keys := ks\<rparr>"
  by (simp add: post_wallet_def)

lemma has_post_wallet [simp]:
  "has_vendor (post_wallet wid u dl a t i n d) v = has_vendor d v"
  "has_user (post_wallet wid u dl a t i n d) v = has_user d v"
  "has_service_catalog (post_wallet wid u dl a t i n d) v = has_service_catalog d v"
  by (simp_all add: has_iffs)

lemma five_writes:
  assumes 1: "idem_reserve_tx v u k w = (Inr x1, w1)"
    and 2: "deduct_tx u p w1 = (Inr x2, w2)"
    and 3: "orders_create_tx (new_order v u c p k) w2 = (Inr oid, w3)"
    and 4: "idem_link_order_tx v u k oid w3 = (Inr x4, w4)"
    and 5: "jobs_enqueue_tx v oid w4 = (Inr x5, w5)"
  shows "\<exists>r. can_place r v u c p k (w_db w) \<and> oid = w_seq w TOrders + 1 \<and>
     w_db w5 = placed r v u c p k (w_seq w) (w_now w) (w_db w) \<and>
     w_seq w5 = placed_seq (w_seq w) \<and> w_now w5 = w_now w"
proof -
  let ?d = "w_db w"
  let ?key = "\<lparr>k_id = w_seq w TIdemKeys + 1, k_vendor_id = v, k_user_id = u, k_key = k,
          k_order_id = None, k_created_at = w_now w\<rparr>"
  from 1 have r: "\<not> list_ex (idem_match v u k) (idem_keys ?d)" "has_vendor ?d v" "has_user ?d u"
    and w1: "w_db w1 = ?d\<lparr>idem_keys := idem_keys ?d @ [?key]\<rparr>"
      "w_seq w1 = (w_seq w)(TIdemKeys := w_seq w TIdemKeys + 1)" "w_now w1 = w_now w"
    by (auto simp: idem_reserve_tx_def act_simps sql_insert_idem_def split: if_splits)
  from 2 obtain wr where wr: "select_first (live_wallet u) (wallets ?d) = Inr wr"
      "p \<le> wa_balance wr" "fits64 (wa_balance wr - p)"
    and w2: "w_db w2 = (post_wallet (wa_id wr) u (- p) (wrap64 (- p)) ''order_debit''
           (w_seq w TWalletTxs + 1) (w_now w) ?d)\<lparr>idem_keys := idem_keys ?d @ [?key]\<rparr>"
      "w_seq w2 = (w_seq w1)(TWalletTxs := w_seq w TWalletTxs + 1)"
    by (rule deduct_tx_InrD) (auto simp: w1 post_wallet_idem)
  have w2': "w_now w2 = w_now w"
    using viaD [OF wallet_frames(9) 2] w1(3) by (simp add: framed_rel_def)
  let ?p = "post_wallet (wa_id wr) u (- p) (wrap64 (- p)) ''order_debit''
           (w_seq w TWalletTxs + 1) (w_now w) ?d"
  let ?ord = "\<lparr>o_id = oid, o_vendor_id = v, o_user_id = u, o_catalog_id = c, o_service_id = None,
          o_amount = p, o_status = ''approved'', o_lifecycle_state = ''pending'',
          o_idempotency_key = Some k, o_created_at = w_now w, o_updated_at = w_now w,
          o_deleted_at = None\<rparr>"
  from 3 have c: "has_service_catalog ?d c" and oid: "oid = w_seq w TOrders + 1"
    and w3: "w_db w3 = ?p\<lparr>idem_keys := idem_keys ?d @ [?key], orders := orders ?d @ [?ord]\<rparr>"
      "w_seq w3 = (w_seq w2)(TOrders := oid)" "w_now w3 = w_now w"
    by (auto simp: orders_create_tx_def act_simps sql_insert_order_def new_order_def w2 w2' w1
        has_iffs split: if_splits)
  have "update_where (idem_match v u k) (\<lambda>r. r\<lparr>k_order_id := Some oid\<rparr>) (idem_keys ?d) = idem_keys ?d"
    using r(1) by (intro update_where_none) (auto simp: list_ex_iff)
  with 4 have w4: "w_db w4 = ?p\<lparr>idem_keys := idem_keys ?d @ [?key\<lparr>k_order_id := Some oid\<rparr>],
        orders := orders ?d @ [?ord]\<rparr>"
      "w_seq w4 = w_seq w3" "w_now w4 = w_now w"
    by (auto simp: idem_link_order_tx_def act_simps sql_link_idem_def w3)
  from 5 have w5: "w_db w5 = placed wr v u c p k (w_seq w) (w_now w) ?d"
      "w_seq w5 = placed_seq (w_seq w)" "w_now w5 = w_now w"
    by (auto simp: jobs_enqueue_tx_def act_simps sql_insert_job_def w4 w3 w2 w1 oid placed_def
        placed_seq_def split: if_splits)
  from r wr c oid w5 show ?thesis by (auto simp: can_place_def)
qed

end
