(* ===== verification/OrderProofs.thy ===== *)
theory OrderProofs
  imports OrderService
begin

text \<open>
  What \<open>Create\<close> and \<open>Renew\<close> do, on every outcome: the inversion of their bodies into
  \<open>placed\<close>, the frame conditions, and the behaviour on success, on a duplicate, and on
  an error with or without a lost answer.
\<close>

section \<open>Frames\<close>

lemma order_body_frames [frame_intros]:
  "via framed_rel (create_validate req)" "via silent_rel (create_validate req)"
  "via framed_rel (create_body req cat)" "via silent_rel (create_body req cat)"
  unfolding create_validate_def create_body_def
  by (intro frame_intros)+

lemma renew_body_framed [frame_intros]: "via framed_rel (renew_body u i)"
  unfolding renew_body_def Let_def
  by (intro frame_intros, split option.split, intro conjI allI impI) (intro frame_intros)+

lemma renew_body_silent [frame_intros]: "via silent_rel (renew_body u i)"
  unfolding renew_body_def Let_def
  by (intro frame_intros, split option.split, intro conjI allI impI) (intro frame_intros)+

lemma order_op_frames [frame_intros]:
  "via framed_rel (create_commit req cat)" "via framed_rel (order_renew u i)"
  unfolding create_commit_def order_renew_def
  by (intro frame_intros)+

section \<open>Inversion\<close>

lemma create_body_InrD:
  assumes "create_body req cat w = (Inr oid, w')"
  shows "\<exists>r. can_place r (R_VendorID req) (R_UserID req) (R_CatalogID req) (CP_Price cat)
        (R_IdempotencyKey req) (w_db w) \<and>
     oid = w_seq w TOrders + 1 \<and>
     w_db w' = placed r (R_VendorID req) (R_UserID req) (R_CatalogID req) (CP_Price cat)
        (R_IdempotencyKey req) (w_seq w) (w_now w) (w_db w) \<and>
     w_seq w' = placed_seq (w_seq w) \<and> w_now w' = w_now w"
proof -
  from assms obtain x1 w1 x2 w2 w3 x4 w4 x5 where
    "idem_reserve_tx (R_VendorID req) (R_UserID req) (R_IdempotencyKey req) w = (Inr x1, w1)"
    "deduct_tx (R_UserID req) (CP_Price cat) w1 = (Inr x2, w2)"
    "orders_create_tx (new_order (R_VendorID req) (R_UserID req) (R_CatalogID req)
          (CP_Price cat) (R_IdempotencyKey req)) w2 = (Inr oid, w3)"
    "idem_link_order_tx (R_VendorID req) (R_UserID req) (R_IdempotencyKey req) oid w3
       = (Inr x4, w4)"
    "jobs_enqueue_tx (R_VendorID req) oid w4 = (Inr x5, w')"
    unfolding create_body_def by (auto simp: andThen_Inr onErr_Inr ret_Inr)
  then show ?thesis by (rule five_writes)
qed

lemma live_item_vendor: "select_first (live_item v c) xs = Inr r \<Longrightarrow> c_vendor_id r = v"
  by (auto dest: select_first_InrD)

lemma create_validate_Inr:
  "create_validate req w = (Inr cat, w') \<longleftrightarrow>
     next_fault w = FOk \<and> w' = pop w \<and>
     (\<exists>r. select_first (live_item (R_VendorID req) (R_CatalogID req)) (catalog_items (w_db w))
          = Inr r \<and> cat = price_of_row r \<and> c_is_active r)"
proof -
  have *: "(\<exists>p w1. catalog_price_get v c w = (Inr p, w1) \<and> P p w1) \<longleftrightarrow>
     next_fault w = FOk \<and> (\<exists>r. select_first (live_item v c) (catalog_items (w_db w)) = Inr r \<and>
        P (price_of_row r) (pop w))" for v c P
    by (auto simp: catalog_price_get_Inr)
  show ?thesis
    unfolding create_validate_def andThen_Inr onErr_Inr * if_split [of "\<lambda>f. f _ = _"]
      fail_Inr ret_Inr
    by (auto simp: price_of_row_def dest: live_item_vendor)
qed

lemma idem_resolve_Inr:
  "idem_resolve v u k w = (Inr i, w') \<longleftrightarrow>
     next_fault w = FOk \<and> w' = pop w \<and>
     i = (case find (idem_match v u k) (idem_keys (w_db w)) of
            None \<Rightarrow> 0 | Some r \<Rightarrow> (case k_order_id r of None \<Rightarrow> 0 | Some j \<Rightarrow> j))"
  by (auto simp: idem_resolve_def act_simps catchErr_def query_def roundtrip_def select_first_def
      split: fault.splits option.splits)

lemma idem_resolve_db: "idem_resolve v u k w = (r, w') \<Longrightarrow> w_db w' = w_db w \<and> w_hub w' = w_hub w"
  by (auto simp: idem_resolve_def andThen_def ret_def catchErr_def query_def roundtrip_def
      split: fault.splits sum.splits prod.splits if_splits)

lemma query_db: "query q w = (r, w') \<Longrightarrow> w' = pop w"
  by (auto simp: query_def roundtrip_def split: fault.splits)

lemma orders_by_id_pop: "orders_by_id v i w = (r, w') \<Longrightarrow> w' = pop w"
  unfolding orders_by_id_def by (rule query_db)

lemma create_validate_pop: "create_validate req w = (r, w') \<Longrightarrow> w' = pop w"
  by (auto simp: create_validate_def andThen_def onErr_def catalog_price_get_def fail_def ret_def
      dest: query_db split: prod.splits sum.splits if_splits)

section \<open>Committing an order\<close>

text \<open>
  \<open>order_effect req cat w w'\<close>: the tables went from those of \<open>w\<close> to those of \<open>w'\<close> by the
  order of \<open>req\<close> at the price of \<open>cat\<close>.
\<close>

definition order_effect :: "CreateRequest \<Rightarrow> int \<Rightarrow> world \<Rightarrow> world \<Rightarrow> bool" where
  "order_effect req price w w' \<longleftrightarrow>
     (\<exists>r. can_place r (R_VendorID req) (R_UserID req) (R_CatalogID req) price
        (R_IdempotencyKey req) (w_db w) \<and>
     w_db w' = placed r (R_VendorID req) (R_UserID req) (R_CatalogID req) price
        (R_IdempotencyKey req) (w_seq w) (w_now w) (w_db w) \<and>
     w_seq w' = placed_seq (w_seq w))"

definition approved_note :: "CreateRequest \<Rightarrow> int \<Rightarrow> Hub \<Rightarrow> Hub" where
  "approved_note req orderID = notify ''order.approved''
     [(''order_id'', JInt orderID), (''vendor_id'', JInt (R_VendorID req)),
      (''user_id'', JInt (R_UserID req))]"

lemma order_effect_pop [simp]:
  "order_effect req p (pop w) w' = order_effect req p w w'"
  "order_effect req p w (pop w') = order_effect req p w w'"
  "order_effect req p w (w'\<lparr>w_hub := h\<rparr>) = order_effect req p w w'"
  by (simp_all add: order_effect_def)

lemma create_commit_outcomes:
  assumes "create_commit req cat w = (r, w')"
  shows "case r of
       Inr resp \<Rightarrow> order_effect req (CP_Price cat) w w' \<and>
         resp = approved_response (w_seq w TOrders + 1) \<and>
         w_hub w' = approved_note req (w_seq w TOrders + 1) (w_hub w)
     | Inl e \<Rightarrow> w_hub w' = w_hub w \<and>
         (w_db w' = w_db w \<or>
          e = ErrWrap ''commit'' ErrDriver \<and> order_effect req (CP_Price cat) w w')"
proof -
  let ?t = "transaction (ErrWrap ''begin tx'') (ErrWrap ''commit'') (create_body req cat)"
  obtain q w1 where t: "?t w = (q, w1)" by (cases "?t w")
  have hub: "w_hub w1 = w_hub w"
    using silent_hub [OF silent.via_transaction [OF order_body_frames(4)] t] .
  have body: "order_effect req (CP_Price cat) w w2 \<and> oid = w_seq w TOrders + 1"
    if "create_body req cat (pop w) = (Inr oid, w2)" for oid w2
    using create_body_InrD [OF that] by (auto simp: order_effect_def)
  from t show ?thesis
  proof (cases rule: transaction_cases)
    case (committed x w2)
    then have "r = Inr (approved_response x)" and "w' = w1\<lparr>w_hub := approved_note req x (w_hub w1)\<rparr>"
      using assms t by (auto simp: create_commit_def andThen_def notifyAct_def ret_def approved_note_def)
    with committed body hub show ?thesis by auto
  next
    case (rolled_back e)
    then have "r = Inl e" "w' = w1" using assms t by (auto simp: create_commit_def andThen_def)
    with rolled_back hub show ?thesis by auto
  next
    case (lost x w2)
    then have "r = Inl (ErrWrap ''commit'' ErrDriver)" "w' = w1"
      using assms t by (auto simp: create_commit_def andThen_def)
    with lost body hub show ?thesis by auto
  qed
qed

section \<open>The outcomes of Create\<close>

lemma create_fresh_cases:
  assumes "andThen (create_validate req) (create_commit req) w = (r, w')"
  obtains e where "r = Inl e" "w' = pop w" "\<forall>e'. e \<noteq> ErrWrap ''commit'' e'"
  | item where
      "select_first (live_item (R_VendorID req) (R_CatalogID req)) (catalog_items (w_db w)) = Inr item"
      "c_is_active item" "create_commit req (price_of_row item) (pop w) = (r, w')"
proof -
  obtain v w2 where v: "create_validate req w = (v, w2)" by (cases "create_validate req w")
  have w2: "w2 = pop w" using v by (rule create_validate_pop)
  show thesis
  proof (cases v)
    case (Inl e)
    with v have "\<forall>e'. e \<noteq> ErrWrap ''commit'' e'"
      by (auto simp: create_validate_def andThen_Inl onErr_Inl fail_Inr ret_Inr split: if_splits)
    moreover have "r = Inl e" "w' = w2" using assms v Inl by (simp_all add: andThen_def)
    ultimately show thesis using w2 by (intro that(1)) auto
  next
    case (Inr cat)
    have "create_commit req cat w2 = (r, w')" using assms v Inr by (simp add: andThen_def)
    with v Inr w2 show thesis by (auto simp: create_validate_Inr intro: that(2))
  qed
qed

lemma create_dup_cases:
  assumes "andThen (onErr (ErrWrap ''load existing order'') (orders_by_id v i))
      (\<lambda>ord. ret (duplicate_response ord)) w = (r, w')"
  obtains e where "r = Inl e" "w' = pop w" "\<forall>e'. e \<noteq> ErrWrap ''commit'' e'"
  | row where "select_first (live_order v i) (orders (w_db w)) = Inr row" "w' = pop w"
      "r = Inr (duplicate_response (order_of_row row))"
proof (cases "orders_by_id v i w")
  case (Pair q w1)
  then have w1: "w1 = pop w" by (rule orders_by_id_pop)
  show thesis
  proof (cases q)
    case (Inl e)
    with assms Pair w1 show thesis by (intro that(1)) (auto simp: andThen_def onErr_def)
  next
    case (Inr ord)
    with assms Pair w1 have "r = Inr (duplicate_response ord)" "w' = pop w"
      by (simp_all add: andThen_def onErr_def ret_def)
    moreover from Inr Pair obtain row where "select_first (live_order v i) (orders (w_db w)) = Inr row"
      "ord = order_of_row row"
      by (auto simp: orders_by_id_def query_Inr map_sum_Inr_iff)
    ultimately show thesis using that(2) by auto
  qed
qed

text \<open>
  The paths of \<open>Create\<close>: refused or failed before the transaction, a duplicate answered
  from the tables, or the commit of a fresh order.
\<close>

lemma order_create_cases:
  assumes "order_create req w = (r, w')"
  obtains (early) e where "r = Inl e" "w_db w' = w_db w" "w_hub w' = w_hub w"
      "\<forall>e'. e \<noteq> ErrWrap ''commit'' e'"
  | (dup) k oid row where "R_IdempotencyKey req \<noteq> []"
      "k \<in> set (idem_keys (w_db w))"
      "idem_match (R_VendorID req) (R_UserID req) (R_IdempotencyKey req) k"
      "k_order_id k = Some oid" "oid \<noteq> 0"
      "select_first (live_order (R_VendorID req) oid) (orders (w_db w)) = Inr row"
      "r = Inr (duplicate_response (order_of_row row))"
      "w_db w' = w_db w" "w_hub w' = w_hub w"
  | (fresh) item w1 where "R_IdempotencyKey req \<noteq> []"
      "select_first (live_item (R_VendorID req) (R_CatalogID req)) (catalog_items (w_db w)) = Inr item"
      "c_is_active item" "w1 = pop (pop w)"
      "create_commit req (price_of_row item) w1 = (r, w')"
proof (cases "R_IdempotencyKey req = []")
  case True
  with assms show thesis by (auto simp: order_create_def fail_def intro: early)
next
  case key: False
  let ?m = "idem_match (R_VendorID req) (R_UserID req) (R_IdempotencyKey req)"
  obtain q w1 where q: "idem_resolve (R_VendorID req) (R_UserID req) (R_IdempotencyKey req) w
      = (q, w1)" by fastforce
  show thesis
  proof (cases q)
    case (Inl e)
    then have "r = Inl (ErrWrap ''idempotency resolve'' e)" "w' = w1"
      using assms key q by (auto simp: order_create_def andThen_def onErr_def)
    with idem_resolve_db [OF q] show thesis by (intro early) auto
  next
    case (Inr i)
    with q have w1: "w1 = pop w" and i: "i = (case find ?m (idem_keys (w_db w)) of
            None \<Rightarrow> 0 | Some k \<Rightarrow> (case k_order_id k of None \<Rightarrow> 0 | Some j \<Rightarrow> j))"
      by (simp_all add: idem_resolve_Inr)
    show thesis
    proof (cases "i = 0")
      case True
      then have "andThen (create_validate req) (create_commit req) (pop w) = (r, w')"
        using assms key q Inr w1 by (simp add: order_create_def andThen_def onErr_def)
      then show thesis
        by (cases rule: create_fresh_cases) (auto intro: early fresh [OF key])
    next
      case nz: False
      with i obtain k where k: "find ?m (idem_keys (w_db w)) = Some k" "k_order_id k = Some i"
        by (auto split: option.splits)
      then have k': "k \<in> set (idem_keys (w_db w))" "?m k" by (auto simp: find_Some_iff)
      have "andThen (onErr (ErrWrap ''load existing order'') (orders_by_id (R_VendorID req) i))
          (\<lambda>ord. ret (duplicate_response ord)) (pop w) = (r, w')"
        using assms key q Inr nz w1 by (simp add: order_create_def andThen_def onErr_def)
      then show thesis
        by (cases rule: create_dup_cases) (auto intro: early dup [OF key k' k(2) nz])
    qed
  qed
qed

section \<open>Completeness\<close>

text \<open>
  With no fault, an order the tables allow is placed: no write of the five fails.
\<close>

lemma deduct_complete:
  assumes "w_faults w = []" and "distinct (map wa_id (wallets (w_db w)))" and "has_user (w_db w) u"
    and "select_first (live_wallet u) (wallets (w_db w)) = Inr r" and "p \<le> wa_balance r"
    and "fits64 (wa_balance r - p)"
  obtains w' where "deduct_tx u p w = (Inr (), w')" "w_faults w' = []"
proof -
  have r: "r \<in> set (wallets (w_db w))" using assms(4) by (auto dest: select_first_InrD)
  have "list_all (\<lambda>q. wa_id q = wa_id r \<longrightarrow> fits64 (wa_balance q - p)) (wallets (w_db w))"
    using distinct_map_eqD [OF assms(2) _ r] assms(6) by (auto simp: list_all_iff)
  then obtain d1 where d1: "sql_wallet_sub p (wa_id r) (w_now w) (w_db w) = Inr d1"
    by (simp add: sql_wallet_sub_def)
  then have "map wa_id (wallets d1) = map wa_id (wallets (w_db w))" "users d1 = users (w_db w)"
    by (auto simp: sql_wallet_sub_def map_update_where split: if_splits)
  then have "has_wallet d1 (wa_id r)" "has_user d1 u"
    using r assms(3) by (simp_all add: has_iffs flip: set_map) auto
  then have "\<exists>w'. deduct_tx u p w = (Inr (), w') \<and> w_faults w' = []"
    using assms d1
    by (simp add: deduct_tx_def andThen_def nofault_simps Let_def sql_insert_wtx_def)
  with that show thesis by auto
qed

lemma five_writes_complete:
  assumes "w_faults w = []" and "distinct (map wa_id (wallets (w_db w)))"
    and "can_place r v u c p k (w_db w)"
  obtains w1 w2 oid w3 w4 w5 where "idem_reserve_tx v u k w = (Inr (), w1)"
    and "deduct_tx u p w1 = (Inr (), w2)"
    and "orders_create_tx (new_order v u c p k) w2 = (Inr oid, w3)"
    and "idem_link_order_tx v u k oid w3 = (Inr (), w4)"
    and "jobs_enqueue_tx v oid w4 = (Inr (), w5)"
    and "w_faults w5 = []"
proof -
  note cp = assms(3) [unfolded can_place_def]
  obtain w1 where 1: "idem_reserve_tx v u k w = (Inr (), w1)" "w_faults w1 = []"
    "w_db w1 = (w_db w)\<lparr>idem_keys := idem_keys (w_db w1)\<rparr>"
    using assms(1) cp by (simp add: idem_reserve_tx_def nofault_simps sql_insert_idem_def Let_def)
  have d1: "wallets (w_db w1) = wallets (w_db w)" "has_user (w_db w1) = has_user (w_db w)"
    "has_vendor (w_db w1) = has_vendor (w_db w)"
    "has_service_catalog (w_db w1) = has_service_catalog (w_db w)"
    by (subst 1(3), simp add: has_user_def has_vendor_def has_service_catalog_def fun_eq_iff)+
  from cp assms(2) obtain w2 where 2: "deduct_tx u p w1 = (Inr (), w2)" "w_faults w2 = []"
    by (auto simp: d1 intro: deduct_complete [OF 1(2), of u r p])
  have d2: "has_user (w_db w2) = has_user (w_db w)" "has_vendor (w_db w2) = has_vendor (w_db w)"
    "has_service_catalog (w_db w2) = has_service_catalog (w_db w)"
    using 2(1) by (auto elim!: deduct_tx_InrD simp: fun_eq_iff d1)
  from cp obtain oid w3 where 3: "orders_create_tx (new_order v u c p k) w2 = (Inr oid, w3)"
    "w_faults w3 = []" "has_vendor (w_db w3) v" "has_order (w_db w3) oid"
    by (simp add: orders_create_tx_def nofault_simps 2(2) sql_insert_order_def new_order_def d2 Let_def
        has_order_def) (simp add: has_vendor_def flip: d2)
  obtain w4 where 4: "idem_link_order_tx v u k oid w3 = (Inr (), w4)" "w_faults w4 = []"
    "has_vendor (w_db w4) v" "has_order (w_db w4) oid"
    using 3 by (simp add: idem_link_order_tx_def nofault_simps sql_link_idem_def has_order_def
        has_vendor_def)
  obtain w5 where 5: "jobs_enqueue_tx v oid w4 = (Inr (), w5)" "w_faults w5 = []"
    using 4 by (simp add: jobs_enqueue_tx_def nofault_simps sql_insert_job_def Let_def)
  from 1 2 3 4 5 that show thesis by blast
qed

lemma nofault_pop: "w_faults w = [] \<Longrightarrow> pop w = w \<and> next_fault w = FOk"
  by (simp add: pop_def next_fault_def)

lemma create_body_complete:
  assumes "w_faults w = []" and "distinct (map wa_id (wallets (w_db w)))"
    and "can_place r (R_VendorID req) (R_UserID req) (R_CatalogID req) (CP_Price cat)
        (R_IdempotencyKey req) (w_db w)"
  obtains oid w' where "create_body req cat w = (Inr oid, w')" "w_faults w' = []"
proof -
  from assms obtain w1 w2 oid w3 w4 w5 where
    "idem_reserve_tx (R_VendorID req) (R_UserID req) (R_IdempotencyKey req) w = (Inr (), w1)"
    "deduct_tx (R_UserID req) (CP_Price cat) w1 = (Inr (), w2)"
    "orders_create_tx (new_order (R_VendorID req) (R_UserID req) (R_CatalogID req)
          (CP_Price cat) (R_IdempotencyKey req)) w2 = (Inr oid, w3)"
    "idem_link_order_tx (R_VendorID req) (R_UserID req) (R_IdempotencyKey req) oid w3
       = (Inr (), w4)"
    "jobs_enqueue_tx (R_VendorID req) oid w4 = (Inr (), w5)" "w_faults w5 = []"
    by (rule five_writes_complete)
  then have "create_body req cat w = (Inr oid, w5)"
    by (simp add: create_body_def andThen_def onErr_def ret_def)
  with \<open>w_faults w5 = []\<close> that show thesis by blast
qed

lemma create_commit_complete:
  assumes "w_faults w = []" and "distinct (map wa_id (wallets (w_db w)))"
    and "can_place r (R_VendorID req) (R_UserID req) (R_CatalogID req) (CP_Price cat)
        (R_IdempotencyKey req) (w_db w)"
  shows "\<exists>w'. create_commit req cat w = (Inr (approved_response (w_seq w TOrders + 1)), w') \<and>
     w_faults w' = []"
proof -
  obtain oid w1 where b: "create_body req cat w = (Inr oid, w1)" "w_faults w1 = []"
    using assms by (rule create_body_complete)
  then have "oid = w_seq w TOrders + 1" by (auto dest: create_body_InrD)
  with b nofault_pop [OF assms(1)] show ?thesis
    by (simp add: create_commit_def transaction_def andThen_def onErr_def nofault_simps assms(1)
        notifyAct_def ret_def)
qed

lemma placed_functional:
  assumes "can_place r v u c p k d" and "can_place q v u c p k d"
  shows "r = q"
  using assms by (simp add: can_place_def)

lemma order_create_complete:
  assumes "w_faults w = []" and "distinct (map wa_id (wallets (w_db w)))"
    and "R_IdempotencyKey req \<noteq> []"
    and "select_first (live_item (R_VendorID req) (R_CatalogID req)) (catalog_items (w_db w)) = Inr item"
    and "c_is_active item"
    and "can_place r (R_VendorID req) (R_UserID req) (R_CatalogID req) (c_price_toman item)
        (R_IdempotencyKey req) (w_db w)"
  shows "\<exists>w'. order_create req w = (Inr (approved_response (w_seq w TOrders + 1)), w') \<and>
     w_faults w' = [] \<and> w_seq w' = placed_seq (w_seq w) \<and>
     w_db w' = placed r (R_VendorID req) (R_UserID req) (R_CatalogID req) (c_price_toman item)
        (R_IdempotencyKey req) (w_seq w) (w_now w) (w_db w)"
proof -
  note p = nofault_pop [OF assms(1)]
  have "find (idem_match (R_VendorID req) (R_UserID req) (R_IdempotencyKey req))
      (idem_keys (w_db w)) = None"
    using assms(6) by (auto simp: can_place_def find_None_iff list_ex_iff)
  then have res: "idem_resolve (R_VendorID req) (R_UserID req) (R_IdempotencyKey req) w = (Inr 0, w)"
    using p by (simp add: idem_resolve_Inr)
  have val: "create_validate req w = (Inr (price_of_row item), w)"
    using p assms(4,5) by (simp add: create_validate_Inr)
  have oc: "order_create req w = create_commit req (price_of_row item) w"
    using assms(3) res val by (simp add: order_create_def andThen_def onErr_def)
  have "can_place r (R_VendorID req) (R_UserID req) (R_CatalogID req) (CP_Price (price_of_row item))
        (R_IdempotencyKey req) (w_db w)" using assms(6) by (simp add: price_of_row_def)
  from create_commit_complete [OF assms(1,2) this] obtain w' where
    c: "create_commit req (price_of_row item) w = (Inr (approved_response (w_seq w TOrders + 1)), w')"
    "w_faults w' = []" by blast
  from create_commit_outcomes [OF c(1)] have "order_effect req (c_price_toman item) w w'"
    by (simp add: price_of_row_def)
  with assms(6) show ?thesis
    unfolding oc using c by (auto simp: order_effect_def dest: placed_functional)
qed

section \<open>Renewal\<close>

definition extend_service :: "int \<Rightarrow> int \<Rightarrow> int \<Rightarrow> db \<Rightarrow> db" where
  "extend_service i days now d = d\<lparr>proxies := update_where (\<lambda>r. p_id r = i)
     (\<lambda>r. r\<lparr>p_expires_at := Some (extended_expiry now days (p_expires_at r)),
         p_updated_at := now\<rparr>) (proxies d)\<rparr>"

text \<open>
  \<open>renew_effect\<close>: the service of the user, the order it came from and the catalogue item
  of that order are in the tables; the renewal places an order of the item's present price
  and extends the service by the days it was sold with.
\<close>

definition renew_effect :: "int \<Rightarrow> int \<Rightarrow> world \<Rightarrow> world \<Rightarrow> bool" where
  "renew_effect userID serviceID w w' \<longleftrightarrow>
     (\<exists>svc orig item r.
       svc \<in> set (proxies (w_db w)) \<and> p_id svc = serviceID \<and> p_user_id svc = userID \<and>
       p_deleted_at svc = None \<and> p_order_id svc = Some (o_id orig) \<and>
       orig \<in> set (orders (w_db w)) \<and> o_vendor_id orig = p_vendor_id svc \<and>
       item \<in> set (catalog_items (w_db w)) \<and> c_id item = o_catalog_id orig \<and>
       c_vendor_id item = p_vendor_id svc \<and>
       can_place r (p_vendor_id svc) userID (o_catalog_id orig) (c_price_toman item)
         (renew_key serviceID (w_nano w)) (w_db w) \<and>
       w_db w' = extend_service serviceID (p_duration_days svc) (w_now w)
         (placed r (p_vendor_id svc) userID (o_catalog_id orig) (c_price_toman item)
           (renew_key serviceID (w_nano w)) (w_seq w) (w_now w) (w_db w)) \<and>
       w_seq w' = placed_seq (w_seq w))"

lemma renew_effect_pop [simp]:
  "renew_effect u i (pop w) w' = renew_effect u i w w'"
  "renew_effect u i w (pop w') = renew_effect u i w w'"
  "renew_effect u i w (w'\<lparr>w_hub := h\<rparr>) = renew_effect u i w w'"
  by (simp_all add: renew_effect_def)

lemma renew_body_InrD:
  assumes "renew_body u i w = (Inr oid, w')"
  shows "renew_effect u i w w' \<and> oid = w_seq w TOrders + 1"
proof -
  let ?key = "renew_key i (w_nano w)"
  from assms obtain svc oo ord cat w1 w2 w3 where
    1: "proxy_by_id_for_user_tx i u w = (Inr svc, w1)" and
    2: "orders_by_id (PS_VendorID svc) oo w1 = (Inr ord, w2)" "PS_OrderID svc = Some oo" and
    3: "catalog_price_get (PS_VendorID svc) (O_CatalogID ord) w2 = (Inr cat, w3)" and
    4: "andThen getNano (\<lambda>nano. let key = renew_key i nano in
         andThen (idem_reserve_tx (PS_VendorID svc) u key) (\<lambda>_.
         andThen (deduct_tx u (CP_Price cat)) (\<lambda>_.
         andThen (orders_create_tx (new_order (PS_VendorID svc) u
           (O_CatalogID ord) (CP_Price cat) key)) (\<lambda>orderID.
         andThen (idem_link_order_tx (PS_VendorID svc) u key orderID) (\<lambda>_.
         andThen (jobs_enqueue_tx (PS_VendorID svc) orderID) (\<lambda>_.
         andThen (proxy_extend_expiry_tx i (PS_DurationDays svc)) (\<lambda>_.
         ret orderID))))))) w3 = (Inr oid, w')"
    unfolding renew_body_def andThen_Inr [of "proxy_by_id_for_user_tx i u"]
    by (auto simp: fail_Inr andThen_Inr [of "orders_by_id _ _"] andThen_Inr [of "catalog_price_get _ _"]
        split: option.splits)
  from 1 obtain r where r: "r \<in> set (proxies (w_db w))" "p_id r = i" "p_user_id r = u"
    "p_deleted_at r = None" "svc = record_of_row r" "w1 = pop w"
    unfolding proxy_by_id_for_user_tx_def by (auto elim: select_proxy_InrE)
  from 2 obtain orow where orow: "orow \<in> set (orders (w_db w))" "o_id orow = oo"
    "o_vendor_id orow = PS_VendorID svc" "ord = order_of_row orow" "w2 = pop w1"
    by (auto simp: orders_by_id_def query_Inr map_sum_Inr_iff r(6) dest!: select_first_InrD)
  from 3 obtain item where item: "item \<in> set (catalog_items (w_db w))" "c_id item = O_CatalogID ord"
    "c_vendor_id item = PS_VendorID svc" "cat = price_of_row item" "w3 = pop w2"
    by (auto simp: catalog_price_get_Inr orow(5) r(6) dest!: select_first_InrD)
  from 4 obtain x1 w4 x2 w5 w6 x4 w7 x5 w8 x6 where
    5: "idem_reserve_tx (PS_VendorID svc) u ?key w3 = (Inr x1, w4)"
      "deduct_tx u (CP_Price cat) w4 = (Inr x2, w5)"
      "orders_create_tx (new_order (PS_VendorID svc) u (O_CatalogID ord) (CP_Price cat) ?key) w5
        = (Inr oid, w6)"
      "idem_link_order_tx (PS_VendorID svc) u ?key oid w6 = (Inr x4, w7)"
      "jobs_enqueue_tx (PS_VendorID svc) oid w7 = (Inr x5, w8)" and
    6: "proxy_extend_expiry_tx i (PS_DurationDays svc) w8 = (Inr x6, w')"
    unfolding Let_def by (auto simp: andThen_Inr getNano_iff ret_Inr r(6) orow(5) item(5))
  from five_writes [OF 5] obtain wr where
    7: "can_place wr (PS_VendorID svc) u (O_CatalogID ord) (CP_Price cat) ?key (w_db w)"
      "oid = w_seq w TOrders + 1"
      "w_db w8 = placed wr (PS_VendorID svc) u (O_CatalogID ord) (CP_Price cat) ?key
          (w_seq w) (w_now w) (w_db w)"
      "w_seq w8 = placed_seq (w_seq w)" "w_now w8 = w_now w"
    by (auto simp: r(6) orow(5) item(5))
  from extend_expiry_InrD [OF 6] 7 r orow item 2(2) show ?thesis
    unfolding renew_effect_def extend_service_def
    by (auto simp: record_of_row_def order_of_row_def price_of_row_def)
qed

definition renewed_note :: "int \<Rightarrow> int \<Rightarrow> int \<Rightarrow> Hub \<Rightarrow> Hub" where
  "renewed_note userID serviceID orderID = notify ''order.renewed''
     [(''order_id'', JInt orderID), (''service_id'', JInt serviceID), (''user_id'', JInt userID)]"

lemma order_renew_outcomes:
  assumes "order_renew u i w = (r, w')"
  shows "case r of
       Inr resp \<Rightarrow> renew_effect u i w w' \<and> resp = approved_response (w_seq w TOrders + 1) \<and>
         w_hub w' = renewed_note u i (w_seq w TOrders + 1) (w_hub w)
     | Inl e \<Rightarrow> w_hub w' = w_hub w \<and>
         (w_db w' = w_db w \<or> e = ErrDriver \<and> renew_effect u i w w')"
proof -
  let ?t = "transaction id id (renew_body u i)"
  obtain q w1 where t: "?t w = (q, w1)" by (cases "?t w")
  have hub: "w_hub w1 = w_hub w"
    using silent_hub [OF silent.via_transaction [OF renew_body_silent] t] .
  from t show ?thesis
  proof (cases rule: transaction_cases)
    case (committed x w2)
    then have "r = Inr (approved_response x)" "w' = w1\<lparr>w_hub := renewed_note u i x (w_hub w1)\<rparr>"
      using assms t by (auto simp: order_renew_def andThen_def notifyAct_def ret_def renewed_note_def)
    with committed hub show ?thesis by (auto dest: renew_body_InrD)
  next
    case (rolled_back e)
    then have "r = Inl e" "w' = w1" using assms t by (auto simp: order_renew_def andThen_def)
    with rolled_back hub show ?thesis by auto
  next
    case (lost x w2)
    then have "r = Inl ErrDriver" "w' = w1" using assms t by (auto simp: order_renew_def andThen_def)
    with lost hub show ?thesis by (auto dest: renew_body_InrD)
  qed
qed

lemma renew_key_inj: "renew_key i n = renew_key j m \<longleftrightarrow> i = j \<and> n = m"
proof
  assume "renew_key i n = renew_key j m"
  then have e: "show_int i @ CHR '':'' # show_int n = show_int j @ CHR '':'' # show_int m"
    by (simp add: renew_key_def)
  have "takeWhile (\<lambda>c. c \<noteq> CHR '':'') (show_int x @ CHR '':'' # ys) = show_int x" for x ys
    using show_int_no_colon [of x] by (subst takeWhile_append2) auto
  with e have "show_int i = show_int j" by metis
  with e show "i = j \<and> n = m" by (auto dest: show_int_inj)
qed simp

end
