(* ===== verification/ShopInv.thy ===== *)
theory ShopInv
  imports OrderProofs
begin

text \<open>
  The integrity of the shop's tables and its preservation by \<open>Create\<close> and \<open>Renew\<close>
  whatever the faults. An invariant that survives one placed order and one extended
  service survives both operations: the locale says so once, and each invariant below is
  an instance of it.
\<close>

section \<open>Invariants of order operations\<close>

locale order_invariant = table_invariant +
  assumes placed_keeps: "I s d \<Longrightarrow> item \<in> set (catalog_items d) \<Longrightarrow> c_id item = c \<Longrightarrow>
      c_vendor_id item = v \<Longrightarrow> can_place r v u c (c_price_toman item) k d \<Longrightarrow>
      I (placed_seq s) (placed r v u c (c_price_toman item) k s n d)"
    and extend_keeps: "I s d \<Longrightarrow> I s (extend_service i days n d)"
begin

lemma create_commit_keeps:
  assumes "holds I w" and "create_commit req (price_of_row item) w = (r, w')"
    and "item \<in> set (catalog_items (w_db w))" and "c_id item = R_CatalogID req"
    and "c_vendor_id item = R_VendorID req"
  shows "holds I w'"
proof -
  have seq: "w_seq w \<le> w_seq w'"
    using order_op_frames(1) assms(2) by (rule framed_seq)
  have eff: "holds I w'" if "order_effect req (c_price_toman item) w w'"
    using that assms(1,3-5) by (auto simp: order_effect_def holds_def intro: placed_keeps)
  have "w_db w' = w_db w \<or> order_effect req (c_price_toman item) w w'"
    using create_commit_outcomes [OF assms(2)] by (auto simp: price_of_row_def split: sum.splits)
  with eff assms(1) seq show ?thesis by (auto intro: holds_mono)
qed

lemma keeps_order_create: "keeps I (order_create req)"
  unfolding keeps_def
proof (intro allI impI)
  fix w
  assume w: "holds I w"
  obtain r w' where c: "order_create req w = (r, w')" by (cases "order_create req w")
  have "via framed_rel (order_create req)"
    unfolding order_create_def by (intro frame_intros)
  then have seq: "w_seq w \<le> w_seq w'" using c by (rule framed_seq)
  from c have "holds I w'"
  proof (cases rule: order_create_cases)
    case (fresh item w1)
    then have "item \<in> set (catalog_items (w_db w1))" "c_id item = R_CatalogID req"
      "c_vendor_id item = R_VendorID req" "holds I w1"
      using w by (auto simp: holds_def dest!: select_first_InrD)
    with fresh(5) show ?thesis by (auto intro: create_commit_keeps)
  qed (use w seq in \<open>auto intro: holds_mono\<close>)
  with c show "holds I (snd (order_create req w))" by simp
qed

lemma keeps_order_renew: "keeps I (order_renew u i)"
  unfolding keeps_def
proof (intro allI impI)
  fix w
  assume w: "holds I w"
  obtain r w' where c: "order_renew u i w = (r, w')" by (cases "order_renew u i w")
  have seq: "w_seq w \<le> w_seq w'" using order_op_frames(2) c by (rule framed_seq)
  have "w_db w' = w_db w \<or> renew_effect u i w w'"
    using order_renew_outcomes [OF c] by (auto split: sum.splits)
  then have "holds I w'"
  proof
    assume "renew_effect u i w w'"
    with w show ?thesis
      by (auto simp: renew_effect_def holds_def intro!: extend_keeps placed_keeps)
  qed (use w seq in \<open>auto intro: holds_mono\<close>)
  with c show "holds I (snd (order_renew u i w))" by simp
qed

end

lemma placed_simps [simp]:
  "users (placed r v u c p k s n d) = users d"
  "vendors (placed r v u c p k s n d) = vendors d"
  "service_catalog (placed r v u c p k s n d) = service_catalog d"
  "catalog_items (placed r v u c p k s n d) = catalog_items d"
  "proxies (placed r v u c p k s n d) = proxies d"
  "panels (placed r v u c p k s n d) = panels d"
  "audit_logs (placed r v u c p k s n d) = audit_logs d"
  "wallets (placed r v u c p k s n d) =
     wallets (post_wallet (wa_id r) u (- p) (wrap64 (- p)) ''order_debit'' (s TWalletTxs + 1) n d)"
  "wallet_txs (placed r v u c p k s n d) =
     wallet_txs (post_wallet (wa_id r) u (- p) (wrap64 (- p)) ''order_debit'' (s TWalletTxs + 1) n d)"
  by (simp_all add: placed_def)

lemma extend_service_simps [simp]:
  "users (extend_service i ds n d) = users d" "vendors (extend_service i ds n d) = vendors d"
  "wallets (extend_service i ds n d) = wallets d"
  "wallet_txs (extend_service i ds n d) = wallet_txs d"
  "service_catalog (extend_service i ds n d) = service_catalog d"
  "catalog_items (extend_service i ds n d) = catalog_items d"
  "orders (extend_service i ds n d) = orders d"
  "idem_keys (extend_service i ds n d) = idem_keys d" "jobs (extend_service i ds n d) = jobs d"
  "panels (extend_service i ds n d) = panels d"
  "audit_logs (extend_service i ds n d) = audit_logs d"
  by (simp_all add: extend_service_def)

lemma placed_seq_simps [simp]:
  "placed_seq s TOrders = s TOrders + 1" "placed_seq s TIdemKeys = s TIdemKeys + 1"
  "placed_seq s TJobs = s TJobs + 1" "placed_seq s TWalletTxs = s TWalletTxs + 1"
  "placed_seq s TWallets = s TWallets" "placed_seq s TUsers = s TUsers"
  "placed_seq s TVendors = s TVendors" "placed_seq s TCatalogItems = s TCatalogItems"
  "placed_seq s TProxies = s TProxies" "placed_seq s TPanels = s TPanels"
  "s \<le> placed_seq s"
  by (simp_all add: placed_seq_def le_fun_def)

section \<open>Orders, keys, jobs and debits agree\<close>

text \<open>
  The order table, the key table, the job table and the debits of the ledger list the same
  orders, in the same order: row by row, each order has its own key, its own job and one
  debit of its amount.
\<close>

definition order_key :: "order_row \<Rightarrow> int \<times> int \<times> string option \<times> int option" where
  "order_key r = (o_vendor_id r, o_user_id r, o_idempotency_key r, Some (o_id r))"

definition key_view :: "idem_row \<Rightarrow> int \<times> int \<times> string option \<times> int option" where
  "key_view k = (k_vendor_id k, k_user_id k, Some (k_key k), k_order_id k)"

definition order_debits :: "db \<Rightarrow> (int \<times> int) list" where
  "order_debits d = map (\<lambda>t. (wt_user_id t, wt_amount t))
     (filter (\<lambda>t. wt_type t = ''order_debit'') (wallet_txs d))"

definition shop_inv :: table_inv where
  "shop_inv s d \<longleftrightarrow>
     ids_ok (map o_id (orders d)) (s TOrders) \<and> ids_ok (map j_id (jobs d)) (s TJobs) \<and>
     ids_ok (map k_id (idem_keys d)) (s TIdemKeys) \<and>
     distinct (map (\<lambda>k. (k_vendor_id k, k_user_id k, k_key k)) (idem_keys d)) \<and>
     map key_view (idem_keys d) = map order_key (orders d) \<and>
     map (\<lambda>j. (j_vendor_id j, j_order_id j)) (jobs d) =
       map (\<lambda>r. (o_vendor_id r, o_id r)) (orders d) \<and>
     order_debits d = map (\<lambda>r. (o_user_id r, wrap64 (- o_amount r))) (orders d)"

lemma order_debits_placed:
  "order_debits (placed r v u c p k s n d) = order_debits d @ [(u, wrap64 (- p))]"
  by (simp add: order_debits_def post_wallet_def)

lemma shop_inv_placed:
  assumes "shop_inv s d" and "can_place r v u c p k d"
  shows "shop_inv (placed_seq s) (placed r v u c p k s n d)"
proof -
  from assms have ids: "ids_ok (map o_id (orders d) @ [s TOrders + 1]) (s TOrders + 1)"
    "ids_ok (map j_id (jobs d) @ [s TJobs + 1]) (s TJobs + 1)"
    "ids_ok (map k_id (idem_keys d) @ [s TIdemKeys + 1]) (s TIdemKeys + 1)"
    by (auto simp: shop_inv_def intro: ids_ok_snoc)
  have "(v, u, k) \<notin> (\<lambda>q. (k_vendor_id q, k_user_id q, k_key q)) ` set (idem_keys d)"
    using assms(2) by (auto simp: can_place_def list_ex_iff)
  with ids assms(1) show ?thesis
    unfolding shop_inv_def order_debits_placed
    by (simp add: placed_def order_key_def key_view_def)
qed

interpretation shop: order_invariant shop_inv
proof unfold_locales
  show "shop_inv s' d" if "shop_inv s d" "s \<le> s'" for s s' d
    using that by (auto simp: shop_inv_def le_fun_def intro: ids_ok_mono)
  show "shop_inv s (extend_service i days n d)" if "shop_inv s d" for s d i days n
    using that by (simp add: shop_inv_def order_debits_def)
qed (auto intro: shop_inv_placed)

text \<open>What the invariant says of one order, one key and one job.\<close>

lemma shop_key_order:
  assumes "shop_inv s d" and "k \<in> set (idem_keys d)"
  obtains r where "r \<in> set (orders d)" and "o_vendor_id r = k_vendor_id k"
    and "o_user_id r = k_user_id k" and "o_idempotency_key r = Some (k_key k)"
    and "k_order_id k = Some (o_id r)"
proof -
  have "key_view k \<in> set (map order_key (orders d))"
    using assms by (metis (no_types, lifting) image_eqI list.set_map shop_inv_def)
  with that show thesis by (auto simp: key_view_def order_key_def)
qed

lemma shop_order_key:
  assumes "shop_inv s d" and "r \<in> set (orders d)"
  obtains k where "k \<in> set (idem_keys d)" and "o_vendor_id r = k_vendor_id k"
    and "o_user_id r = k_user_id k" and "o_idempotency_key r = Some (k_key k)"
    and "k_order_id k = Some (o_id r)"
proof -
  have "order_key r \<in> set (map key_view (idem_keys d))"
    using assms by (metis (no_types, lifting) image_eqI list.set_map shop_inv_def)
  with that show thesis by (auto simp: key_view_def order_key_def)
qed

lemma shop_key_unique:
  assumes "shop_inv s d" and "k \<in> set (idem_keys d)" and "k' \<in> set (idem_keys d)"
    and "k_vendor_id k = k_vendor_id k'" "k_user_id k = k_user_id k'" "k_key k = k_key k'"
  shows "k = k'"
  using assms by (auto simp: shop_inv_def intro: distinct_map_eqD)

text \<open>At most one order for a vendor, a user and a key.\<close>

lemma shop_order_unique:
  assumes "shop_inv s d" and "r \<in> set (orders d)" and "r' \<in> set (orders d)"
    and "o_vendor_id r = o_vendor_id r'" "o_user_id r = o_user_id r'"
    and "o_idempotency_key r = o_idempotency_key r'"
  shows "r = r'"
proof -
  obtain k where k: "k \<in> set (idem_keys d)" "o_vendor_id r = k_vendor_id k"
    "o_user_id r = k_user_id k" "o_idempotency_key r = Some (k_key k)"
    "k_order_id k = Some (o_id r)" using assms(1,2) by (rule shop_order_key)
  obtain k' where k': "k' \<in> set (idem_keys d)" "o_vendor_id r' = k_vendor_id k'"
    "o_user_id r' = k_user_id k'" "o_idempotency_key r' = Some (k_key k')"
    "k_order_id k' = Some (o_id r')" using assms(1,3) by (rule shop_order_key)
  have "k = k'" using assms(1,4-6) k k' by (intro shop_key_unique) auto
  with k k' have "o_id r = o_id r'" by simp
  moreover have "distinct (map o_id (orders d))"
    using assms(1) by (auto simp: shop_inv_def dest: ids_ok_distinct)
  ultimately show ?thesis using assms(2,3) by (auto intro: distinct_map_eqD)
qed

section \<open>The books\<close>

text \<open>
  Every order costs the price of an item of its vendor, orders leave every balance the
  64-bit sum of its ledger entries, and they never overdraw a wallet.
\<close>

definition charged_inv :: table_inv where
  "charged_inv s d \<longleftrightarrow>
     (\<forall>r\<in>set (orders d). \<exists>c\<in>set (catalog_items d).
        c_id c = o_catalog_id r \<and> c_vendor_id c = o_vendor_id r \<and> o_amount r = c_price_toman c)"

definition solvent :: table_inv where
  "solvent s d \<longleftrightarrow> distinct (map wa_id (wallets d)) \<and> (\<forall>r\<in>set (wallets d). 0 \<le> wa_balance r)"

lemma ledger_inv_placed:
  assumes "ledger_inv s d" and "can_place r v u c p k d"
  shows "ledger_inv (placed_seq s) (placed r v u c p k s n d)"
proof -
  let ?p = "post_wallet (wa_id r) u (- p) (wrap64 (- p)) ''order_debit'' (s TWalletTxs + 1) n d"
  have "r \<in> set (wallets d)" using assms(2) by (auto simp: can_place_def dest: select_first_InrD)
  then have "ledger_inv s ?p"
    using assms by (intro ledger_inv_post) (simp_all add: can_place_def)
  then have "ledger_inv (placed_seq s) ?p" by (rule ledger.seq_mono) simp
  then show ?thesis by (subst ledger_inv_cong [of _ ?p]) simp_all
qed

interpretation ledger_orders: order_invariant ledger_inv
proof unfold_locales
  show "ledger_inv s (extend_service i days n d)" if "ledger_inv s d" for s d i days n
    using that by (simp add: ledger_inv_def ledger_sum_def)
qed (rule ledger_inv_placed)

interpretation charged: order_invariant charged_inv
proof unfold_locales
  show "charged_inv (placed_seq s) (placed r v u c (c_price_toman item) k s n d)"
    if "charged_inv s d" "item \<in> set (catalog_items d)" "c_id item = c" "c_vendor_id item = v"
    for s d item c v r u k n
    using that by (auto simp: charged_inv_def placed_def)
qed (simp_all add: charged_inv_def)

interpretation solvency: order_invariant solvent
proof unfold_locales
  show "solvent (placed_seq s) (placed r v u c (c_price_toman item) k s n d)"
    if s: "solvent s d" and c: "can_place r v u c (c_price_toman item) k d"
    for s d item c v r u k n
  proof -
    have r: "r \<in> set (wallets d)" using c by (auto simp: can_place_def dest: select_first_InrD)
    have "c_price_toman item \<le> wa_balance q" if "q \<in> set (wallets d)" "wa_id q = wa_id r" for q
    proof -
      have "q = r" using s r that by (auto simp: solvent_def intro: distinct_map_eqD)
      with c show ?thesis by (simp add: can_place_def)
    qed
    with s show ?thesis
      unfolding solvent_def placed_simps post_wallet_simps
      by (auto simp: post_wallet_def set_update_where)
  qed
qed (simp_all add: solvent_def)

interpretation catalog_orders: order_invariant catalog_inv
  by unfold_locales (simp_all add: catalog_inv_def)

interpretation proxy_orders: order_invariant proxy_inv
proof unfold_locales
  show "proxy_inv (placed_seq s) (placed r v u c (c_price_toman item) k s n d)"
    if "proxy_inv s d" for s d item c v r u k n
  proof -
    have "proxy_inv s (placed r v u c (c_price_toman item) k s n d)"
      using that by (rule proxy_inv_mono) (auto simp: placed_def)
    then show ?thesis by (rule proxy.seq_mono) simp
  qed
  show "proxy_inv s (extend_service i days n d)" if "proxy_inv s d" for s d i days n
    unfolding extend_service_def using that by (rule proxy_inv_update) simp_all
qed

text \<open>A user keeps having one wallet.\<close>

definition wallets_inv :: table_inv where
  "wallets_inv s d \<longleftrightarrow> one_wallet d"

interpretation wallets: order_invariant wallets_inv
  by unfold_locales (simp_all add: wallets_inv_def one_wallet_def)

end
