(* ===== verification/Base64.thy ===== *)
theory Base64
  imports Prelude
begin

text \<open>
  Unpadded base64 on byte strings as Go's \<open>encoding/base64\<close> does it (\<open>RawStdEncoding\<close>
  and \<open>RawURLEncoding\<close>): the encoder, and the lenient decoder, which skips line ends,
  rejects any other character outside the alphabet and a leftover single character, and
  ignores leftover bits. A Go string is a sequence of bytes, here a \<open>string\<close>.
\<close>

definition std_alphabet :: string where
  "std_alphabet = ''ABCDEFGHIJKLMNOPQRSTUVWXYZabcdefghijklmnopqrstuvwxyz0123456789+/''"

definition url_alphabet :: string where
  "url_alphabet = ''ABCDEFGHIJKLMNOPQRSTUVWXYZabcdefghijklmnopqrstuvwxyz0123456789-_''"

fun b64_digits :: "string \<Rightarrow> nat list" where
  "b64_digits [] = []"
| "b64_digits [a] = [byte a div 4, byte a mod 4 * 16]"
| "b64_digits [a, b] = [byte a div 4, byte a mod 4 * 16 + byte b div 16, byte b mod 16 * 4]"
| "b64_digits (a # b # c # s) =
     [byte a div 4, byte a mod 4 * 16 + byte b div 16, byte b mod 16 * 4 + byte c div 64,
      byte c mod 64] @ b64_digits s"

fun b64_bytes :: "nat list \<Rightarrow> string option" where
  "b64_bytes [] = Some []"
| "b64_bytes [p] = None"
| "b64_bytes [p, q] = Some [char_of (p * 4 + q div 16)]"
| "b64_bytes [p, q, r] = Some [char_of (p * 4 + q div 16), char_of (q mod 16 * 16 + r div 4)]"
| "b64_bytes (p # q # r # t # ds) =
     map_option (\<lambda>s. [char_of (p * 4 + q div 16), char_of (q mod 16 * 16 + r div 4),
       char_of (r mod 4 * 64 + t)] @ s) (b64_bytes ds)"

definition b64_index :: "string \<Rightarrow> char \<Rightarrow> nat option" where
  "b64_index al c = find (\<lambda>i. al ! i = c) [0..<64]"

fun b64_indices :: "string \<Rightarrow> string \<Rightarrow> nat list option" where
  "b64_indices al [] = Some []"
| "b64_indices al (c # s) =
     (if c = CHR 0x0A \<or> c = CHR 0x0D then b64_indices al s
      else case b64_index al c of
        None \<Rightarrow> None
      | Some i \<Rightarrow> map_option (Cons i) (b64_indices al s))"

definition b64_encode :: "string \<Rightarrow> string \<Rightarrow> string" where
  "b64_encode al s = map (\<lambda>d. al ! d) (b64_digits s)"

definition b64_decode :: "string \<Rightarrow> string \<Rightarrow> string option" where
  "b64_decode al s = Option.bind (b64_indices al s) b64_bytes"

section \<open>Round trip\<close>

definition alphabet_ok :: "string \<Rightarrow> bool" where
  "alphabet_ok al \<longleftrightarrow> length al = 64 \<and> distinct al \<and> CHR 0x0A \<notin> set al \<and> CHR 0x0D \<notin> set al"

lemma alphabets_ok [simp]: "alphabet_ok std_alphabet" "alphabet_ok url_alphabet"
  unfolding alphabet_ok_def std_alphabet_def url_alphabet_def by code_simp+

lemma byte_less: "byte c < 256"
  using nat_of_char_less_256 by simp

lemma digits_less:
  fixes a b c :: nat
  assumes "a < 256" and "b < 256"
  shows "a div 4 < 64" and "a mod 4 * 16 < 64" and "a mod 4 * 16 + b div 16 < 64"
    and "b mod 16 * 4 < 64" and "a mod 16 * 4 + b div 64 < 64" and "c mod 64 < 64"
proof -
  have "a mod 4 < 4" "b mod 16 < 16" "a mod 16 < 16" by simp_all
  moreover have "a div 4 < 64" "b div 16 < 16" "b div 64 < 4"
    using assms by (simp_all add: less_mult_imp_div_less)
  ultimately show "a div 4 < 64" and "a mod 4 * 16 < 64" and "a mod 4 * 16 + b div 16 < 64"
    and "b mod 16 * 4 < 64" and "a mod 16 * 4 + b div 64 < 64" and "c mod 64 < 64"
    by linarith+
qed

lemma b64_digits_less: "d \<in> set (b64_digits s) \<Longrightarrow> d < 64"
  by (induction s rule: b64_digits.induct) (auto simp: digits_less [OF byte_less byte_less])

lemma group_bytes:
  fixes a b c :: nat
  assumes "b < 256" and "c < 256"
  shows "a div 4 * 4 + (a mod 4 * 16 + b div 16) div 16 = a"
    and "a div 4 * 4 + a mod 4 * 16 div 16 = a"
    and "(a mod 4 * 16 + b div 16) mod 16 * 16 + b mod 16 * 4 div 4 = b"
    and "(a mod 4 * 16 + b div 16) mod 16 * 16 + (b mod 16 * 4 + c div 64) div 4 = b"
    and "(b mod 16 * 4 + c div 64) mod 4 * 64 + c mod 64 = c"
proof -
  have 1: "b div 16 < 16" and 2: "c div 64 < 4" using assms by (simp_all add: less_mult_imp_div_less)
  have 16: "(k * 16 + j) div 16 = k" "(k * 16 + j) mod 16 = j" if "j < 16" for j k :: nat
    using that by simp_all
  have 4: "(k * 4 + j) div 4 = k" "(k * 4 + j) mod 4 = j" if "j < 4" for j k :: nat
    using that by simp_all
  show "a div 4 * 4 + (a mod 4 * 16 + b div 16) div 16 = a"
    and "a div 4 * 4 + a mod 4 * 16 div 16 = a"
    and "(a mod 4 * 16 + b div 16) mod 16 * 16 + b mod 16 * 4 div 4 = b"
    and "(a mod 4 * 16 + b div 16) mod 16 * 16 + (b mod 16 * 4 + c div 64) div 4 = b"
    and "(b mod 16 * 4 + c div 64) mod 4 * 64 + c mod 64 = c"
    unfolding 16 [OF 1] 4 [OF 2] by (simp_all add: div_mult_mod_eq)
qed

lemma b64_bytes_digits: "b64_bytes (b64_digits s) = Some s"
  by (induction s rule: b64_digits.induct)
     (simp_all only: b64_digits.simps b64_bytes.simps append.simps option.simps char_of_char
       group_bytes [OF byte_less byte_less])

lemma b64_index_nth:
  assumes "alphabet_ok al" and "i < 64"
  shows "b64_index al (al ! i) = Some i"
proof -
  have "j = i" if "j < 64" "al ! j = al ! i" for j
    using assms that by (simp add: alphabet_ok_def nth_eq_iff_index_eq)
  with assms(2) show ?thesis
    unfolding b64_index_def find_Some_iff
    by (intro exI [of _ i]) (auto dest: less_trans)
qed

lemma b64_indices_encode:
  assumes "alphabet_ok al" and "\<forall>d\<in>set ds. d < 64"
  shows "b64_indices al (map (\<lambda>d. al ! d) ds) = Some ds"
  using assms(2)
proof (induction ds)
  case (Cons d ds)
  then have "al ! d \<in> set al" using assms(1) by (simp add: alphabet_ok_def)
  then have "al ! d \<noteq> CHR 0x0A" "al ! d \<noteq> CHR 0x0D"
    using assms(1) by (auto simp: alphabet_ok_def)
  with Cons assms(1) show ?case by (simp add: b64_index_nth)
qed simp

lemma b64_decode_encode:
  assumes "alphabet_ok al"
  shows "b64_decode al (b64_encode al s) = Some s"
proof -
  have "b64_indices al (map (\<lambda>d. al ! d) (b64_digits s)) = Some (b64_digits s)"
    using assms b64_digits_less by (intro b64_indices_encode) auto
  then show ?thesis by (simp add: b64_decode_def b64_encode_def b64_bytes_digits)
qed

lemma set_b64_encode: "alphabet_ok al \<Longrightarrow> set (b64_encode al s) \<subseteq> set al"
  using b64_digits_less by (fastforce simp: b64_encode_def alphabet_ok_def)

lemma no_dot_std: "CHR ''.'' \<notin> set (b64_encode std_alphabet s)"
proof -
  have "CHR ''.'' \<notin> set std_alphabet" unfolding std_alphabet_def by simp
  with set_b64_encode [OF alphabets_ok(1)] show ?thesis by blast
qed

lemma no_dot_url: "CHR ''.'' \<notin> set (b64_encode url_alphabet s)"
proof -
  have "CHR ''.'' \<notin> set url_alphabet" unfolding url_alphabet_def by simp
  with set_b64_encode [OF alphabets_ok(2)] show ?thesis by blast
qed

lemma length_b64_encode:
  "length (b64_encode al s) = (length s * 4 + 2) div 3"
  unfolding b64_encode_def
  by (induction s rule: b64_digits.induct) auto

lemma b64_encode_inj: "alphabet_ok al \<Longrightarrow> b64_encode al s = b64_encode al t \<Longrightarrow> s = t"
  by (metis b64_decode_encode option.inject)

end
