(* ===== verification/Security.thy ===== *)
theory Security
  imports Base64
begin

text \<open>
  Passwords and panel tokens: \<open>internal/security/password.go\<close> and
  \<open>internal/security/crypto.go\<close>. SHA-256 and AES-GCM are parameters of the definitions
  (a record of three functions); what the properties need of them is stated where they
  need it. The AEAD object for a derived key always exists, since the key has 32 bytes.
\<close>

record crypto =
  sha256 :: "string \<Rightarrow> string"
  gcm_seal :: "string \<Rightarrow> string \<Rightarrow> string \<Rightarrow> string"
  gcm_open :: "string \<Rightarrow> string \<Rightarrow> string \<Rightarrow> string option"

section \<open>Passwords\<close>

text \<open>\<open>salt\<close> stands for the sixteen bytes read from \<open>crypto/rand\<close>.\<close>

definition hash_password :: "crypto \<Rightarrow> string \<Rightarrow> string \<Rightarrow> err + string" where
  "hash_password C salt password =
     (if password = [] then Inl (ErrNew ''password required'')
      else Inr (b64_encode std_alphabet salt @ ''.'' @
        b64_encode std_alphabet (sha256 C (salt @ password))))"

text \<open>The parts before and after the first dot; both empty when there is none.\<close>

fun split_dot :: "string \<Rightarrow> string \<times> string" where
  "split_dot hash =
     (if CHR ''.'' \<in> set hash
      then (takeWhile (\<lambda>c. c \<noteq> CHR ''.'') hash, tl (dropWhile (\<lambda>c. c \<noteq> CHR ''.'') hash))
      else ([], []))"

definition compare_password :: "crypto \<Rightarrow> string \<Rightarrow> string \<Rightarrow> bool" where
  "compare_password C hash password =
     (let (a, b) = split_dot hash
      in case b64_decode std_alphabet a of
           None \<Rightarrow> False
         | Some s \<Rightarrow>
             (case b64_decode std_alphabet b of
                None \<Rightarrow> False
              | Some d \<Rightarrow> sha256 C (s @ password) = d))"

lemma split_dot_join: "CHR ''.'' \<notin> set a \<Longrightarrow> split_dot (a @ CHR ''.'' # b) = (a, b)"
  by (induction a) auto

lemma compare_hash:
  assumes "hash_password C salt pw = Inr h"
  shows "compare_password C h pw' \<longleftrightarrow> sha256 C (salt @ pw') = sha256 C (salt @ pw)"
proof -
  have h: "h = b64_encode std_alphabet salt @ CHR ''.'' #
      b64_encode std_alphabet (sha256 C (salt @ pw))"
    using assms by (simp add: hash_password_def split: if_splits)
  have "split_dot h = (b64_encode std_alphabet salt, b64_encode std_alphabet (sha256 C (salt @ pw)))"
    unfolding h by (rule split_dot_join) (rule no_dot_std)
  then show ?thesis
    by (simp add: compare_password_def b64_decode_encode)
qed

section \<open>Panel tokens\<close>

definition derive_key :: "crypto \<Rightarrow> string \<Rightarrow> string" where
  "derive_key C pass = sha256 C pass"

definition zero_nonce :: string where
  "zero_nonce = replicate 12 (CHR 0x00)"

definition encrypt :: "crypto \<Rightarrow> string \<Rightarrow> string \<Rightarrow> string" where
  "encrypt C passphrase plaintext =
     b64_encode std_alphabet
       (zero_nonce @ gcm_seal C (derive_key C passphrase) zero_nonce plaintext)"

definition decrypt :: "crypto \<Rightarrow> string \<Rightarrow> string \<Rightarrow> err + string" where
  "decrypt C passphrase cipherText =
     (case b64_decode std_alphabet cipherText of
        None \<Rightarrow> Inl (ErrNew ''illegal base64 data'')
      | Some raw \<Rightarrow>
          if length raw < 12 then Inl (ErrNew ''ciphertext too short'')
          else (case gcm_open C (derive_key C passphrase) (take 12 raw) (drop 12 raw) of
                  None \<Rightarrow> Inl (ErrNew ''cipher: message authentication failed'')
                | Some pt \<Rightarrow> Inr pt))"

text \<open>
  What \<open>crypto/cipher\<close> documents of an AEAD: \<open>Open\<close> with the same key and nonce gives back
  what \<open>Seal\<close> took.
\<close>

definition aead_ok :: "crypto \<Rightarrow> bool" where
  "aead_ok C \<longleftrightarrow> (\<forall>k n p. gcm_open C k n (gcm_seal C k n p) = Some p)"

lemma decrypt_encrypt: "aead_ok C \<Longrightarrow> decrypt C pass (encrypt C pass s) = Inr s"
  by (simp add: decrypt_def encrypt_def b64_decode_encode aead_ok_def zero_nonce_def)

text \<open>The nonce is constant, so equal tokens have equal ciphertexts and conversely.\<close>

lemma encrypt_eq_iff: "aead_ok C \<Longrightarrow> encrypt C pass s = encrypt C pass t \<longleftrightarrow> s = t"
  by (metis decrypt_encrypt sum.inject(2))

lemma decrypt_short:
  "b64_decode std_alphabet c = Some raw \<Longrightarrow> length raw < 12 \<Longrightarrow>
     decrypt C pass c = Inl (ErrNew ''ciphertext too short'')"
  by (simp add: decrypt_def)

end
