(* ===== verification/PanelRepo.thy ===== *)
theory PanelRepo
  imports StoreInv Security
begin

text \<open>
  The panels of a vendor: the \<open>XUIPanelRepository\<close> of
  \<open>internal/repository/proxy_repository.go\<close>. The token is stored encrypted and decrypted
  on the way out; one row that does not decrypt makes the whole listing fail.
\<close>

record XUIPanelRecord =
  XP_ID :: int
  XP_VendorID :: int
  XP_Name :: string
  XP_URL :: string
  XP_Token :: string
  XP_InboundID :: int
  XP_IsActive :: bool
  XP_Health :: string
  XP_LastChecked :: "int option"

definition sql_insert_panel :: "XUIPanelRecord \<Rightarrow> string \<Rightarrow> int \<Rightarrow> int \<Rightarrow> db \<Rightarrow> err + db" where
  "sql_insert_panel rc enc i now d =
     (if \<not> has_vendor d (XP_VendorID rc) then Inl (ErrForeignKey ''xui_panels_vendor_id_fkey'')
      else Inr (d\<lparr>panels := panels d @
        [\<lparr>x_id = i, x_vendor_id = XP_VendorID rc, x_name = XP_Name rc, x_url = XP_URL rc,
          x_token = enc, x_inbound_id = XP_InboundID rc, x_is_active = XP_IsActive rc,
          x_health = ''unknown'', x_last_checked = None, x_updated_at = now,
          x_deleted_at = None\<rparr>]\<rparr>))"

definition panel_create :: "crypto \<Rightarrow> string \<Rightarrow> XUIPanelRecord \<Rightarrow> int act" where
  "panel_create C pass rc =
     insert_returning TPanels (sql_insert_panel rc (encrypt C pass (XP_Token rc)))"

definition panel_of_row :: "crypto \<Rightarrow> string \<Rightarrow> panel_row \<Rightarrow> err + XUIPanelRecord" where
  "panel_of_row C pass r =
     map_sum id (\<lambda>tok.
       \<lparr>XP_ID = x_id r, XP_VendorID = x_vendor_id r, XP_Name = x_name r, XP_URL = x_url r,
        XP_Token = tok, XP_InboundID = x_inbound_id r, XP_IsActive = x_is_active r,
        XP_Health = x_health r, XP_LastChecked = None\<rparr>) (decrypt C pass (x_token r))"

abbreviation live_panel :: "int \<Rightarrow> panel_row \<Rightarrow> bool" where
  "live_panel vendorID r \<equiv> x_vendor_id r = vendorID \<and> x_deleted_at r = None"

definition panel_first_active :: "crypto \<Rightarrow> string \<Rightarrow> int \<Rightarrow> XUIPanelRecord act" where
  "panel_first_active C pass vendorID =
     andThen (query (\<lambda>d. select_first (\<lambda>r. live_panel vendorID r \<and> x_is_active r)
       (order_by x_id (panels d)))) (\<lambda>r.
     lift_res (panel_of_row C pass r))"

definition sql_panel_health :: "int \<Rightarrow> string \<Rightarrow> int \<Rightarrow> db \<Rightarrow> err + db" where
  "sql_panel_health i health now d =
     Inr (d\<lparr>panels := update_where (\<lambda>r. x_id r = i)
       (\<lambda>r. r\<lparr>x_health := health, x_last_checked := Some now, x_updated_at := now\<rparr>) (panels d)\<rparr>)"

definition panel_update_health :: "int \<Rightarrow> string \<Rightarrow> unit act" where
  "panel_update_health i health = exec (sql_panel_health i health)"

fun scan_panels :: "crypto \<Rightarrow> string \<Rightarrow> panel_row list \<Rightarrow> err + XUIPanelRecord list" where
  "scan_panels C pass [] = Inr []"
| "scan_panels C pass (r # rs) =
     (case panel_of_row C pass r of
        Inl e \<Rightarrow> Inl e
      | Inr p \<Rightarrow> map_sum id (Cons p) (scan_panels C pass rs))"

definition panel_list_by_vendor :: "crypto \<Rightarrow> string \<Rightarrow> int \<Rightarrow> XUIPanelRecord list act" where
  "panel_list_by_vendor C pass vendorID =
     andThen (query (\<lambda>d. Inr (order_by x_id (filter (live_panel vendorID) (panels d)))))
       (\<lambda>rows. lift_res (scan_panels C pass rows))"

lemmas [sql_defs] = sql_insert_panel_def sql_panel_health_def

lemma panel_frames [frame_intros]:
  "via framed_rel (panel_create C p rc)" "via silent_rel (panel_create C p rc)"
  "via framed_rel (panel_first_active C p v)" "via silent_rel (panel_first_active C p v)"
  "via framed_rel (panel_update_health i h)" "via silent_rel (panel_update_health i h)"
  "via framed_rel (panel_list_by_vendor C p v)" "via silent_rel (panel_list_by_vendor C p v)"
  unfolding panel_create_def panel_first_active_def panel_update_health_def panel_list_by_vendor_def
  by (intro frame_intros)+

lemma panel_quiet [quiet_intros]:
  "via quiet_rel (panel_first_active C pass v)" "via quiet_rel (panel_list_by_vendor C pass v)"
  unfolding panel_first_active_def panel_list_by_vendor_def by (intro quiet_intros)+

section \<open>Every stored token decrypts\<close>

definition panel_inv :: "crypto \<Rightarrow> string \<Rightarrow> table_inv" where
  "panel_inv C pass s d \<longleftrightarrow>
     ids_ok (map x_id (panels d)) (s TPanels) \<and>
     (\<forall>r\<in>set (panels d). x_vendor_id r \<in> v_id ` set (vendors d) \<and>
        (\<exists>tok. x_token r = encrypt C pass tok))"

interpretation panel: table_invariant "panel_inv C pass" for C pass
  by unfold_locales (auto simp: panel_inv_def le_fun_def intro: ids_ok_mono)

lemma panel_create_keeps: "keeps (panel_inv C pass) (panel_create C pass rc)"
  unfolding panel_create_def
proof (rule panel.keeps_insert_returning)
  fix n s d d'
  assume i: "sql_insert_panel rc (encrypt C pass (XP_Token rc)) (s TPanels + 1) n d = Inr d'"
    and I: "panel_inv C pass s d"
  from I have "ids_ok (map x_id (panels d) @ [s TPanels + 1]) (s TPanels + 1)"
    by (auto simp: panel_inv_def intro: ids_ok_snoc)
  with i I show "panel_inv C pass (s(TPanels := s TPanels + 1)) d'"
    by (auto simp: sql_insert_panel_def panel_inv_def has_iffs split: if_splits) blast
qed

lemma panel_health_keeps: "keeps (panel_inv C pass) (panel_update_health i h)"
  unfolding panel_update_health_def
  by (rule panel.keeps_exec)
     (auto simp: sql_panel_health_def panel_inv_def map_update_where set_update_where)

lemma panel_of_row_encrypted:
  assumes "aead_ok C" and "x_token r = encrypt C pass tok"
  shows "panel_of_row C pass r = Inr \<lparr>XP_ID = x_id r, XP_VendorID = x_vendor_id r,
     XP_Name = x_name r, XP_URL = x_url r, XP_Token = tok, XP_InboundID = x_inbound_id r,
     XP_IsActive = x_is_active r, XP_Health = x_health r, XP_LastChecked = None\<rparr>"
  using assms by (simp add: panel_of_row_def decrypt_encrypt)

lemma scan_panels_total:
  assumes "aead_ok C" and "\<forall>r\<in>set rs. \<exists>tok. x_token r = encrypt C pass tok"
  shows "\<exists>ps. scan_panels C pass rs = Inr ps \<and> map XP_ID ps = map x_id rs \<and>
     map (\<lambda>p. encrypt C pass (XP_Token p)) ps = map x_token rs"
  using assms(2)
proof (induction rs)
  case (Cons r rs)
  then obtain tok ps where "x_token r = encrypt C pass tok" "scan_panels C pass rs = Inr ps"
    "map XP_ID ps = map x_id rs" "map (\<lambda>p. encrypt C pass (XP_Token p)) ps = map x_token rs"
    by auto
  with panel_of_row_encrypted [OF assms(1), of r pass tok] show ?case by simp
qed simp

text \<open>With the tokens as the program stores them, a listing fails only if the query does.\<close>

lemma panel_list_total:
  assumes "aead_ok C" and "holds (panel_inv C pass) w" and "next_fault w = FOk"
  shows "\<exists>ps. panel_list_by_vendor C pass v w = (Inr ps, pop w) \<and>
     map XP_ID ps = map x_id (order_by x_id (filter (live_panel v) (panels (w_db w))))"
proof -
  let ?rs = "order_by x_id (filter (live_panel v) (panels (w_db w)))"
  have "\<forall>r\<in>set ?rs. \<exists>tok. x_token r = encrypt C pass tok"
    using assms(2) by (simp add: holds_def panel_inv_def)
  from scan_panels_total [OF assms(1) this]
  obtain ps where "scan_panels C pass ?rs = Inr ps" "map XP_ID ps = map x_id ?rs" by blast
  with assms(3) show ?thesis
    by (simp add: panel_list_by_vendor_def andThen_def query_def roundtrip_def lift_res_def ret_def)
qed

lemma panel_first_active_Inr:
  assumes "panel_first_active C pass v w = (Inr p, w')"
  obtains r where "r \<in> set (panels (w_db w))" and "x_vendor_id r = v" and "x_is_active r"
    and "panel_of_row C pass r = Inr p" and "w' = pop w"
  using assms by (auto simp: panel_first_active_def act_simps dest!: select_first_InrD)

end
