(* ===== verification/Xui.thy ===== *)
theory Xui
  imports StoreInv
begin

text \<open>
  The client of the x-ui panels: \<open>internal/xui/client.go\<close> and \<open>internal/xui/adapter.go\<close>.
  A request that was answered has reached the panel; so has, for all the client knows, one
  that was not. The panel URL is free text: \<open>url_ok\<close> stands for \<open>net/url\<close>'s parser, and
  the error \<open>http.NewRequestWithContext\<close> returns for a URL it rejects is dropped by the
  code, whose next statement then panics on the nil request.
\<close>

record Panel =
  X_VendorID :: int
  X_Name :: string
  X_URL :: string
  X_Token :: string
  X_InboundID :: int

record ProvisionRequest =
  XQ_VendorID :: int
  XQ_UserID :: int
  XQ_Email :: string
  XQ_Protocol :: string
  XQ_UUID :: string
  XQ_DurationDays :: int
  XQ_TrafficGB :: int

record ProvisionResponse =
  XR_UUID :: string
  XR_ExpiresAt :: int

section \<open>One request\<close>

text \<open>The body sent, and the fields of the body received: a field it lacks is zero.\<close>

definition create_req_text :: "createReq \<Rightarrow> string" where
  "create_req_text q = json_text (JObj
     [(''inbound_id'', JInt (CQ_InboundID q)), (''email'', JStr (CQ_Email q)),
      (''uuid'', JStr (CQ_UUID q)), (''expiry_unix'', JInt (CQ_ExpiryUnix q)),
      (''traffic_gb'', JInt (CQ_TrafficGB q))])"

definition create_resp :: "(string \<times> json) list \<Rightarrow> (string \<times> int) option" where
  "create_resp ob =
     (case (str_field ''uuid'' ob, int_field ''expires_at'' ob) of
        (Some u, Some t) \<Rightarrow> Some (u, t)
      | _ \<Rightarrow> None)"

definition create_client ::
  "(string \<Rightarrow> bool) \<Rightarrow> Panel \<Rightarrow> int \<Rightarrow> string \<Rightarrow> string \<Rightarrow> int \<Rightarrow> int \<Rightarrow> ProvisionResponse act"
where
  "create_client url_ok panel inboundID email uuid expiryUnix trafficGB w =
     (let url = X_URL panel @ ''/api/clients'' in
      if \<not> url_ok url then (Inl (ErrPanic ''nil *http.Request''), w)
      else
        let req = \<lparr>CQ_URL = url, CQ_Authorization = ''Bearer '' @ X_Token panel,
              CQ_InboundID = inboundID, CQ_Email = email, CQ_UUID = uuid,
              CQ_ExpiryUnix = expiryUnix, CQ_TrafficGB = trafficGB\<rparr>;
            w1 = w\<lparr>w_replies := tl (w_replies w), w_sent := req # w_sent w\<rparr>
        in case w_replies w of
             [] \<Rightarrow> (Inl ErrNet, w1)
           | NoReply # _ \<Rightarrow> (Inl ErrNet, w1)
           | Reply status body # _ \<Rightarrow>
               if 300 \<le> status then (Inl (ErrStatus ''xui create failed status='' status), w1)
               else (case decode_struct create_resp (decode_first body) of
                  None \<Rightarrow> (Inl ErrDecode, w1)
                | Some (u, t) \<Rightarrow>
                    (Inr \<lparr>XR_UUID = u, XR_ExpiresAt = t * 1000000000\<rparr>, w1)))"

section \<open>The adapter\<close>

text \<open>\<open>time.Duration(days) * 24 * time.Hour\<close> wraps around: it is a 64-bit integer.\<close>

definition duration_days :: "int \<Rightarrow> int" where
  "duration_days days = wrap64 (wrap64 (days * 24) * 3600000000000)"

definition unix :: "int \<Rightarrow> int" where
  "unix t = t div 1000000000"

fun is_panic :: "err \<Rightarrow> bool" where
  "is_panic (ErrPanic _) = True"
| "is_panic _ = False"

text \<open>The loop of \<open>MultiPanelAdapter.Provision\<close>: \<open>n\<close> attempts are left, \<open>lst\<close> is \<open>last\<close>.\<close>

fun provision_loop ::
  "(string \<Rightarrow> bool) \<Rightarrow> Panel \<Rightarrow> ProvisionRequest \<Rightarrow> int \<Rightarrow> nat \<Rightarrow> err \<Rightarrow> ProvisionResponse act"
where
  "provision_loop url_ok panel req expr 0 lst w =
     (Inl (ErrWrap ''provision failed after retries'' lst), w)"
| "provision_loop url_ok panel req expr (Suc n) lst w =
     (case create_client url_ok panel (X_InboundID panel) (XQ_Email req) (XQ_UUID req) expr
             (XQ_TrafficGB req) w of
        (Inr out, w1) \<Rightarrow> (Inr out, w1)
      | (Inl e, w1) \<Rightarrow>
          if is_panic e then (Inl e, w1)
          else provision_loop url_ok panel req expr n e w1)"

definition multi_provision ::
  "(string \<Rightarrow> bool) \<Rightarrow> Panel \<Rightarrow> ProvisionRequest \<Rightarrow> ProvisionResponse act" where
  "multi_provision url_ok panel req w =
     provision_loop url_ok panel req (unix (w_nano w + duration_days (XQ_DurationDays req))) 3
       (ErrNew ''%!w(<nil>)'') w"

definition multi_renew ::
  "(string \<Rightarrow> bool) \<Rightarrow> Panel \<Rightarrow> string \<Rightarrow> int \<Rightarrow> int \<Rightarrow> ProvisionResponse act" where
  "multi_renew url_ok panel uuid addDays addGB =
     multi_provision url_ok panel
       \<lparr>XQ_VendorID = 0, XQ_UserID = 0, XQ_Email = uuid, XQ_Protocol = [], XQ_UUID = uuid,
        XQ_DurationDays = addDays, XQ_TrafficGB = addGB\<rparr>"

section \<open>The interface the services rely on\<close>

text \<open>
  \<open>xui.Adapter\<close>: provisioning talks to panels only; tables, sequences, clocks and the
  hub are as before.
\<close>

definition offline_rel :: "world \<Rightarrow> world \<Rightarrow> bool" where
  "offline_rel w w' \<longleftrightarrow>
     w_db w' = w_db w \<and> w_seq w' = w_seq w \<and> w_faults w' = w_faults w \<and>
     w_now w' = w_now w \<and> w_nano w' = w_nano w \<and> w_hub w' = w_hub w"

locale panel_adapter =
  fixes provision :: "Panel \<Rightarrow> ProvisionRequest \<Rightarrow> ProvisionResponse act"
  assumes provision_offline: "provision p q w = (r, w') \<Longrightarrow> offline_rel w w'"
begin

lemma provision_framed: "via framed_rel (provision p q)"
  unfolding via_def
proof
  fix w
  show "framed_rel w (snd (provision p q w))"
    using provision_offline [of p q w "fst (provision p q w)" "snd (provision p q w)"]
    by (simp add: offline_rel_def framed_rel_def)
qed

end

lemma offline_rel_refl: "offline_rel w w"
  by (simp add: offline_rel_def)

lemma offline_rel_trans: "offline_rel w w1 \<Longrightarrow> offline_rel w1 w2 \<Longrightarrow> offline_rel w w2"
  by (simp add: offline_rel_def)

lemma create_client_offline:
  "create_client url_ok p i em u ex t w = (r, w') \<Longrightarrow> offline_rel w w'"
  by (auto simp: create_client_def offline_rel_def Let_def
      split: if_splits list.splits reply.splits option.splits)

lemma provision_loop_offline: "provision_loop url_ok p q ex n l w = (r, w') \<Longrightarrow> offline_rel w w'"
proof (induction n arbitrary: l w)
  case 0
  then show ?case by (simp add: offline_rel_refl)
next
  case (Suc n)
  obtain x w1 where c: "create_client url_ok p (X_InboundID p) (XQ_Email q) (XQ_UUID q) ex
      (XQ_TrafficGB q) w = (x, w1)" by fastforce
  then have o1: "offline_rel w w1" by (rule create_client_offline)
  with c Suc.prems show ?case
    by (auto split: sum.splits if_splits dest: Suc.IH intro: offline_rel_trans)
qed

interpretation multi: panel_adapter "multi_provision url_ok" for url_ok
  by unfold_locales (auto simp: multi_provision_def dest: provision_loop_offline)

section \<open>Retries\<close>

definition good_reply :: "reply \<Rightarrow> bool" where
  "good_reply r \<longleftrightarrow>
     (\<exists>st b. r = Reply st b \<and> st < 300 \<and> decode_struct create_resp (decode_first b) \<noteq> None)"

text \<open>
  The loop sends at most as many requests as it has attempts, all alike, and succeeds
  exactly when one of the next replies is good.
\<close>

lemma provision_loop_Inr:
  assumes "url_ok (X_URL p @ ''/api/clients'')"
  shows "(\<exists>out. fst (provision_loop url_ok p q ex n l w) = Inr out) \<longleftrightarrow>
     (\<exists>r\<in>set (take n (w_replies w)). good_reply r)"
proof (induction n arbitrary: l w)
  case (Suc n)
  let ?c = "create_client url_ok p (X_InboundID p) (XQ_Email q) (XQ_UUID q) ex (XQ_TrafficGB q) w"
  show ?case
  proof (cases "w_replies w")
    case Nil
    with assms Suc show ?thesis by (simp add: create_client_def Let_def)
  next
    case (Cons r rs)
    with assms Suc show ?thesis
      by (cases r) (auto simp: create_client_def Let_def good_reply_def split: option.splits)
  qed
qed simp

lemma provision_loop_sent:
  assumes "provision_loop url_ok p q ex n l w = (r, w')"
  shows "\<exists>k\<le>n. w_sent w' = replicate k \<lparr>CQ_URL = X_URL p @ ''/api/clients'',
     CQ_Authorization = ''Bearer '' @ X_Token p, CQ_InboundID = X_InboundID p,
     CQ_Email = XQ_Email q, CQ_UUID = XQ_UUID q, CQ_ExpiryUnix = ex,
     CQ_TrafficGB = XQ_TrafficGB q\<rparr> @ w_sent w"
  using assms
proof (induction n arbitrary: l w)
  case (Suc n)
  let ?rq = "\<lparr>CQ_URL = X_URL p @ ''/api/clients'',
     CQ_Authorization = ''Bearer '' @ X_Token p, CQ_InboundID = X_InboundID p,
     CQ_Email = XQ_Email q, CQ_UUID = XQ_UUID q, CQ_ExpiryUnix = ex,
     CQ_TrafficGB = XQ_TrafficGB q\<rparr>"
  obtain x w1 where c: "create_client url_ok p (X_InboundID p) (XQ_Email q) (XQ_UUID q) ex
      (XQ_TrafficGB q) w = (x, w1)" by fastforce
  then have s: "w_sent w1 = w_sent w \<or> w_sent w1 = ?rq # w_sent w"
    by (auto simp: create_client_def Let_def split: if_splits list.splits reply.splits option.splits)
  show ?case
  proof (cases "\<exists>e. x = Inl e \<and> \<not> is_panic e")
    case True
    with c Suc.prems obtain e where "provision_loop url_ok p q ex n e w1 = (r, w')" by auto
    from Suc.IH [OF this] obtain k where k: "k \<le> n" "w_sent w' = replicate k ?rq @ w_sent w1"
      by auto
    from s show ?thesis
    proof
      assume "w_sent w1 = w_sent w"
      with k show ?thesis by (intro exI [of _ k]) simp
    next
      assume "w_sent w1 = ?rq # w_sent w"
      with k show ?thesis
        by (intro exI [of _ "Suc k"]) (simp add: replicate_append_same flip: replicate_Suc)
    qed
  next
    case False
    with c Suc.prems have "w' = w1" by (auto split: sum.splits if_splits)
    from s show ?thesis
    proof
      assume "w_sent w1 = w_sent w"
      with \<open>w' = w1\<close> show ?thesis by (intro exI [of _ 0]) simp
    next
      assume "w_sent w1 = ?rq # w_sent w"
      with \<open>w' = w1\<close> show ?thesis by (intro exI [of _ 1]) simp
    qed
  qed
qed simp

end
