(* ===== verification/ProxyService.thy ===== *)
theory ProxyService
  imports PanelRepo ProxyRepo Xui Decimal "HOL-Library.Word"
begin

text \<open>
  The proxy service, \<open>internal/proxy/service.go\<close>: manual provisioning, suspension,
  resumption and the expiry job, with the generator of version 4 UUIDs.
\<close>

unbundle bit_operations_syntax

section \<open>UUIDs\<close>

text \<open>\<open>hex.EncodeToString\<close>: two digits per byte, the high one first.\<close>

definition hex_digit :: "8 word \<Rightarrow> char" where
  "hex_digit x = ''0123456789abcdef'' ! (unat x mod 16)"

definition hex_byte :: "8 word \<Rightarrow> string" where
  "hex_byte b = [hex_digit (drop_bit 4 b), hex_digit (b AND 0x0F)]"

definition hex_encode :: "8 word list \<Rightarrow> string" where
  "hex_encode bs = concat (map hex_byte bs)"

text \<open>\<open>rnd\<close> is what \<open>rand.Read\<close> put into the sixteen bytes.\<close>

definition uuid_bytes :: "8 word list \<Rightarrow> 8 word list" where
  "uuid_bytes rnd =
     (let b = rnd[6 := (rnd ! 6 AND 0x0F) OR 0x40]
      in b[8 := (b ! 8 AND 0x3F) OR 0x80])"

definition generate_uuid :: "8 word list \<Rightarrow> string" where
  "generate_uuid rnd =
     (let b = uuid_bytes rnd
      in hex_encode (take 4 b) @ ''-'' @ hex_encode (take 2 (drop 4 b)) @ ''-'' @
         hex_encode (take 2 (drop 6 b)) @ ''-'' @ hex_encode (take 2 (drop 8 b)) @ ''-'' @
         hex_encode (drop 10 b))"

definition build_subscription_url :: "string \<Rightarrow> string \<Rightarrow> string" where
  "build_subscription_url panelURL uuid = panelURL @ ''/sub/'' @ uuid"

section \<open>Provision\<close>

record ServiceRequest =
  SQ_VendorID :: int
  SQ_UserID :: int
  SQ_OrderID :: "int option"
  SQ_Protocol :: string
  SQ_TrafficLimitGB :: int
  SQ_DurationDays :: int

record ServiceResponse =
  SR_ServiceID :: int
  SR_UUID :: string
  SR_SubscriptionURL :: string
  SR_ExpiresAt :: int
  SR_Status :: string

definition provision_record ::
  "XUIPanelRecord \<Rightarrow> ServiceRequest \<Rightarrow> string \<Rightarrow> int \<Rightarrow> ProxyServiceRecord" where
  "provision_record panel req uuid expiresAt =
     (let subURL = build_subscription_url (XP_URL panel) uuid in
      \<lparr>PS_ID = 0, PS_VendorID = SQ_VendorID req, PS_UserID = SQ_UserID req,
       PS_OrderID = SQ_OrderID req, PS_PanelID = Some (XP_ID panel), PS_UUID = uuid,
       PS_Protocol = SQ_Protocol req, PS_SubscriptionURL = subURL, PS_QRPayload = subURL,
       PS_ConfigPayload = [], PS_Status = ''provisioning'', PS_ExpiresAt = Some expiresAt,
       PS_TrafficUsedGB = 0, PS_TrafficLimitGB = SQ_TrafficLimitGB req,
       PS_DurationDays = SQ_DurationDays req, PS_CreatedAt = 0, PS_UpdatedAt = 0\<rparr>)"

definition settle_provision ::
  "(string \<Rightarrow> bool) \<Rightarrow> XUIPanelRecord \<Rightarrow> ServiceRequest \<Rightarrow> string \<Rightarrow> int \<Rightarrow> int \<Rightarrow> ServiceResponse act"
where
  "settle_provision url_ok panel req uuid expiresAt serviceID =
     attempt (multi_provision url_ok
         \<lparr>X_VendorID = XP_VendorID panel, X_Name = XP_Name panel, X_URL = XP_URL panel,
          X_Token = XP_Token panel, X_InboundID = XP_InboundID panel\<rparr>
         \<lparr>XQ_VendorID = SQ_VendorID req, XQ_UserID = SQ_UserID req, XQ_Email = [],
          XQ_Protocol = SQ_Protocol req, XQ_UUID = uuid, XQ_DurationDays = SQ_DurationDays req,
          XQ_TrafficGB = SQ_TrafficLimitGB req\<rparr>)
       (\<lambda>e. if is_panic e then fail e
          else andThen (orElse () (proxy_update_status (SQ_VendorID req) serviceID ''failed''))
            (\<lambda>_. fail (ErrWrap ''xui provision'' e)))
       (\<lambda>_. andThen (orElse () (proxy_update_status (SQ_VendorID req) serviceID ''active'')) (\<lambda>_.
          andThen (notifyAct ''service.provisioned''
            [(''service_id'', JInt serviceID), (''vendor_id'', JInt (SQ_VendorID req)),
             (''user_id'', JInt (SQ_UserID req)), (''uuid'', JStr uuid)]) (\<lambda>_.
          ret \<lparr>SR_ServiceID = serviceID, SR_UUID = uuid,
            SR_SubscriptionURL = build_subscription_url (XP_URL panel) uuid,
            SR_ExpiresAt = expiresAt, SR_Status = ''active''\<rparr>)))"

definition proxy_provision ::
  "crypto \<Rightarrow> string \<Rightarrow> (string \<Rightarrow> bool) \<Rightarrow> 8 word list \<Rightarrow> ServiceRequest \<Rightarrow> ServiceResponse act" where
  "proxy_provision C pass url_ok rnd req =
     andThen (onErr (ErrWrap (''no active panel for vendor '' @ show_int (SQ_VendorID req)))
       (panel_first_active C pass (SQ_VendorID req))) (\<lambda>panel.
     andThen getNano (\<lambda>now.
     let uuid = generate_uuid rnd; expiresAt = now + duration_days (SQ_DurationDays req) in
     andThen (transaction (ErrWrap ''begin tx'') (ErrWrap ''commit'')
       (onErr (ErrWrap ''create proxy service'')
         (proxy_create_tx (provision_record panel req uuid expiresAt)))) (\<lambda>serviceID.
     settle_provision url_ok panel req uuid expiresAt serviceID)))"

section \<open>Suspend, resume, expire\<close>

definition service_suspend :: "int \<Rightarrow> int \<Rightarrow> unit act" where
  "service_suspend vendorID serviceID =
     andThen (onErr (ErrWrap ''service not found'') (proxy_by_id vendorID serviceID)) (\<lambda>rc.
     if PS_Status rc = ''suspended'' then fail (ErrNew ''service already suspended'')
     else andThen (proxy_suspend vendorID serviceID) (\<lambda>_.
       notifyAct ''service.suspended''
         [(''service_id'', JInt serviceID), (''vendor_id'', JInt vendorID)]))"

definition service_resume :: "int \<Rightarrow> int \<Rightarrow> unit act" where
  "service_resume vendorID serviceID =
     andThen (onErr (ErrWrap ''service not found'') (proxy_by_id vendorID serviceID)) (\<lambda>rc.
     if PS_Status rc \<noteq> ''suspended'' then fail (ErrNew ''service is not suspended'')
     else andThen (proxy_resume vendorID serviceID) (\<lambda>_.
       notifyAct ''service.resumed''
         [(''service_id'', JInt serviceID), (''vendor_id'', JInt vendorID)]))"

text \<open>\<open>RunExpiryJob\<close> only logs what it gets.\<close>

definition run_expiry_job :: "unit act" where
  "run_expiry_job = andThen (orElse 0 proxy_mark_expired) (\<lambda>_. ret ())"

definition service_get_by_id :: "int \<Rightarrow> int \<Rightarrow> ProxyServiceRecord act" where
  "service_get_by_id vendorID serviceID = proxy_by_id vendorID serviceID"

definition service_list_by_user :: "int \<Rightarrow> int \<Rightarrow> ProxyServiceRecord list act" where
  "service_list_by_user vendorID userID = proxy_list_by_user vendorID userID"

section \<open>Properties of UUIDs\<close>

lemma length_hex_byte [simp]: "length (hex_byte b) = 2"
  by (simp add: hex_byte_def)

lemma length_hex_encode [simp]: "length (hex_encode bs) = 2 * length bs"
  by (induction bs) (simp_all add: hex_encode_def)

lemma length_uuid_bytes [simp]: "length (uuid_bytes rnd) = length rnd"
  by (simp add: uuid_bytes_def Let_def)

lemma hex_digit_inj: "hex_digit x = hex_digit y \<Longrightarrow> unat x < 16 \<Longrightarrow> unat y < 16 \<Longrightarrow> x = y"
proof -
  assume "hex_digit x = hex_digit y" and b: "unat x < 16" "unat y < 16"
  then have "''0123456789abcdef'' ! unat x = ''0123456789abcdef'' ! unat y"
    by (simp add: hex_digit_def)
  moreover have "distinct ''0123456789abcdef''" by simp
  ultimately have "unat x = unat y" using b by (subst (asm) nth_eq_iff_index_eq) simp_all
  then show "x = y" by (simp only: word_unat_eq_iff)
qed

lemma nibbles: "unat (drop_bit 4 b) < 16" "unat (b AND 0x0F) < 16" for b :: "8 word"
proof -
  have "unat b < 256" using unsigned_less [of b] by simp
  moreover have "unat (drop_bit 4 b) = unat b div 2 ^ 4"
    by (subst unat_drop_bit_eq) (rule drop_bit_eq_div)
  ultimately show "unat (drop_bit 4 b) < 16" by (simp add: less_mult_imp_div_less)
  have "unat (take_bit 4 b) = unat b mod 2 ^ 4"
    by (subst unsigned_take_bit_eq) (rule take_bit_eq_mod)
  moreover have "b AND 0x0F = take_bit 4 b" by (simp add: take_bit_eq_mask mask_eq_exp_minus_1)
  ultimately show "unat (b AND 0x0F) < 16" by (simp only:) simp
qed

lemma byte_of_nibbles: "b = push_bit 4 (drop_bit 4 b) OR (b AND 0x0F)" for b :: "8 word"
proof -
  have m: "b AND 0x0F = take_bit 4 b" by (simp add: take_bit_eq_mask mask_eq_exp_minus_1)
  show ?thesis unfolding m
    by (rule bit_word_eqI) (auto simp: bit_simps)
qed

lemma hex_byte_inj: "hex_byte b = hex_byte c \<Longrightarrow> b = c"
proof -
  assume "hex_byte b = hex_byte c"
  then have "hex_digit (drop_bit 4 b) = hex_digit (drop_bit 4 c)"
    "hex_digit (b AND 0x0F) = hex_digit (c AND 0x0F)"
    by (simp_all add: hex_byte_def)
  then have "drop_bit 4 b = drop_bit 4 c" "b AND 0x0F = c AND 0x0F"
    using nibbles hex_digit_inj by blast+
  with byte_of_nibbles show "b = c" by metis
qed

lemma hex_encode_inj: "length bs = length cs \<Longrightarrow> hex_encode bs = hex_encode cs \<Longrightarrow> bs = cs"
proof (induction bs cs rule: list_induct2)
  case (Cons b bs c cs)
  then have "hex_byte b = hex_byte c" "hex_encode bs = hex_encode cs"
    by (simp_all add: hex_encode_def append_eq_append_conv)
  with Cons.IH show ?case by (simp add: hex_byte_inj)
qed simp

lemma generate_uuid_length: "length rnd = 16 \<Longrightarrow> length (generate_uuid rnd) = 36"
  by (simp add: generate_uuid_def Let_def)

text \<open>Two UUIDs are equal only if the 122 random bits behind them are.\<close>

lemma generate_uuid_inj:
  assumes "length r = 16" and "length s = 16" and "generate_uuid r = generate_uuid s"
  shows "uuid_bytes r = uuid_bytes s"
proof -
  let ?b = "uuid_bytes r" and ?c = "uuid_bytes s"
  have l: "length ?b = 16" "length ?c = 16" using assms by simp_all
  have "hex_encode (take 4 ?b) = hex_encode (take 4 ?c) \<and>
      hex_encode (take 2 (drop 4 ?b)) = hex_encode (take 2 (drop 4 ?c)) \<and>
      hex_encode (take 2 (drop 6 ?b)) = hex_encode (take 2 (drop 6 ?c)) \<and>
      hex_encode (take 2 (drop 8 ?b)) = hex_encode (take 2 (drop 8 ?c)) \<and>
      hex_encode (drop 10 ?b) = hex_encode (drop 10 ?c)"
    using assms(3) l by (simp add: generate_uuid_def Let_def append_eq_append_conv)
  then have e: "take 4 ?b = take 4 ?c" "take 2 (drop 4 ?b) = take 2 (drop 4 ?c)"
    "take 2 (drop 6 ?b) = take 2 (drop 6 ?c)" "take 2 (drop 8 ?b) = take 2 (drop 8 ?c)"
    "drop 10 ?b = drop 10 ?c"
    using l by (auto intro!: hex_encode_inj)
  have parts: "b = take 4 b @ take 2 (drop 4 b) @ take 2 (drop 6 b) @ take 2 (drop 8 b) @ drop 10 b"
    for b :: "8 word list"
  proof -
    have "take 2 (drop n b) @ drop (n + 2) b = drop n b" for n
      by (metis add.commute append_take_drop_id drop_drop)
    from this [of 4] this [of 6] this [of 8] show ?thesis by simp
  qed
  show ?thesis using parts [of ?b] parts [of ?c] e by simp
qed

text \<open>Version 4 at the thirteenth digit, variant 10 at the seventeenth.\<close>

lemma two_bits: "y AND 3 = 0 \<or> y AND 3 = 1 \<or> y AND 3 = 2 \<or> y AND 3 = (3 :: 8 word)"
proof -
  have "y AND 3 = take_bit 2 y" by (simp add: take_bit_eq_mask mask_eq_exp_minus_1)
  moreover have "unat (take_bit 2 y) = unat y mod 2 ^ 2"
    by (subst unsigned_take_bit_eq) (rule take_bit_eq_mod)
  ultimately have "unat (y AND 3) < 4" by (simp only:) simp
  then have "unat (y AND 3) \<in> {0, 1, 2, 3}" by auto
  then show ?thesis by (simp add: word_unat_eq_iff)
qed

lemma uuid_nibbles:
  fixes x :: "8 word"
  shows "drop_bit 4 ((x AND 0x0F) OR 0x40) = 4"
    and "drop_bit 4 ((x AND 0x3F) OR 0x80) = (drop_bit 4 x AND 3) OR 8"
  by (simp_all only: drop_bit_or drop_bit_and drop_bit_numeral_bit0 drop_bit_numeral_bit1) simp_all

lemma generate_uuid_version:
  assumes "length rnd = 16"
  shows "generate_uuid rnd ! 14 = CHR ''4''" and "generate_uuid rnd ! 19 \<in> set ''89ab''"
proof -
  let ?b = "uuid_bytes rnd"
  have l: "length ?b = 16" using assms by simp
  have split: "hex_encode (take 2 (drop n bs)) = hex_byte (bs ! n) @ hex_byte (bs ! (n + 1))"
    if "n + 1 < length bs" for n and bs :: "8 word list"
  proof -
    have "take 2 (drop n bs) = [bs ! n, bs ! (n + 1)]"
      using that by (simp add: numeral_2_eq_2 take_Suc_conv_app_nth)
    then show ?thesis by (simp add: hex_encode_def)
  qed
  have "?b ! 6 = (rnd ! 6 AND 0x0F) OR 0x40" "?b ! 8 = (rnd ! 8 AND 0x3F) OR 0x80"
    using assms by (simp_all add: uuid_bytes_def Let_def)
  moreover have "generate_uuid rnd ! 14 = hex_digit (drop_bit 4 (?b ! 6))"
    "generate_uuid rnd ! 19 = hex_digit (drop_bit 4 (?b ! 8))"
    using l by (simp_all add: generate_uuid_def Let_def split nth_append hex_byte_def)
  ultimately have u: "generate_uuid rnd ! 14 = hex_digit 4"
    "generate_uuid rnd ! 19 = hex_digit ((drop_bit 4 (rnd ! 8) AND 3) OR 8)"
    by (simp_all only: uuid_nibbles)
  show "generate_uuid rnd ! 14 = CHR ''4''"
    unfolding u by (simp add: hex_digit_def)
  show "generate_uuid rnd ! 19 \<in> set ''89ab''"
    unfolding u using two_bits [of "drop_bit 4 (rnd ! 8)"] by (elim disjE) (simp_all add: hex_digit_def)
qed

section \<open>Frames\<close>

lemma service_frames [frame_intros]:
  "via framed_rel (service_suspend v i)" "via framed_rel (service_resume v i)"
  "via framed_rel run_expiry_job" "via silent_rel run_expiry_job"
  "via framed_rel (service_get_by_id v i)" "via silent_rel (service_get_by_id v i)"
  "via framed_rel (service_list_by_user v i)" "via silent_rel (service_list_by_user v i)"
  unfolding service_suspend_def service_resume_def run_expiry_job_def service_get_by_id_def
    service_list_by_user_def
  by (intro frame_intros)+

lemma settle_provision_framed [frame_intros]:
  "via framed_rel (settle_provision url_ok p q u ex i)"
  unfolding settle_provision_def
  by (intro frame_intros multi.provision_framed)

lemma proxy_provision_framed [frame_intros]:
  "via framed_rel (proxy_provision C pass url_ok rnd req)"
  unfolding proxy_provision_def Let_def
  by (intro frame_intros)

end
