(* ===== verification/ServiceLife.thy ===== *)
theory ServiceLife
  imports ProxyService
begin

text \<open>
  The life of a proxy service: a state machine over its status, the refinement of it by
  every operation of the proxy service whatever the faults, and what the operations report.
\<close>

section \<open>The state machine\<close>

inductive status_step :: "string \<Rightarrow> string \<Rightarrow> bool" where
  activate: "status_step ''provisioning'' ''active''"
| give_up: "status_step ''provisioning'' ''failed''"
| suspend: "s \<noteq> ''suspended'' \<Longrightarrow> status_step s ''suspended''"
| resume: "status_step ''suspended'' ''active''"
| expire: "status_step ''active'' ''expired''"

code_pred status_step .

inductive_simps status_step_iff: "status_step s t"

inductive_cases status_to_activeE: "status_step s ''active''"

text \<open>A row keeps its identity and owner, and its status moves by at most one step.\<close>

definition row_moves :: "proxy_row \<Rightarrow> proxy_row \<Rightarrow> bool" where
  "row_moves r r' \<longleftrightarrow>
     p_id r' = p_id r \<and> p_vendor_id r' = p_vendor_id r \<and> p_user_id r' = p_user_id r \<and>
     p_order_id r' = p_order_id r \<and> p_uuid r' = p_uuid r \<and> p_expires_at r' = p_expires_at r \<and>
     (p_status r' = p_status r \<or> status_step (p_status r) (p_status r'))"

definition services_move :: "db \<Rightarrow> db \<Rightarrow> bool" where
  "services_move d d' \<longleftrightarrow> list_all2 row_moves (proxies d) (proxies d')"

lemma row_moves_refl: "row_moves r r"
  by (simp add: row_moves_def)

lemma services_move_refl: "proxies d' = proxies d \<Longrightarrow> services_move d d'"
  by (simp add: services_move_def list.rel_refl row_moves_refl)

lemma services_move_update:
  assumes "\<And>r. r \<in> set (proxies d) \<Longrightarrow> q r \<Longrightarrow> row_moves r (f r)"
    and "proxies d' = update_where q f (proxies d)"
  shows "services_move d d'"
  using assms
  by (auto simp: services_move_def update_where_def list_all2_conv_all_nth row_moves_refl)

lemma update_status_moves:
  assumes "proxy_update_status v i st w = (r, w')"
    and "\<And>q. q \<in> set (proxies (w_db w)) \<Longrightarrow> p_id q = i \<Longrightarrow> p_vendor_id q = v \<Longrightarrow>
      p_status q = st \<or> status_step (p_status q) st"
  shows "services_move (w_db w) (w_db w')"
  using exec_db [OF assms(1) [unfolded proxy_update_status_def]]
proof
  assume "sql_proxy_status v i st (w_now w) (w_db w) = Inr (w_db w')"
  then have "proxies (w_db w') = update_where (\<lambda>r. p_id r = i \<and> p_vendor_id r = v)
       (\<lambda>r. r\<lparr>p_status := st, p_updated_at := w_now w\<rparr>) (proxies (w_db w))"
    by (auto simp: sql_proxy_status_def dest: sym)
  with assms(2) show ?thesis
    by (intro services_move_update) (auto simp: row_moves_def)
qed (simp add: services_move_refl)

section \<open>Suspend and resume\<close>

lemma proxy_by_id_read:
  assumes "proxy_by_id v i w = (Inr rc, w')" and "holds proxy_inv w"
    and "q \<in> set (proxies (w_db w))" and "p_id q = i"
  shows "rc = record_of_row q"
proof -
  from assms(1) obtain r where r: "r \<in> set (proxies (w_db w))" "p_id r = i" "rc = record_of_row r"
    unfolding proxy_by_id_def by (auto elim: select_proxy_InrE)
  have "distinct (map p_id (proxies (w_db w)))"
    using assms(2) by (auto simp: holds_def proxy_inv_def dest: ids_ok_distinct)
  then have "q = r" using assms(3,4) r by (auto intro: distinct_map_eqD)
  with r show ?thesis by simp
qed

lemma notify_after_db:
  "andThen m (\<lambda>_. notifyAct t p) w = (r, w') \<Longrightarrow> \<exists>x w1. m w = (x, w1) \<and> w_db w' = w_db w1"
  by (auto simp: andThen_def notifyAct_def split: prod.splits sum.splits)

lemma service_suspend_moves:
  assumes "holds proxy_inv w" and "service_suspend v i w = (r, w')"
  shows "services_move (w_db w) (w_db w')"
  using assms(2) unfolding service_suspend_def
proof (cases rule: read_then [consumes 1, case_names _ stop go])
  case (stop e)
  then show ?thesis by (simp add: quiet_rel_def services_move_refl)
next
  case (go rc w1)
  then have q: "w_db w1 = w_db w" and read: "proxy_by_id v i w = (Inr rc, w1)"
    by (simp_all add: quiet_rel_def onErr_Inr)
  show ?thesis
  proof (cases "PS_Status rc = ''suspended''")
    case True
    with go q show ?thesis by (simp add: fail_def services_move_refl)
  next
    case False
    with go obtain x w2 where u: "proxy_update_status v i ''suspended'' w1 = (x, w2)"
      and d: "w_db w' = w_db w2"
      by (auto simp: proxy_suspend_def dest!: notify_after_db)
    have "p_status s \<noteq> ''suspended''" if "s \<in> set (proxies (w_db w))" "p_id s = i" for s
      using proxy_by_id_read [OF read assms(1) that] False by (simp add: record_of_row_def)
    then have "services_move (w_db w1) (w_db w2)"
      using q by (intro update_status_moves [OF u]) (auto intro: status_step.suspend)
    then show ?thesis by (simp add: q d)
  qed
qed (intro quiet_intros)

lemma service_resume_moves:
  assumes "holds proxy_inv w" and "service_resume v i w = (r, w')"
  shows "services_move (w_db w) (w_db w')"
  using assms(2) unfolding service_resume_def
proof (cases rule: read_then [consumes 1, case_names _ stop go])
  case (stop e)
  then show ?thesis by (simp add: quiet_rel_def services_move_refl)
next
  case (go rc w1)
  then have q: "w_db w1 = w_db w" and read: "proxy_by_id v i w = (Inr rc, w1)"
    by (simp_all add: quiet_rel_def onErr_Inr)
  show ?thesis
  proof (cases "PS_Status rc = ''suspended''")
    case True
    with go obtain x w2 where u: "proxy_update_status v i ''active'' w1 = (x, w2)"
      and d: "w_db w' = w_db w2"
      by (auto simp: proxy_resume_def dest!: notify_after_db)
    have "p_status s = ''suspended''" if "s \<in> set (proxies (w_db w))" "p_id s = i" for s
      using proxy_by_id_read [OF read assms(1) that] True by (simp add: record_of_row_def)
    then have "services_move (w_db w1) (w_db w2)"
      using q by (intro update_status_moves [OF u]) (auto intro: status_step.resume)
    then show ?thesis by (simp add: q d)
  next
    case False
    with go q show ?thesis by (simp add: fail_def services_move_refl)
  qed
qed (intro quiet_intros)

section \<open>Expiry\<close>

lemma run_expiry_job_db:
  assumes "run_expiry_job w = (r, w')"
  shows "w_db w' = w_db w \<or>
     w_db w' = (w_db w)\<lparr>proxies := update_where (overdue (w_now w))
         (\<lambda>r. r\<lparr>p_status := ''expired'', p_updated_at := w_now w\<rparr>) (proxies (w_db w))\<rparr>"
proof -
  obtain x w1 where m: "proxy_mark_expired w = (x, w1)" by fastforce
  then have "w' = w1" using assms
    by (auto simp: run_expiry_job_def andThen_def orElse_def ret_def split: sum.splits)
  with exec_returning_db [OF m [unfolded proxy_mark_expired_def]] show ?thesis
    by (auto simp: sql_mark_expired_def)
qed

lemma run_expiry_job_moves:
  assumes "run_expiry_job w = (r, w')"
  shows "services_move (w_db w) (w_db w')"
  using run_expiry_job_db [OF assms]
proof
  assume "w_db w' = (w_db w)\<lparr>proxies := update_where (overdue (w_now w))
         (\<lambda>r. r\<lparr>p_status := ''expired'', p_updated_at := w_now w\<rparr>) (proxies (w_db w))\<rparr>"
  then show ?thesis
    by (intro services_move_update [where q = "overdue (w_now w)"])
       (auto simp: row_moves_def overdue_def intro: status_step.expire)
qed (simp add: services_move_refl)

text \<open>What the job leaves when it runs without a fault.\<close>

definition expired_at :: "world \<Rightarrow> world" where
  "expired_at w = w\<lparr>w_db := (w_db w)\<lparr>proxies := update_where (overdue (w_now w))
     (\<lambda>r. r\<lparr>p_status := ''expired'', p_updated_at := w_now w\<rparr>) (proxies (w_db w))\<rparr>\<rparr>"

lemma run_expiry_job_at: "w_faults w = [] \<Longrightarrow> run_expiry_job w = (Inr (), expired_at w)"
  by (simp add: run_expiry_job_def andThen_def orElse_def ret_def proxy_mark_expired_def
      nofault_simps sql_mark_expired_def expired_at_def)

lemma expired_at_twice: "expired_at (expired_at w) = expired_at w"
proof -
  have "\<forall>r\<in>set (proxies (w_db (expired_at w))). \<not> overdue (w_now w) r"
    by (auto simp: expired_at_def set_update_where overdue_def)
  then have "update_where (overdue (w_now w)) f (proxies (w_db (expired_at w))) = proxies (w_db (expired_at w))" for f
    by (rule update_where_none)
  then show ?thesis by (simp add: expired_at_def)
qed

lemma expired_at_later:
  assumes "w_now w \<le> n"
  shows "map p_status (proxies (w_db (expired_at ((expired_at w)\<lparr>w_now := n\<rparr>)))) =
     map p_status (proxies (w_db (expired_at (w\<lparr>w_now := n\<rparr>))))"
  using assms by (auto simp: expired_at_def update_where_def overdue_def split: option.splits)

section \<open>Provision\<close>

text \<open>\<open>stored_as st\<close>: one service was added, with the given status.\<close>

definition stored_as :: "string \<Rightarrow> ProxyServiceRecord \<Rightarrow> world \<Rightarrow> world \<Rightarrow> bool" where
  "stored_as st rc w w' \<longleftrightarrow>
     (\<exists>r. w_db w' = (w_db w)\<lparr>proxies := proxies (w_db w) @ [r]\<rparr> \<and>
        p_id r = w_seq w TProxies + 1 \<and> p_vendor_id r = PS_VendorID rc \<and>
        p_user_id r = PS_UserID rc \<and> p_order_id r = PS_OrderID rc \<and> p_uuid r = PS_UUID rc \<and>
        p_panel_id r = PS_PanelID rc \<and> p_subscription_url r = PS_SubscriptionURL rc \<and>
        p_expires_at r = map_option db_time (PS_ExpiresAt rc) \<and> p_status r = st \<and>
        p_protocol r = PS_Protocol rc \<and> p_qr_payload r = PS_QRPayload rc \<and>
        p_config_payload r = PS_ConfigPayload rc \<and> p_traffic_used_gb r = 0 \<and>
        p_traffic_limit_gb r = PS_TrafficLimitGB rc \<and> p_duration_days r = PS_DurationDays rc \<and>
        p_deleted_at r = None)"

lemma stored_as_update:
  assumes "stored_as st rc w w1" and "\<forall>r\<in>set (proxies (w_db w)). p_id r \<noteq> w_seq w TProxies + 1"
    and "proxy_update_status (PS_VendorID rc) (w_seq w TProxies + 1) st' w1 = (x, w2)"
  shows "stored_as st rc w w2 \<or> stored_as st' rc w w2"
  using exec_db [OF assms(3) [unfolded proxy_update_status_def]]
proof
  assume "w_db w2 = w_db w1"
  with assms(1) show ?thesis by (simp add: stored_as_def)
next
  let ?i = "w_seq w TProxies + 1"
  assume "sql_proxy_status (PS_VendorID rc) ?i st' (w_now w1) (w_db w1) = Inr (w_db w2)"
  then have d2: "w_db w2 = (w_db w1)\<lparr>proxies := update_where
       (\<lambda>r. p_id r = ?i \<and> p_vendor_id r = PS_VendorID rc)
       (\<lambda>r. r\<lparr>p_status := st', p_updated_at := w_now w1\<rparr>) (proxies (w_db w1))\<rparr>"
    by (auto simp: sql_proxy_status_def dest: sym)
  have none: "update_where (\<lambda>r. p_id r = ?i \<and> p_vendor_id r = PS_VendorID rc)
       (\<lambda>r. r\<lparr>p_status := st', p_updated_at := w_now w1\<rparr>) (proxies (w_db w)) = proxies (w_db w)"
    using assms(2) by (intro update_where_none) auto
  from assms(1) have "stored_as st' rc w w2"
    unfolding stored_as_def by (auto simp: d2 none)
  then show ?thesis ..
qed

lemma stored_as_hub [simp]: "stored_as st rc w (w1\<lparr>w_hub := h\<rparr>) = stored_as st rc w w1"
  by (simp add: stored_as_def)

lemma settle_provision_outcomes:
  assumes "settle_provision url_ok panel req uuid ex i w1 = (r, w')"
    and "stored_as ''provisioning'' (provision_record panel req uuid ex) w w1"
    and "\<forall>r\<in>set (proxies (w_db w)). p_id r \<noteq> w_seq w TProxies + 1" and "i = w_seq w TProxies + 1"
  shows "case r of
       Inr resp \<Rightarrow> resp = \<lparr>SR_ServiceID = i, SR_UUID = uuid,
            SR_SubscriptionURL = build_subscription_url (XP_URL panel) uuid,
            SR_ExpiresAt = ex, SR_Status = ''active''\<rparr> \<and>
          (\<exists>st\<in>{''active'', ''provisioning''}. stored_as st (provision_record panel req uuid ex) w w')
     | Inl e \<Rightarrow>
          (\<exists>st\<in>{''failed'', ''provisioning''}. stored_as st (provision_record panel req uuid ex) w w')"
proof -
  let ?rc = "provision_record panel req uuid ex"
  have v: "PS_VendorID ?rc = SQ_VendorID req" by (simp add: provision_record_def Let_def)
  obtain x w2 where p: "multi_provision url_ok (\<lparr>X_VendorID = XP_VendorID panel,
      X_Name = XP_Name panel, X_URL = XP_URL panel, X_Token = XP_Token panel,
      X_InboundID = XP_InboundID panel\<rparr>) \<lparr>XQ_VendorID = SQ_VendorID req,
      XQ_UserID = SQ_UserID req, XQ_Email = [], XQ_Protocol = SQ_Protocol req, XQ_UUID = uuid,
      XQ_DurationDays = SQ_DurationDays req, XQ_TrafficGB = SQ_TrafficLimitGB req\<rparr> w1 = (x, w2)"
    by fastforce
  then have "offline_rel w1 w2" by (rule multi.provision_offline)
  with assms(2) have s2: "stored_as ''provisioning'' ?rc w w2"
    by (simp add: stored_as_def offline_rel_def)
  have upd: "stored_as ''provisioning'' ?rc w w3 \<or> stored_as st ?rc w w3"
    if "proxy_update_status (SQ_VendorID req) i st w2 = (y, w3)" for st y w3
    using stored_as_update [OF s2 assms(3)] that assms(4) v by auto
  have settle: "settle_provision url_ok panel req uuid ex i w1 =
     (case x of
        Inl e \<Rightarrow> if is_panic e then (Inl e, w2)
          else (Inl (ErrWrap ''xui provision'' e),
            snd (proxy_update_status (SQ_VendorID req) i ''failed'' w2))
      | Inr _ \<Rightarrow> let w3 = snd (proxy_update_status (SQ_VendorID req) i ''active'' w2)
          in (Inr \<lparr>SR_ServiceID = i, SR_UUID = uuid,
            SR_SubscriptionURL = build_subscription_url (XP_URL panel) uuid,
            SR_ExpiresAt = ex, SR_Status = ''active''\<rparr>,
            w3\<lparr>w_hub := notify ''service.provisioned''
              [(''service_id'', JInt i), (''vendor_id'', JInt (SQ_VendorID req)),
               (''user_id'', JInt (SQ_UserID req)), (''uuid'', JStr uuid)] (w_hub w3)\<rparr>))"
    unfolding settle_provision_def attempt_def p
    by (auto simp: andThen_def orElse_def fail_def ret_def notifyAct_def Let_def
        split: sum.splits prod.splits)
  show ?thesis
  proof (cases x)
    case (Inl e)
    obtain y w3 where u: "proxy_update_status (SQ_VendorID req) i ''failed'' w2 = (y, w3)"
      by fastforce
    with Inl assms(1) settle s2 upd [OF u] show ?thesis
      by (auto split: if_splits)
  next
    case (Inr out)
    obtain y w3 where u: "proxy_update_status (SQ_VendorID req) i ''active'' w2 = (y, w3)"
      by fastforce
    with Inr assms(1) settle upd [OF u] show ?thesis by auto
  qed
qed

text \<open>
  A provisioning that reports success has stored the service; that it is marked active is
  not certain, because the error of the last update is dropped.
\<close>

lemma proxy_provision_outcomes:
  assumes "proxy_provision C pass url_ok rnd req w = (r, w')" and "holds proxy_inv w"
  shows "case r of
       Inr resp \<Rightarrow> (\<exists>x panel. x \<in> set (panels (w_db w)) \<and> x_vendor_id x = SQ_VendorID req \<and>
          x_is_active x \<and> panel_of_row C pass x = Inr panel \<and>
          resp = \<lparr>SR_ServiceID = w_seq w TProxies + 1, SR_UUID = generate_uuid rnd,
            SR_SubscriptionURL = build_subscription_url (XP_URL panel) (generate_uuid rnd),
            SR_ExpiresAt = w_nano w + duration_days (SQ_DurationDays req), SR_Status = ''active''\<rparr> \<and>
          (\<exists>st\<in>{''active'', ''provisioning''}. stored_as st (provision_record panel req
             (generate_uuid rnd) (w_nano w + duration_days (SQ_DurationDays req))) w w'))
     | Inl e \<Rightarrow> w_db w' = w_db w \<or>
          (\<exists>x panel. x \<in> set (panels (w_db w)) \<and> x_vendor_id x = SQ_VendorID req \<and>
             x_is_active x \<and> panel_of_row C pass x = Inr panel \<and>
             (\<exists>st\<in>{''failed'', ''provisioning''}. stored_as st (provision_record panel req
               (generate_uuid rnd) (w_nano w + duration_days (SQ_DurationDays req))) w w'))"
  using assms(1) unfolding proxy_provision_def
proof (cases rule: read_then [consumes 1, case_names _ stop go])
  case (stop e)
  then show ?thesis by (simp add: quiet_rel_def)
next
  case (go panel w1)
  from go(1) obtain x where x: "x \<in> set (panels (w_db w))" "x_vendor_id x = SQ_VendorID req"
    "x_is_active x" "panel_of_row C pass x = Inr panel"
    by (auto simp: onErr_Inr elim!: panel_first_active_Inr)
  let ?u = "generate_uuid rnd"
  let ?ex = "w_nano w + duration_days (SQ_DurationDays req)"
  let ?rc = "provision_record panel req ?u ?ex"
  let ?t = "transaction (ErrWrap ''begin tx'') (ErrWrap ''commit'')
       (onErr (ErrWrap ''create proxy service'') (proxy_create_tx ?rc))"
  have q: "w_db w1 = w_db w" "w_seq w1 = w_seq w" "w_nano w1 = w_nano w"
    using go(2) by (simp_all add: quiet_rel_def)
  obtain y w2 where t: "?t w1 = (y, w2)" by fastforce
  have fresh: "\<forall>r\<in>set (proxies (w_db w)). p_id r \<noteq> w_seq w TProxies + 1"
    using assms(2) by (force simp: holds_def proxy_inv_def dest!: ids_ok_fresh)
  have stored: "stored_as ''provisioning'' ?rc w w3 \<and> i = w_seq w TProxies + 1"
    if "onErr (ErrWrap ''create proxy service'') (proxy_create_tx ?rc) (pop w1) = (Inr i, w3)" for i w3
    using that q
    by (auto simp: onErr_Inr stored_as_def service_row_def provision_record_def Let_def
        dest!: proxy_create_tx_Inr)
  have tail: "(case y of Inl e \<Rightarrow> (Inl e, w2)
      | Inr i \<Rightarrow> settle_provision url_ok panel req ?u ?ex i w2) = (r, w')"
    using go(3) t q(3) by (simp add: andThen_def [of getNano] getNano_def andThen_def Let_def
        split: sum.splits)
  from t show ?thesis
  proof (cases rule: transaction_cases)
    case (committed i w3)
    with stored have s: "stored_as ''provisioning'' ?rc w w2" "i = w_seq w TProxies + 1"
      by (auto simp: stored_as_def)
    from tail committed(1) have "settle_provision url_ok panel req ?u ?ex i w2 = (r, w')" by simp
    from settle_provision_outcomes [OF this s(1) fresh s(2)] x s(2) show ?thesis
      by (auto split: sum.splits)
  next
    case (rolled_back e)
    with tail q show ?thesis by auto
  next
    case (lost i w3)
    with stored have "stored_as ''provisioning'' ?rc w w2" by (auto simp: stored_as_def)
    with lost tail x show ?thesis by (auto intro!: exI [of _ x])
  qed
qed (intro quiet_intros)

end
