(* ===== verification/Worker.thy ===== *)
theory Worker
  imports OrderRepo CatalogRepo PanelRepo ProxyRepo Xui Decimal
begin

text \<open>
  The provisioning worker, \<open>internal/provisioning/worker_v2.go\<close>: each tick claims the
  oldest pending job, asks the vendor's panel for a client, stores the service and links
  it to the order, and marks the job done or failed. It is modelled over any adapter; the
  results hold for every adapter that keeps the interface of \<open>xui.Adapter\<close>.
\<close>

type_synonym adapter = "Panel \<Rightarrow> ProvisionRequest \<Rightarrow> ProvisionResponse act"

definition max_retries :: int where
  "max_retries = 5"

definition svc_uuid :: "int \<Rightarrow> int \<Rightarrow> string" where
  "svc_uuid userID nano = ''svc-'' @ show_int userID @ ''-'' @ show_int nano"

definition panel_arg :: "XUIPanelRecord \<Rightarrow> Panel" where
  "panel_arg p = \<lparr>X_VendorID = XP_VendorID p, X_Name = XP_Name p, X_URL = XP_URL p,
     X_Token = XP_Token p, X_InboundID = XP_InboundID p\<rparr>"

definition job_record ::
  "XUIPanelRecord \<Rightarrow> Order \<Rightarrow> CatalogItemInput \<Rightarrow> ProvisionResponse \<Rightarrow> ProxyServiceRecord" where
  "job_record panel ord cat pr =
     (let subURL = XP_URL panel @ ''/sub/'' @ XR_UUID pr in
      \<lparr>PS_ID = 0, PS_VendorID = XP_VendorID panel, PS_UserID = O_UserID ord,
       PS_OrderID = Some (O_ID ord), PS_PanelID = None, PS_UUID = XR_UUID pr,
       PS_Protocol = CI_Protocol cat, PS_SubscriptionURL = subURL, PS_QRPayload = subURL,
       PS_ConfigPayload = [], PS_Status = ''active'', PS_ExpiresAt = Some (XR_ExpiresAt pr),
       PS_TrafficUsedGB = 0, PS_TrafficLimitGB = CI_TrafficLimitGB cat,
       PS_DurationDays = CI_DurationDays cat, PS_CreatedAt = 0, PS_UpdatedAt = 0\<rparr>)"

definition store_service :: "ProxyServiceRecord \<Rightarrow> int \<Rightarrow> int act" where
  "store_service rc orderID =
     andThen (proxy_create_tx rc) (\<lambda>svcID.
     andThen (link_service_tx orderID svcID) (\<lambda>_.
     ret svcID))"

definition handle_job :: "crypto \<Rightarrow> string \<Rightarrow> adapter \<Rightarrow> int \<Rightarrow> int \<Rightarrow> int \<Rightarrow> unit act" where
  "handle_job C pass provision jobID orderID vendorID =
     andThen (orders_by_id vendorID orderID) (\<lambda>ord.
     andThen (panel_first_active C pass vendorID) (\<lambda>panel.
     andThen (catalog_get_by_id (O_CatalogID ord)) (\<lambda>cat.
     andThen getNano (\<lambda>nano.
     andThen (provision (panel_arg panel)
       \<lparr>XQ_VendorID = O_VendorID ord, XQ_UserID = O_UserID ord, XQ_Email = ''user'',
        XQ_Protocol = CI_Protocol cat, XQ_UUID = svc_uuid (O_UserID ord) nano,
        XQ_DurationDays = CI_DurationDays cat, XQ_TrafficGB = CI_TrafficLimitGB cat\<rparr>) (\<lambda>pr.
     andThen (transaction id id (store_service (job_record panel ord cat pr) (O_ID ord))) (\<lambda>svcID.
     notifyAct ''service.provisioned''
       [(''order_id'', JInt (O_ID ord)), (''service_id'', JInt svcID)]))))))"

definition job_retries :: "int \<Rightarrow> int act" where
  "job_retries jobID = query (\<lambda>d. map_sum id j_retries
     (select_first (\<lambda>j. j_id j = jobID) (jobs d)))"

text \<open>The two ways a job ends: every error of the statements themselves is dropped.\<close>

definition job_failed :: "int \<Rightarrow> err \<Rightarrow> unit act" where
  "job_failed jobID e =
     andThen (orElse 0 (job_retries jobID)) (\<lambda>retries.
     orElse () (jobs_mark_failed jobID e (retries + 1 \<ge> max_retries)))"

definition job_succeeded :: "int \<Rightarrow> unit act" where
  "job_succeeded jobID = orElse () (jobs_mark_done jobID)"

text \<open>
  One tick. A panic inside \<open>handleJob\<close> ends the goroutine and the process with it; every
  other outcome ends in the next tick, so a tick itself reports nothing.
\<close>

definition worker_tick :: "crypto \<Rightarrow> string \<Rightarrow> adapter \<Rightarrow> unit act" where
  "worker_tick C pass provision =
     attempt jobs_claim_next (\<lambda>_. ret ()) (\<lambda>(jobID, orderID, vendorID).
     attempt (handle_job C pass provision jobID orderID vendorID)
       (\<lambda>e. if is_panic e then fail e else job_failed jobID e)
       (\<lambda>_. job_succeeded jobID))"

text \<open>The loop of \<open>Start\<close>, for as many ticks as the ticker has delivered.\<close>

fun worker_loop :: "crypto \<Rightarrow> string \<Rightarrow> adapter \<Rightarrow> nat \<Rightarrow> unit act" where
  "worker_loop C pass provision 0 = ret ()"
| "worker_loop C pass provision (Suc n) =
     andThen (worker_tick C pass provision) (\<lambda>_. worker_loop C pass provision n)"

section \<open>Frames\<close>

lemma store_service_frames [frame_intros]:
  "via framed_rel (store_service rc i)" "via silent_rel (store_service rc i)"
  unfolding store_service_def by (intro frame_intros)+

lemma job_retries_frames [frame_intros]:
  "via framed_rel (job_retries i)" "via silent_rel (job_retries i)"
  unfolding job_retries_def by (intro frame_intros)+

context panel_adapter
begin

lemma handle_job_framed: "via framed_rel (handle_job C pass provision j i v)"
  unfolding handle_job_def by (intro frame_intros provision_framed)

end

section \<open>Storing a service\<close>

text \<open>
  \<open>provisioned\<close>: the service row is added under the next identifier and the order points
  to it.
\<close>

definition provisioned :: "ProxyServiceRecord \<Rightarrow> int \<Rightarrow> int \<Rightarrow> int \<Rightarrow> db \<Rightarrow> db" where
  "provisioned rc orderID i now d =
     d\<lparr>proxies := proxies d @ [service_row rc i now],
       orders := update_where (\<lambda>r. o_id r = orderID)
         (\<lambda>r. r\<lparr>o_service_id := Some i, o_updated_at := now\<rparr>) (orders d)\<rparr>"

lemma store_service_Inr:
  assumes "store_service rc orderID w = (Inr i, w')"
  shows "i = w_seq w TProxies + 1 \<and>
     (\<forall>r\<in>set (proxies (w_db w)). p_deleted_at r = None \<longrightarrow> p_uuid r \<noteq> PS_UUID rc) \<and>
     w_db w' = provisioned rc orderID i (w_now w) (w_db w) \<and>
     w_seq w' = (w_seq w)(TProxies := i)"
  using assms
  by (auto simp: store_service_def andThen_Inr ret_Inr link_service_tx_def exec_Inr
      sql_link_service_def provisioned_def dest!: proxy_create_tx_Inr)

section \<open>Handling a job\<close>

text \<open>
  \<open>job_effect\<close>: the order of the job, an active panel of the vendor and the order's
  catalogue item are in the tables, and a service made of them is stored and linked.
\<close>

definition job_effect :: "crypto \<Rightarrow> string \<Rightarrow> int \<Rightarrow> int \<Rightarrow> world \<Rightarrow> world \<Rightarrow> bool" where
  "job_effect C pass orderID vendorID w w' \<longleftrightarrow>
     (\<exists>r x p c pr.
       r \<in> set (orders (w_db w)) \<and> o_id r = orderID \<and> o_vendor_id r = vendorID \<and>
       x \<in> set (panels (w_db w)) \<and> x_vendor_id x = vendorID \<and> x_is_active x \<and>
       panel_of_row C pass x = Inr p \<and>
       c \<in> set (catalog_items (w_db w)) \<and> c_id c = o_catalog_id r \<and>
       (\<forall>q\<in>set (proxies (w_db w)). p_deleted_at q = None \<longrightarrow> p_uuid q \<noteq> XR_UUID pr) \<and>
       w_db w' = provisioned (job_record p (order_of_row r) (item_of_row c) pr) orderID
         (w_seq w TProxies + 1) (w_now w) (w_db w) \<and>
       w_seq w' = (w_seq w)(TProxies := w_seq w TProxies + 1))"

lemma job_effectI:
  assumes "r \<in> set (orders (w_db w))" "o_id r = i" "o_vendor_id r = v"
    "x \<in> set (panels (w_db w))" "x_vendor_id x = v" "x_is_active x" "panel_of_row C pass x = Inr p"
    "c \<in> set (catalog_items (w_db w))" "c_id c = o_catalog_id r"
    "\<forall>q\<in>set (proxies (w_db w)). p_deleted_at q = None \<longrightarrow> p_uuid q \<noteq> XR_UUID pr"
    "w_db w' = provisioned (job_record p (order_of_row r) (item_of_row c) pr) i
       (w_seq w TProxies + 1) (w_now w) (w_db w)"
    "w_seq w' = (w_seq w)(TProxies := w_seq w TProxies + 1)"
  shows "job_effect C pass i v w w'"
  unfolding job_effect_def using assms
  by (intro exI [of _ r] exI [of _ x] exI [of _ p] exI [of _ c] exI [of _ pr]) simp

text \<open>
  The tail of a job: the transaction and the notification, over the data read so far.
\<close>

definition finish_job :: "ProxyServiceRecord \<Rightarrow> int \<Rightarrow> unit act" where
  "finish_job rc orderID =
     andThen (transaction id id (store_service rc orderID)) (\<lambda>svcID.
     notifyAct ''service.provisioned'' [(''order_id'', JInt orderID), (''service_id'', JInt svcID)])"

lemma finish_job_outcomes:
  assumes "finish_job rc i w = (r, w')"
  shows "(r = Inr () \<or> r = Inl ErrDriver) \<and>
       (\<forall>q\<in>set (proxies (w_db w)). p_deleted_at q = None \<longrightarrow> p_uuid q \<noteq> PS_UUID rc) \<and>
       w_db w' = provisioned rc i (w_seq w TProxies + 1) (w_now w) (w_db w) \<and>
       w_seq w' = (w_seq w)(TProxies := w_seq w TProxies + 1) \<and>
       (r \<noteq> Inr () \<longrightarrow> w_hub w' = w_hub w) \<or>
     (\<exists>e. r = Inl e) \<and> w_db w' = w_db w \<and> w_hub w' = w_hub w"
proof -
  let ?t = "transaction id id (store_service rc i)"
  obtain q w1 where t: "?t w = (q, w1)" by (cases "?t w")
  have hub: "w_hub w1 = w_hub w"
    using silent_hub [OF silent.via_transaction [OF store_service_frames(2)] t] .
  from t show ?thesis
  proof (cases rule: transaction_cases)
    case (committed x w2)
    with assms t show ?thesis
      by (auto simp: finish_job_def andThen_def notifyAct_def dest!: store_service_Inr)
  next
    case (rolled_back e)
    with assms t hub show ?thesis by (auto simp: finish_job_def andThen_def)
  next
    case (lost x w2)
    with assms t hub show ?thesis
      by (auto simp: finish_job_def andThen_def dest!: store_service_Inr)
  qed
qed

lemma order_read: "orders_by_id v i w = (Inr ord, w') \<Longrightarrow>
    \<exists>r\<in>set (orders (w_db w)). o_id r = i \<and> o_vendor_id r = v \<and> ord = order_of_row r"
  by (auto simp: orders_by_id_def query_Inr map_sum_Inr_iff dest!: select_first_InrD)

lemma item_read: "catalog_get_by_id i w = (Inr cat, w') \<Longrightarrow>
    \<exists>c\<in>set (catalog_items (w_db w)). c_id c = i \<and> cat = item_of_row c"
  by (auto simp: catalog_get_by_id_def query_Inr map_sum_Inr_iff dest!: select_first_InrD)

lemma panel_read: "panel_first_active C pass v w = (Inr p, w') \<Longrightarrow>
    \<exists>x\<in>set (panels (w_db w)). x_vendor_id x = v \<and> x_is_active x \<and> panel_of_row C pass x = Inr p"
  by (auto elim!: panel_first_active_Inr)

context panel_adapter
begin

lemma provision_quiet: "via quiet_rel (provision p q)"
  unfolding via_def
proof
  fix w
  show "quiet_rel w (snd (provision p q w))"
    using provision_offline [of p q w "fst (provision p q w)" "snd (provision p q w)"]
    by (simp add: offline_rel_def quiet_rel_def)
qed

lemma handle_job_cases:
  assumes "handle_job C pass provision j i v w = (r, w')"
  obtains (stop) e where "r = Inl e" "quiet_rel w w'"
  | (run) orow x p c pr w1 where "orow \<in> set (orders (w_db w))" "o_id orow = i"
      "o_vendor_id orow = v" "x \<in> set (panels (w_db w))" "x_vendor_id x = v" "x_is_active x"
      "panel_of_row C pass x = Inr p" "c \<in> set (catalog_items (w_db w))"
      "c_id c = o_catalog_id orow" "quiet_rel w w1"
      "finish_job (job_record p (order_of_row orow) (item_of_row c) pr) i w1 = (r, w')"
proof -
  show thesis
    using assms unfolding handle_job_def
  proof (cases rule: read_then [consumes 1, case_names _ stop1 go1])
    show "via quiet_rel (orders_by_id v i)" by (intro quiet_intros)
  next
    case (stop1 e)
    then show thesis by (intro stop)
  next
    case (go1 ord w1)
    from order_read [OF go1(1)] obtain orow where orow: "orow \<in> set (orders (w_db w))"
      "o_id orow = i" "o_vendor_id orow = v" "ord = order_of_row orow" by blast
    note rest1 = go1(3)
    from rest1 show thesis
    proof (cases rule: read_then [consumes 1, case_names _ stop2 go2])
      show "via quiet_rel (panel_first_active C pass v)" by (intro quiet_intros)
    next
      case (stop2 e)
      with go1(2) show thesis by (intro stop) (auto intro: quiet_rel_trans)
    next
      case (go2 p w2)
      from panel_read [OF go2(1)] obtain x where x: "x \<in> set (panels (w_db w))" "x_vendor_id x = v"
        "x_is_active x" "panel_of_row C pass x = Inr p"
        using go1(2) by (auto simp: quiet_rel_def)
      have q2: "quiet_rel w w2" using go1(2) go2(2) by (rule quiet_rel_trans)
      from go2(3) show thesis
      proof (cases rule: read_then [consumes 1, case_names _ stop3 go3])
        show "via quiet_rel (catalog_get_by_id (O_CatalogID ord))" by (intro quiet_intros)
      next
        case (stop3 e)
        with q2 show thesis by (intro stop) (auto intro: quiet_rel_trans)
      next
        case (go3 cat w3)
        from item_read [OF go3(1)] obtain c where c: "c \<in> set (catalog_items (w_db w))"
          "c_id c = o_catalog_id orow" "cat = item_of_row c"
          using q2 orow(4) by (auto simp: quiet_rel_def order_of_row_def)
        have q3: "quiet_rel w w3" using q2 go3(2) by (rule quiet_rel_trans)
        from go3(3) show thesis
          unfolding andThen_def [of getNano] getNano_def prod.case sum.case
        proof (cases rule: read_then [consumes 1, case_names _ stop4 go4])
          case (stop4 e)
          with q3 show thesis by (intro stop) (auto intro: quiet_rel_trans)
        next
          case (go4 pr w4)
          have "quiet_rel w w4" using q3 go4(2) by (rule quiet_rel_trans)
          moreover have "finish_job (job_record p (order_of_row orow) (item_of_row c) pr) i w4 = (r, w')"
            using go4(3) orow c by (simp add: finish_job_def order_of_row_def)
          ultimately show thesis using orow x c by (intro run)
        qed (rule provision_quiet)
      qed
    qed
  qed
qed

text \<open>
  A job that fails has changed no table, unless the answer of its commit was lost; then
  the service is there although the job counts as failed.
\<close>

lemma handle_job_outcomes:
  assumes "handle_job C pass provision j i v w = (r, w')"
  shows "(r = Inr () \<or> r = Inl ErrDriver \<and> w_hub w' = w_hub w) \<and> job_effect C pass i v w w' \<or>
     (\<exists>e. r = Inl e) \<and> w_db w' = w_db w \<and> w_hub w' = w_hub w"
  using assms
proof (cases rule: handle_job_cases)
  case (run orow x p c pr w1)
  have u: "PS_UUID (job_record p (order_of_row orow) (item_of_row c) pr) = XR_UUID pr"
    by (simp add: job_record_def Let_def)
  note eff = job_effectI [OF run(1-9)]
  from finish_job_outcomes [OF run(11)] run(10) show ?thesis
    unfolding u by (auto simp: quiet_rel_def intro: eff)
qed (auto simp: quiet_rel_def)

end

end
