(* ===== verification/AuthService.thy ===== *)
theory AuthService
  imports WalletRepo Security
begin

text \<open>
  Accounts: \<open>internal/repository/user_repository.go\<close>,
  \<open>internal/repository/vendor_repository.go\<close>, \<open>internal/vendor/service.go\<close>,
  \<open>internal/security/jwt.go\<close>, the token functions of \<open>internal/middleware/jwt.go\<close> and
  \<open>internal/auth/service.go\<close>.
\<close>

section \<open>Users and vendors\<close>

record User =
  U_ID :: int
  U_VendorID :: "int option"
  U_Email :: string
  U_PasswordHash :: string
  U_Role :: string
  U_CreatedAt :: int

record Vendor =
  V_ID :: int
  V_OwnerUserID :: int
  V_Name :: string
  V_Slug :: string
  V_CreatedAt :: int

definition sql_insert_user :: "string \<Rightarrow> string \<Rightarrow> string \<Rightarrow> int \<Rightarrow> int \<Rightarrow> db \<Rightarrow> err + db" where
  "sql_insert_user email hash role i now d =
     (if list_ex (\<lambda>r. u_email r = email) (users d) then Inl (ErrUnique ''users_email_key'')
      else Inr (d\<lparr>users := users d @
        [\<lparr>u_id = i, u_vendor_id = None, u_email = email, u_password_hash = hash, u_role = role,
          u_created_at = now, u_deleted_at = None\<rparr>]\<rparr>))"

definition user_create :: "string \<Rightarrow> string \<Rightarrow> string \<Rightarrow> int act" where
  "user_create email hash role = insert_returning TUsers (sql_insert_user email hash role)"

definition user_of_row :: "user_row \<Rightarrow> User" where
  "user_of_row r = \<lparr>U_ID = u_id r, U_VendorID = u_vendor_id r, U_Email = u_email r,
     U_PasswordHash = u_password_hash r, U_Role = u_role r, U_CreatedAt = u_created_at r\<rparr>"

definition user_by_email :: "string \<Rightarrow> User act" where
  "user_by_email email =
     query (\<lambda>d. map_sum id user_of_row
       (select_first (\<lambda>r. u_email r = email \<and> u_deleted_at r = None) (users d)))"

definition sql_insert_vendor :: "int \<Rightarrow> string \<Rightarrow> string \<Rightarrow> int \<Rightarrow> int \<Rightarrow> db \<Rightarrow> err + db" where
  "sql_insert_vendor ownerID name slug i now d =
     (if list_ex (\<lambda>r. v_slug r = slug) (vendors d) then Inl (ErrUnique ''vendors_slug_key'')
      else if \<not> has_user d ownerID then Inl (ErrForeignKey ''vendors_owner_user_id_fkey'')
      else Inr (d\<lparr>vendors := vendors d @
        [\<lparr>v_id = i, v_owner_user_id = ownerID, v_name = name, v_slug = slug,
          v_status = ''active'', v_created_at = now, v_deleted_at = None\<rparr>]\<rparr>))"

definition vendor_create :: "int \<Rightarrow> string \<Rightarrow> string \<Rightarrow> unit act" where
  "vendor_create ownerID name slug = insert_row TVendors (sql_insert_vendor ownerID name slug)"

definition vendor_of_row :: "vendor_row \<Rightarrow> Vendor" where
  "vendor_of_row r = \<lparr>V_ID = v_id r, V_OwnerUserID = v_owner_user_id r, V_Name = v_name r,
     V_Slug = v_slug r, V_CreatedAt = v_created_at r\<rparr>"

definition vendor_list_by_owner :: "int \<Rightarrow> Vendor list act" where
  "vendor_list_by_owner ownerID =
     query (\<lambda>d. Inr (map vendor_of_row
       (filter (\<lambda>r. v_owner_user_id r = ownerID \<and> v_deleted_at r = None) (vendors d))))"

text \<open>\<open>vendor.Service\<close> passes both on.\<close>

definition vendor_service_create :: "int \<Rightarrow> string \<Rightarrow> string \<Rightarrow> unit act" where
  "vendor_service_create ownerID name slug = vendor_create ownerID name slug"

definition vendor_service_list :: "int \<Rightarrow> Vendor list act" where
  "vendor_service_list ownerID = vendor_list_by_owner ownerID"

lemmas [sql_defs] = sql_insert_user_def sql_insert_vendor_def

section \<open>Tokens\<close>

text \<open>
  HMAC-SHA256 is a parameter. The claims map is written with its keys sorted; the struct
  that reads them has no field for the expiry.
\<close>

record Claims =
  Sub :: int
  Role :: string
  VendorID :: int

record token_lib =
  hmac :: "string \<Rightarrow> string \<Rightarrow> string"

definition claims_json :: "int \<Rightarrow> string \<Rightarrow> int \<Rightarrow> json" where
  "claims_json ex role sub =
     json_map [(''sub'', JInt sub), (''role'', JStr role), (''exp'', JInt ex)]"

definition claims_fields :: "(string \<times> json) list \<Rightarrow> Claims option" where
  "claims_fields ob =
     (case (int_field ''sub'' ob, str_field ''role'' ob, int_field ''vendor_id'' ob) of
        (Some i, Some r, Some v) \<Rightarrow> Some \<lparr>Sub = i, Role = r, VendorID = v\<rparr>
      | _ \<Rightarrow> None)"

definition unmarshal_claims :: "string \<Rightarrow> Claims option" where
  "unmarshal_claims s = decode_struct claims_fields (decode_all s)"

definition sign :: "token_lib \<Rightarrow> string \<Rightarrow> string \<Rightarrow> string" where
  "sign T secret data = b64_encode url_alphabet (hmac T secret data)"

definition jwt_header :: string where
  "jwt_header = b64_encode url_alphabet ''{\"alg\":\"HS256\",\"typ\":\"JWT\"}''"

text \<open>\<open>time.Now().Add(24 * time.Hour).Unix()\<close>\<close>

definition jwt_expiry :: "int \<Rightarrow> int" where
  "jwt_expiry nano = (nano + 24 * 3600000000000) div 1000000000"

definition sign_jwt :: "token_lib \<Rightarrow> string \<Rightarrow> int \<Rightarrow> string \<Rightarrow> int \<Rightarrow> string" where
  "sign_jwt T secret sub role nano =
     (let payload = b64_encode url_alphabet (json_text (claims_json (jwt_expiry nano) role sub));
          sig = sign T secret (jwt_header @ ''.'' @ payload)
      in jwt_header @ ''.'' @ payload @ ''.'' @ sig)"

fun split_on :: "char \<Rightarrow> string \<Rightarrow> string list" where
  "split_on c [] = [[]]"
| "split_on c (x # xs) =
     (if x = c then [] # split_on c xs
      else case split_on c xs of [] \<Rightarrow> [[x]] | s # ss \<Rightarrow> (x # s) # ss)"

definition verify_hmac :: "token_lib \<Rightarrow> string \<Rightarrow> string \<Rightarrow> string \<Rightarrow> bool" where
  "verify_hmac T secret data sig \<longleftrightarrow> b64_encode url_alphabet (hmac T secret data) = sig"

definition parse_jwt :: "token_lib \<Rightarrow> string \<Rightarrow> string \<Rightarrow> Claims option" where
  "parse_jwt T secret token =
     (case split_on CHR ''.'' token of
        [h, p, s] \<Rightarrow>
          if \<not> verify_hmac T secret (h @ ''.'' @ p) s then None
          else (case b64_decode url_alphabet p of
                  None \<Rightarrow> None
                | Some payload \<Rightarrow> unmarshal_claims payload)
      | _ \<Rightarrow> None)"

definition validate_jwt :: "token_lib \<Rightarrow> string \<Rightarrow> string \<Rightarrow> bool" where
  "validate_jwt T secret token =
     (case split_on CHR ''.'' token of
        [h, p, s] \<Rightarrow> sign T secret (h @ ''.'' @ p) = s
      | _ \<Rightarrow> False)"

section \<open>Registration and login\<close>

definition auth_register :: "crypto \<Rightarrow> string \<Rightarrow> string \<Rightarrow> string \<Rightarrow> unit act" where
  "auth_register C salt email password =
     andThen (lift_res (hash_password C salt password)) (\<lambda>h.
     andThen (user_create email h ''user'') (\<lambda>i.
     ensure_for_user i))"

text \<open>
  A wrong password returns the error of the lookup before it, which is nil: no token, and
  no error either.
\<close>

definition auth_login ::
  "crypto \<Rightarrow> token_lib \<Rightarrow> string \<Rightarrow> string \<Rightarrow> string \<Rightarrow> string act" where
  "auth_login C T secret email password =
     andThen (user_by_email email) (\<lambda>u.
     if \<not> compare_password C (U_PasswordHash u) password then ret []
     else andThen getNano (\<lambda>nano.
       ret (sign_jwt T secret (U_ID u) (U_Role u) nano)))"

section \<open>Splitting\<close>

lemma split_on_Nil [simp]: "split_on c xs \<noteq> []"
  by (cases xs) (auto split: list.splits)

lemma split_on_no: "c \<notin> set a \<Longrightarrow> split_on c a = [a]"
  by (induction a) auto

lemma split_on_join: "c \<notin> set a \<Longrightarrow> split_on c (a @ c # b) = a # split_on c b"
  by (induction a) (auto split: list.splits)

text \<open>Joining the parts again gives the string.\<close>

lemma join_with_Cons: "join_with c ((x # s) # ss) = x # join_with c (s # ss)"
  by (cases ss) auto

lemma join_split: "join_with c (split_on c xs) = xs"
proof (induction xs)
  case (Cons x xs)
  obtain s ss where s: "split_on c xs = s # ss" by (cases "split_on c xs") auto
  with Cons show ?case by (auto simp: join_with_Cons)
qed simp

lemma split_on_parts: "s \<in> set (split_on c xs) \<Longrightarrow> c \<notin> set s"
  by (induction xs arbitrary: s) (auto split: list.splits if_splits)

section \<open>Properties of tokens\<close>

text \<open>What was signed is read back, the role with what is not UTF-8 in it replaced.\<close>

lemma claims_text:
  "claims_json ex role sub = JObj [(''exp'', JInt ex), (''role'', JStr role), (''sub'', JInt sub)]"
proof -
  have "''exp'' < ''role''" "''role'' < ''sub''" "''exp'' < ''sub''" by code_simp+
  then show ?thesis by (simp add: claims_json_def json_map_def)
qed

lemma unmarshal_claims_text:
  assumes "fits64 sub"
  shows "unmarshal_claims (json_text (claims_json ex role sub)) =
     Some \<lparr>Sub = sub, Role = repair role, VendorID = 0\<rparr>"
proof -
  have "decode_all (json_text (claims_json ex role sub)) = Some (repair_json (claims_json ex role sub))"
    by (rule decode_repaired) (simp_all add: claims_text max_depth_def)
  moreover have "repair_json (claims_json ex role sub) =
      JObj [(''exp'', JInt ex), (''role'', JStr (repair role)), (''sub'', JInt sub)]"
    by (simp add: claims_text)
  ultimately show ?thesis using assms
    by (simp add: unmarshal_claims_def decode_struct_def claims_fields_def int_field_def
        str_field_def members_def same_name_def fold_char_def)
qed

lemma split_sign_jwt:
  "split_on CHR ''.'' (sign_jwt T secret sub role nano) =
     [jwt_header, b64_encode url_alphabet (json_text (claims_json (jwt_expiry nano) role sub)),
      sign T secret (jwt_header @ ''.'' @ b64_encode url_alphabet (json_text (claims_json (jwt_expiry nano) role sub)))]"
  unfolding sign_jwt_def Let_def sign_def jwt_header_def
  by (simp add: split_on_join split_on_no no_dot_url)

lemma parse_sign_jwt:
  assumes "fits64 sub"
  shows "parse_jwt T secret (sign_jwt T secret sub role nano) =
     Some \<lparr>Sub = sub, Role = repair role, VendorID = 0\<rparr>"
  using assms
  by (simp add: parse_jwt_def split_sign_jwt verify_hmac_def sign_def b64_decode_encode unmarshal_claims_text)

lemma parse_jwt_Some:
  assumes "parse_jwt T secret token = Some c"
  obtains h p payload where "token = h @ ''.'' @ p @ ''.'' @ b64_encode url_alphabet
      (hmac T secret (h @ ''.'' @ p))"
    and "b64_decode url_alphabet p = Some payload" and "unmarshal_claims payload = Some c"
    and "CHR ''.'' \<notin> set h" and "CHR ''.'' \<notin> set p"
proof -
  from assms obtain h p s payload where parts: "split_on CHR ''.'' token = [h, p, s]"
    and "b64_encode url_alphabet (hmac T secret (h @ ''.'' @ p)) = s"
    and "b64_decode url_alphabet p = Some payload" "unmarshal_claims payload = Some c"
    by (auto simp: parse_jwt_def verify_hmac_def split: list.splits if_splits option.splits)
  moreover have "token = h @ ''.'' @ p @ ''.'' @ s"
    using join_split [of "CHR ''.''" token] by (simp add: parts)
  moreover have "CHR ''.'' \<notin> set h" "CHR ''.'' \<notin> set p"
    using split_on_parts [of _ "CHR ''.''" token] by (auto simp: parts)
  ultimately show thesis using that by auto
qed

lemma parse_validates: "parse_jwt T secret token = Some c \<Longrightarrow> validate_jwt T secret token"
  by (auto simp: parse_jwt_def validate_jwt_def verify_hmac_def sign_def
      split: list.splits if_splits)

section \<open>Frames and integrity\<close>

lemma auth_frames [frame_intros]:
  "via framed_rel (user_create e h r)" "via silent_rel (user_create e h r)"
  "via framed_rel (user_by_email e)" "via silent_rel (user_by_email e)"
  "via framed_rel (vendor_create i n s)" "via silent_rel (vendor_create i n s)"
  "via framed_rel (vendor_list_by_owner i)" "via silent_rel (vendor_list_by_owner i)"
  unfolding user_create_def user_by_email_def vendor_create_def vendor_list_by_owner_def
  by (intro frame_intros)+

lemma auth_service_frames [frame_intros]:
  "via framed_rel (auth_register C salt e p)" "via silent_rel (auth_register C salt e p)"
  "via framed_rel (auth_login C T s e p)" "via silent_rel (auth_login C T s e p)"
  unfolding auth_register_def auth_login_def by (intro frame_intros)+

lemma user_quiet [quiet_intros]:
  "via quiet_rel (user_by_email e)" "via quiet_rel (vendor_list_by_owner i)"
  "via quiet_rel (auth_login C T s e' p)"
proof -
  show u: "via quiet_rel (user_by_email e)" for e
    unfolding user_by_email_def by (intro quiet_intros)
  show "via quiet_rel (vendor_list_by_owner i)"
    unfolding vendor_list_by_owner_def by (intro quiet_intros)
  show "via quiet_rel (auth_login C T s e' p)"
    unfolding auth_login_def by (intro quiet_intros u)
qed

end
