(* ===== verification/Demo.thy ===== *)
theory Demo
  imports ShopInv ServiceLife Worker AuthService
begin

text \<open>
  A small concrete shop on which the witnesses evaluate the operations: one vendor with one
  item, a user with 500 in the wallet, one panel whose token is encrypted by a toy
  instance of the cryptographic parameters, and a \<open>service_catalog\<close> row to refer to.
\<close>

definition toy_crypto :: crypto where
  "toy_crypto = \<lparr>sha256 = (\<lambda>s. take 32 (s @ replicate 32 (CHR 0x00))),
     gcm_seal = (\<lambda>k n p. p @ ''tag''),
     gcm_open = (\<lambda>k n c. Some (take (length c - 3) c))\<rparr>"

text \<open>Tokens are signed by a toy HMAC that repeats what it is given.\<close>

definition toy_tokens :: token_lib where
  "toy_tokens = \<lparr>hmac = (\<lambda>k m. k @ m)\<rparr>"

lemma toy_aead: "aead_ok toy_crypto"
  by (simp add: aead_ok_def toy_crypto_def)

definition demo_item :: catalog_row where
  "demo_item = \<lparr>c_id = 1, c_vendor_id = 1, c_slug = ''vless'', c_title = ''VLESS'',
     c_description = [], c_protocol = ''vless'', c_inbound_id = 1, c_xui_node_id = 1,
     c_traffic_limit_gb = 100, c_duration_days = 30, c_price_toman = 200, c_is_active = True,
     c_auto_provision = True, c_renewal_enabled = True, c_country_code = ''DE'',
     c_stock_status = ''in_stock'', c_deleted_at = None\<rparr>"

definition demo_db :: db where
  "demo_db = empty_db\<lparr>
     users := [\<lparr>u_id = 1, u_vendor_id = None, u_email = ''v'', u_password_hash = ''x'',
         u_role = ''vendor'', u_created_at = 0, u_deleted_at = None\<rparr>,
       \<lparr>u_id = 2, u_vendor_id = None, u_email = ''u'', u_password_hash = ''x'',
         u_role = ''user'', u_created_at = 0, u_deleted_at = None\<rparr>],
     vendors := [\<lparr>v_id = 1, v_owner_user_id = 1, v_name = ''Demo'', v_slug = ''demo'',
         v_status = ''active'', v_created_at = 0, v_deleted_at = None\<rparr>],
     wallets := [\<lparr>wa_id = 1, wa_user_id = 2, wa_vendor_id = None, wa_balance = 500,
         wa_updated_at = 0, wa_deleted_at = None\<rparr>],
     wallet_txs := [\<lparr>wt_id = 1, wt_wallet_id = 1, wt_user_id = 2, wt_amount = 500,
         wt_type = ''admin_topup'', wt_created_at = 0, wt_deleted_at = None\<rparr>],
     service_catalog := [\<lparr>sc_id = 1, sc_vendor_id = 1, sc_name = ''s'', sc_protocol = ''vless'',
         sc_duration_days = 30, sc_traffic_gb = 100, sc_price = 200\<rparr>],
     catalog_items := [demo_item],
     panels := [\<lparr>x_id = 1, x_vendor_id = 1, x_name = ''p'', x_url = ''http://p'',
         x_token = encrypt toy_crypto ''key'' ''token'', x_inbound_id = 7, x_is_active = True,
         x_health = ''unknown'', x_last_checked = None, x_updated_at = 0,
         x_deleted_at = None\<rparr>]\<rparr>"

definition demo_seq :: seqs where
  "demo_seq = (\<lambda>t. if t \<in> {TUsers, TVendors} then 2
     else if t \<in> {TWallets, TWalletTxs, TCatalogItems, TPanels} then 1 else 0)"

definition demo_world :: "fault list \<Rightarrow> reply list \<Rightarrow> world" where
  "demo_world fs rs = \<lparr>w_db = demo_db, w_seq = demo_seq, w_faults = fs, w_now = 1000000,
     w_nano = 1000000000, w_hub = new_hub bus_new, w_replies = rs, w_sent = []\<rparr>"

definition demo_req :: CreateRequest where
  "demo_req = \<lparr>R_VendorID = 1, R_UserID = 2, R_CatalogID = 1, R_IdempotencyKey = ''k''\<rparr>"

text \<open>The same shop, with another balance in the wallet.\<close>

definition poor_world :: "int \<Rightarrow> world" where
  "poor_world b = (demo_world [] [])\<lparr>w_db := demo_db\<lparr>wallets :=
     map (\<lambda>r. r\<lparr>wa_balance := b\<rparr>) (wallets demo_db)\<rparr>\<rparr>"

text \<open>What the panel answers, in its own order of members and with one the client ignores.\<close>

definition demo_reply :: reply where
  "demo_reply = Reply 200 ''{\"id\": 5, \"expires_at\": 2592001, \"uuid\": \"uuid-1\"}''"

text \<open>Two steps on: an order placed, and the service provisioned for it.\<close>

definition after_create :: world where
  "after_create = snd (order_create demo_req
     (demo_world [] [demo_reply]))"

definition after_tick :: world where
  "after_tick = snd (worker_tick toy_crypto ''key'' (multi_provision (\<lambda>_. True)) after_create)"

lemma demo_create: "fst (order_create demo_req (demo_world [] [])) = Inr (approved_response 1)"
  by code_simp

lemma demo_lost:
  "fst (order_create demo_req (demo_world (replicate 10 FOk @ [FLost]) []))
     = Inl (ErrWrap ''commit'' ErrDriver)"
  by code_simp


text \<open>The shop with one service, of the given status and expiry.\<close>

definition service_world :: "string \<Rightarrow> int \<Rightarrow> world" where
  "service_world st ex = (demo_world [] [])\<lparr>w_db := demo_db\<lparr>proxies :=
     [\<lparr>p_id = 1, p_vendor_id = 1, p_user_id = 2, p_order_id = None, p_panel_id = Some 1,
       p_uuid = ''u'', p_protocol = ''vless'', p_subscription_url = ''s'', p_qr_payload = ''s'',
       p_config_payload = [], p_status = st, p_expires_at = Some ex, p_traffic_used_gb = 0,
       p_traffic_limit_gb = 100, p_duration_days = 30, p_created_at = 0, p_updated_at = 0,
       p_deleted_at = None\<rparr>]\<rparr>,
     w_seq := demo_seq(TProxies := 1)\<rparr>"

lemma service_world_inv: "holds proxy_inv (service_world st ex)"
  by (simp add: holds_def proxy_inv_def service_world_def demo_db_def demo_seq_def ids_ok_def)

end
