(* ===== verification/OrderProps.thy ===== *)
theory OrderProps
  imports Demo
begin

text \<open>
  The properties of the order service. \<open>create_outcome\<close> and \<open>renew_outcome\<close> name what each
  operation may have done; the properties say that it did nothing else.
\<close>

section \<open>Create\<close>

text \<open>
  A fresh order was placed: the item is the vendor's and active, the five writes happened
  together, and (when the caller was told) one notification was sent.
\<close>

definition fresh_order :: "CreateRequest \<Rightarrow> world \<Rightarrow> world \<Rightarrow> bool" where
  "fresh_order req w w' \<longleftrightarrow>
     R_IdempotencyKey req \<noteq> [] \<and>
     (\<exists>item. select_first (live_item (R_VendorID req) (R_CatalogID req)) (catalog_items (w_db w))
          = Inr item \<and> c_is_active item \<and> order_effect req (c_price_toman item) w w')"

text \<open>The key was used before: the answer is the order it was used for.\<close>

definition duplicate_of :: "CreateRequest \<Rightarrow> CreateResponse \<Rightarrow> world \<Rightarrow> bool" where
  "duplicate_of req resp w \<longleftrightarrow>
     (\<exists>k row. k \<in> set (idem_keys (w_db w)) \<and>
        idem_match (R_VendorID req) (R_UserID req) (R_IdempotencyKey req) k \<and>
        k_order_id k = Some (o_id row) \<and> row \<in> set (orders (w_db w)) \<and>
        o_vendor_id row = R_VendorID req \<and> resp = duplicate_response (order_of_row row))"

lemma fresh_order_commit:
  assumes "R_IdempotencyKey req \<noteq> []"
    and "select_first (live_item (R_VendorID req) (R_CatalogID req)) (catalog_items (w_db w)) = Inr item"
    and "c_is_active item" and "order_effect req (c_price_toman item) w w'"
  shows "fresh_order req w w'"
  using assms by (auto simp: fresh_order_def)

lemma create_outcome:
  "case order_create req w of
     (Inr resp, w') \<Rightarrow>
       fresh_order req w w' \<and> resp = approved_response (w_seq w TOrders + 1) \<and>
         w_hub w' = approved_note req (w_seq w TOrders + 1) (w_hub w) \<or>
       duplicate_of req resp w \<and> w_db w' = w_db w \<and> w_hub w' = w_hub w
   | (Inl e, w') \<Rightarrow>
       w_hub w' = w_hub w \<and>
       (w_db w' = w_db w \<or> e = ErrWrap ''commit'' ErrDriver \<and> fresh_order req w w')"
proof -
  obtain r w' where c: "order_create req w = (r, w')" by fastforce
  from c show ?thesis
  proof (cases rule: order_create_cases)
    case (early e)
    with c show ?thesis by simp
  next
    case (dup k oid row)
    then have "duplicate_of req (duplicate_response (order_of_row row)) w"
      unfolding duplicate_of_def
      by (intro exI [of _ k] exI [of _ row]) (auto dest: select_first_InrD)
    with c dup show ?thesis by simp
  next
    case (fresh item w1)
    from create_commit_outcomes [OF fresh(5)] fresh(4) c show ?thesis
      by (auto simp: price_of_row_def split: sum.splits intro: fresh_order_commit [OF fresh(1-3)])
  qed
qed

text \<open>
  C1. \<open>Create\<close> is all or nothing and answers truthfully. On success it either placed one
  fresh order (an active item of the vendor, the wallet able to pay, key, debit, ledger
  entry, order, link and job all written, one notification sent) and returns its number,
  or the key had been used and it returns that order with nothing changed. On an error no
  notification is sent and the tables are as before, with one exception: the answer to the
  commit was lost, the error says so, and the complete order is there.
\<close>

theorem create_all_or_nothing:
  "case order_create req w of
     (Inr resp, w') \<Rightarrow>
       fresh_order req w w' \<and> resp = approved_response (w_seq w TOrders + 1) \<and>
         w_hub w' = approved_note req (w_seq w TOrders + 1) (w_hub w) \<or>
       duplicate_of req resp w \<and> w_db w' = w_db w \<and> w_hub w' = w_hub w
   | (Inl e, w') \<Rightarrow>
       w_hub w' = w_hub w \<and>
       (w_db w' = w_db w \<or> e = ErrWrap ''commit'' ErrDriver \<and> fresh_order req w w')"
  by (rule create_outcome)

section \<open>Retries\<close>

lemma key_after_effect:
  assumes "shop_inv (w_seq w) (w_db w)" and "order_effect req p w w1"
  obtains row where "row \<in> set (orders (w_db w1))" "o_id row = w_seq w TOrders + 1"
    "select_first (live_order (R_VendorID req) (o_id row)) (orders (w_db w1)) = Inr row"
    "o_vendor_id row = R_VendorID req" "o_status row = ''approved''"
    "o_lifecycle_state row = ''pending''"
    "find (idem_match (R_VendorID req) (R_UserID req) (R_IdempotencyKey req)) (idem_keys (w_db w1))
       = Some \<lparr>k_id = w_seq w TIdemKeys + 1, k_vendor_id = R_VendorID req,
           k_user_id = R_UserID req, k_key = R_IdempotencyKey req,
           k_order_id = Some (o_id row), k_created_at = w_now w\<rparr>"
    "0 < o_id row"
proof -
  let ?d = "w_db w"
  from assms(2) obtain r where r: "\<not> list_ex (idem_match (R_VendorID req) (R_UserID req)
      (R_IdempotencyKey req)) (idem_keys ?d)" and
    d1: "w_db w1 = placed r (R_VendorID req) (R_UserID req) (R_CatalogID req) p
        (R_IdempotencyKey req) (w_seq w) (w_now w) ?d"
    by (auto simp: order_effect_def can_place_def)
  let ?row = "\<lparr>o_id = w_seq w TOrders + 1, o_vendor_id = R_VendorID req, o_user_id = R_UserID req,
      o_catalog_id = R_CatalogID req, o_service_id = None, o_amount = p, o_status = ''approved'',
      o_lifecycle_state = ''pending'', o_idempotency_key = Some (R_IdempotencyKey req),
      o_created_at = w_now w, o_updated_at = w_now w, o_deleted_at = None\<rparr>"
  have ids: "ids_ok (map o_id (orders ?d)) (w_seq w TOrders)"
    using assms(1) by (simp add: shop_inv_def)
  then have "o_id q \<noteq> w_seq w TOrders + 1" if "q \<in> set (orders ?d)" for q
    using that by (rule ids_ok_map_fresh)
  then have sel: "select_first (live_order (R_VendorID req) (o_id ?row)) (orders (w_db w1)) = Inr ?row"
    by (intro select_first_unique) (auto simp: d1 placed_def)
  have "find (idem_match (R_VendorID req) (R_UserID req) (R_IdempotencyKey req)) (idem_keys ?d) = None"
    using r by (auto simp: find_None_iff list_ex_iff)
  then have "find (idem_match (R_VendorID req) (R_UserID req) (R_IdempotencyKey req)) (idem_keys (w_db w1))
       = Some \<lparr>k_id = w_seq w TIdemKeys + 1, k_vendor_id = R_VendorID req,
           k_user_id = R_UserID req, k_key = R_IdempotencyKey req,
           k_order_id = Some (o_id ?row), k_created_at = w_now w\<rparr>"
    by (simp add: d1 placed_def find_append)
  then show thesis
    using ids sel by (intro that [of ?row]) (auto simp: d1 placed_def ids_ok_def)
qed

text \<open>Asking again for an order whose key is in the tables.\<close>

lemma order_create_again:
  assumes "next_fault w = FOk" and "next_fault (pop w) = FOk" and "R_IdempotencyKey req \<noteq> []"
    and "find (idem_match (R_VendorID req) (R_UserID req) (R_IdempotencyKey req)) (idem_keys (w_db w))
       = Some k" and "k_order_id k = Some i" and "i \<noteq> 0"
    and "select_first (live_order (R_VendorID req) i) (orders (w_db w)) = Inr row"
  shows "order_create req w = (Inr (duplicate_response (order_of_row row)), pop (pop w))"
proof -
  have "idem_resolve (R_VendorID req) (R_UserID req) (R_IdempotencyKey req) w = (Inr i, pop w)"
    using assms by (simp add: idem_resolve_Inr)
  moreover have "orders_by_id (R_VendorID req) i (pop w) = (Inr (order_of_row row), pop (pop w))"
    using assms by (simp add: orders_by_id_def query_Inr)
  ultimately show ?thesis
    using assms(3,6) by (simp add: order_create_def andThen_def onErr_def ret_def)
qed

text \<open>
  C2. A retry is safe. If \<open>Create\<close> changed the tables at all, whether it reported success
  or the answer was lost, then the same request asked again (the statements getting
  through) returns the order it placed, marked as a duplicate, and changes nothing: the
  user is charged once.
\<close>

theorem create_retry_is_duplicate:
  assumes "holds shop_inv w" and "order_create req w = (r, w1)" and "w_db w1 \<noteq> w_db w"
    and "w_faults w1 = []"
  shows "order_create req w1 =
     (Inr \<lparr>RS_OrderID = w_seq w TOrders + 1, RS_Status = ''approved'', RS_Lifecycle = ''pending'',
        RS_Duplicate = True\<rparr>, w1)"
proof -
  from create_outcome [where req = req and w = w] assms(2,3) have "fresh_order req w w1"
    by (auto split: sum.splits)
  then obtain p where key: "R_IdempotencyKey req \<noteq> []" and eff: "order_effect req p w w1"
    by (auto simp: fresh_order_def)
  have "shop_inv (w_seq w) (w_db w)" using assms(1) by (simp add: holds_def)
  then obtain row where row: "o_id row = w_seq w TOrders + 1" "o_status row = ''approved''"
      "o_lifecycle_state row = ''pending''" and
    pre: "find (idem_match (R_VendorID req) (R_UserID req) (R_IdempotencyKey req)) (idem_keys (w_db w1))
       = Some \<lparr>k_id = w_seq w TIdemKeys + 1, k_vendor_id = R_VendorID req,
           k_user_id = R_UserID req, k_key = R_IdempotencyKey req,
           k_order_id = Some (o_id row), k_created_at = w_now w\<rparr>" "0 < o_id row"
      "select_first (live_order (R_VendorID req) (o_id row)) (orders (w_db w1)) = Inr row"
    using eff by (rule key_after_effect)
  note nf = nofault_pop [OF assms(4)]
  have "order_create req w1 = (Inr (duplicate_response (order_of_row row)), pop (pop w1))"
    using nf key pre by (intro order_create_again) auto
  with row nf show ?thesis
    by (simp add: duplicate_response_def order_of_row_def)
qed

theorem create_retry_is_duplicate_witness:
  "fst (order_create demo_req (snd (order_create demo_req
      (demo_world (replicate 10 FOk @ [FLost]) [])))) =
     Inr \<lparr>RS_OrderID = 1, RS_Status = ''approved'', RS_Lifecycle = ''pending'',
        RS_Duplicate = True\<rparr>"
proof -
  let ?w = "demo_world (replicate 10 FOk @ [FLost]) []"
  obtain r w1 where c: "order_create demo_req ?w = (r, w1)" by fastforce
  have "orders (w_db (snd (order_create demo_req ?w))) \<noteq> orders (w_db ?w)" by code_simp
  with c have "w_db w1 \<noteq> w_db ?w" by auto
  moreover have "w_faults (snd (order_create demo_req ?w)) = []" by code_simp
  with c have "w_faults w1 = []" by simp
  moreover have "w_seq ?w TOrders = 0" by code_simp
  moreover have "holds shop_inv ?w"
    by (simp add: holds_def shop_inv_def demo_world_def demo_db_def demo_seq_def empty_db_def
        order_debits_def)
  ultimately show ?thesis
    using create_retry_is_duplicate [of ?w demo_req r w1] c by simp
qed

section \<open>When an order is accepted\<close>

text \<open>
  C3. Nothing but the conditions the code names can stop an order. With every statement
  getting through, a key not used before, an active item of the vendor, and a wallet that
  holds its price, \<open>Create\<close> succeeds, and it leaves exactly the five writes of that order
  at that price in the tables.
\<close>

theorem create_accepts:
  assumes "w_faults w = []" and "distinct (map wa_id (wallets (w_db w)))"
    and "R_IdempotencyKey req \<noteq> []"
    and "select_first (live_item (R_VendorID req) (R_CatalogID req)) (catalog_items (w_db w)) = Inr item"
    and "c_is_active item"
    and "can_place r (R_VendorID req) (R_UserID req) (R_CatalogID req) (c_price_toman item)
        (R_IdempotencyKey req) (w_db w)"
  shows "\<exists>w'. order_create req w = (Inr (approved_response (w_seq w TOrders + 1)), w') \<and>
     w_db w' = placed r (R_VendorID req) (R_UserID req) (R_CatalogID req) (c_price_toman item)
        (R_IdempotencyKey req) (w_seq w) (w_now w) (w_db w)"
  using order_create_complete [OF assms] by (elim exE conjE) (intro exI conjI)

theorem create_accepts_witness:
  "fst (order_create demo_req (demo_world [] [])) = Inr (approved_response 1)"
proof -
  let ?w = "demo_world [] []"
  have s: "select_first (live_item (R_VendorID demo_req) (R_CatalogID demo_req))
      (catalog_items (w_db ?w)) = Inr demo_item" by code_simp
  have p: "can_place (hd (wallets demo_db)) (R_VendorID demo_req) (R_UserID demo_req)
      (R_CatalogID demo_req) (c_price_toman demo_item) (R_IdempotencyKey demo_req) (w_db ?w)"
    by code_simp
  have h: "w_faults ?w = []" "distinct (map wa_id (wallets (w_db ?w)))"
    "R_IdempotencyKey demo_req \<noteq> []" "c_is_active demo_item" "w_seq ?w TOrders = 0"
    by code_simp+
  from create_accepts [OF h(1-3) s h(4) p] h(5) show ?thesis by auto
qed

text \<open>
  C6. Too little money. With every statement getting through and everything else in order,
  an order that costs more than the wallet holds is refused with the error of the debit,
  and the tables are as before: the reserved key is rolled back with the rest.
\<close>

theorem create_insufficient:
  assumes "w_faults w = []" and "R_IdempotencyKey req \<noteq> []"
    and "select_first (live_item (R_VendorID req) (R_CatalogID req)) (catalog_items (w_db w)) = Inr item"
    and "c_is_active item"
    and "has_vendor (w_db w) (R_VendorID req)" and "has_user (w_db w) (R_UserID req)"
    and "\<not> list_ex (idem_match (R_VendorID req) (R_UserID req) (R_IdempotencyKey req)) (idem_keys (w_db w))"
    and "select_first (live_wallet (R_UserID req)) (wallets (w_db w)) = Inr r"
    and "wa_balance r < c_price_toman item"
  shows "\<exists>w'. order_create req w =
      (Inl (ErrWrap ''wallet deduction'' (ErrNew ''insufficient wallet balance'')), w') \<and>
     w_db w' = w_db w"
proof -
  note p = nofault_pop [OF assms(1)]
  have "find (idem_match (R_VendorID req) (R_UserID req) (R_IdempotencyKey req))
      (idem_keys (w_db w)) = None"
    using assms(7) by (auto simp: find_None_iff list_ex_iff)
  then have res: "idem_resolve (R_VendorID req) (R_UserID req) (R_IdempotencyKey req) w = (Inr 0, w)"
    using p by (simp add: idem_resolve_Inr)
  have val: "create_validate req w = (Inr (price_of_row item), w)"
    using p assms(3,4) by (simp add: create_validate_Inr)
  obtain w1 where 1: "idem_reserve_tx (R_VendorID req) (R_UserID req) (R_IdempotencyKey req) w
      = (Inr (), w1)" "w_faults w1 = []" "wallets (w_db w1) = wallets (w_db w)"
    using assms(1,5-7) by (simp add: idem_reserve_tx_def nofault_simps sql_insert_idem_def Let_def)
  have "deduct_tx (R_UserID req) (c_price_toman item) w1
      = (Inl (ErrNew ''insufficient wallet balance''), w1)"
    using deduct_tx_insufficient [of "R_UserID req" w1 r] 1 assms(8,9) nofault_pop [OF 1(2)] by simp
  then have "create_body req (price_of_row item) w =
      (Inl (ErrWrap ''wallet deduction'' (ErrNew ''insufficient wallet balance'')), w1)"
    using 1 by (simp add: create_body_def andThen_def onErr_def price_of_row_def)
  then show ?thesis
    using assms(2) res val p
    by (simp add: order_create_def create_commit_def transaction_def begin_tx_def roundtrip_def
        andThen_def onErr_def ret_def)
qed

theorem create_insufficient_witness:
  "fst (order_create demo_req (poor_world 199)) =
     Inl (ErrWrap ''wallet deduction'' (ErrNew ''insufficient wallet balance''))"
proof -
  let ?w = "poor_world 199"
  have s: "select_first (live_item (R_VendorID demo_req) (R_CatalogID demo_req))
      (catalog_items (w_db ?w)) = Inr demo_item" by code_simp
  have l: "select_first (live_wallet (R_UserID demo_req)) (wallets (w_db ?w)) =
      Inr (hd (wallets (w_db ?w)))" by code_simp
  have h: "w_faults ?w = []" "R_IdempotencyKey demo_req \<noteq> []" "c_is_active demo_item"
    "has_vendor (w_db ?w) (R_VendorID demo_req)" "has_user (w_db ?w) (R_UserID demo_req)"
    "\<not> list_ex (idem_match (R_VendorID demo_req) (R_UserID demo_req) (R_IdempotencyKey demo_req))
       (idem_keys (w_db ?w))"
    "wa_balance (hd (wallets (w_db ?w))) < c_price_toman demo_item"
    by code_simp+
  from create_insufficient [OF h(1,2) s h(3-6) l h(7)] show ?thesis by auto
qed

text \<open>
  C7. Orders and renewals never overdraw a wallet: if no balance is negative before, none
  is after, whatever the outcome.
\<close>

theorem orders_never_overdraw:
  "keeps solvent (order_create req) \<and> keeps solvent (order_renew userID serviceID)"
  by (intro conjI solvency.keeps_order_create solvency.keeps_order_renew)

section \<open>Renew\<close>

text \<open>
  C8. \<open>Renew\<close> is all or nothing. On success one order for the service's own vendor and item
  at the present price was placed under a key of its own, and the service was extended; the
  caller is told and one notification is sent. On an error no notification is sent and
  the tables are as before, unless the answer to the commit was lost.
\<close>

theorem renew_all_or_nothing:
  "case order_renew userID serviceID w of
     (Inr resp, w') \<Rightarrow>
       renew_effect userID serviceID w w' \<and> resp = approved_response (w_seq w TOrders + 1) \<and>
       w_hub w' = renewed_note userID serviceID (w_seq w TOrders + 1) (w_hub w)
   | (Inl e, w') \<Rightarrow>
       w_hub w' = w_hub w \<and>
       (w_db w' = w_db w \<or> e = ErrDriver \<and> renew_effect userID serviceID w w')"
  using order_renew_outcomes [of userID serviceID w "fst (order_renew userID serviceID w)"
      "snd (order_renew userID serviceID w)"]
  by (auto split: prod.splits sum.splits)

text \<open>
  The key a renewal reserves names the service and the nanosecond: two renewals share
  a key only if they are for the same service at the same instant.
\<close>

theorem renew_key_injective: "renew_key i n = renew_key j m \<longleftrightarrow> i = j \<and> n = m"
  by (rule renew_key_inj)

end
