(* ===== verification/MemoryStore.thy ===== *)
theory MemoryStore
  imports AuthService
begin

text \<open>
  The in-memory store of \<open>internal/store/store.go\<close>, and the same contract stated once for
  it and for the SQL repositories: an account store.
\<close>

record Wallet =
  W_ID :: int
  W_UserID :: int
  W_VendorID :: "int option"
  W_Balance :: int
  W_UpdatedAt :: int

record Memory =
  m_users :: "User list"
  m_vendors :: "Vendor list"
  m_wallets :: "Wallet list"

definition new_memory :: Memory where
  "new_memory = \<lparr>m_users = [], m_vendors = [], m_wallets = []\<rparr>"

definition create_user :: "int \<Rightarrow> string \<Rightarrow> string \<Rightarrow> string \<Rightarrow> Memory \<Rightarrow> (err + int) \<times> Memory" where
  "create_user now email hash role m =
     (if list_ex (\<lambda>u. U_Email u = email) (m_users m) then (Inl (ErrNew ''email exists''), m)
      else
        let i = int (length (m_users m)) + 1 in
        (Inr i, m\<lparr>m_users := m_users m @
            [\<lparr>U_ID = i, U_VendorID = None, U_Email = email, U_PasswordHash = hash, U_Role = role,
              U_CreatedAt = now\<rparr>],
          m_wallets := m_wallets m @
            [\<lparr>W_ID = int (length (m_wallets m)) + 1, W_UserID = i, W_VendorID = None,
              W_Balance = 0, W_UpdatedAt = now\<rparr>]\<rparr>))"

definition get_user_by_email :: "string \<Rightarrow> Memory \<Rightarrow> err + User" where
  "get_user_by_email email m =
     (case find (\<lambda>u. U_Email u = email) (m_users m) of
        None \<Rightarrow> Inl (ErrNew ''not found'') | Some u \<Rightarrow> Inr u)"

definition create_vendor :: "int \<Rightarrow> int \<Rightarrow> string \<Rightarrow> string \<Rightarrow> Memory \<Rightarrow> (err + unit) \<times> Memory" where
  "create_vendor now owner name slug m =
     (if list_ex (\<lambda>v. V_Slug v = slug) (m_vendors m) then (Inl (ErrNew ''slug exists''), m)
      else (Inr (), m\<lparr>m_vendors := m_vendors m @
        [\<lparr>V_ID = int (length (m_vendors m)) + 1, V_OwnerUserID = owner, V_Name = name,
          V_Slug = slug, V_CreatedAt = now\<rparr>]\<rparr>))"

definition list_vendor :: "int \<Rightarrow> Memory \<Rightarrow> Vendor list" where
  "list_vendor owner m = filter (\<lambda>v. V_OwnerUserID v = owner) (m_vendors m)"

definition memory_wallet_balance :: "int \<Rightarrow> Memory \<Rightarrow> err + int" where
  "memory_wallet_balance user m =
     (case find (\<lambda>w. W_UserID w = user) (m_wallets m) of
        None \<Rightarrow> Inl (ErrNew ''not found'') | Some w \<Rightarrow> Inr (W_Balance w))"

section \<open>Invariant\<close>

text \<open>
  Identifiers are positions, emails and slugs are unique, and the wallets list the users
  one by one.
\<close>

definition memory_ok :: "Memory \<Rightarrow> bool" where
  "memory_ok m \<longleftrightarrow>
     map U_ID (m_users m) = map (\<lambda>i. int i + 1) [0..<length (m_users m)] \<and>
     distinct (map U_Email (m_users m)) \<and>
     map W_UserID (m_wallets m) = map U_ID (m_users m) \<and>
     map W_ID (m_wallets m) = map (\<lambda>i. int i + 1) [0..<length (m_wallets m)] \<and>
     map V_ID (m_vendors m) = map (\<lambda>i. int i + 1) [0..<length (m_vendors m)] \<and>
     distinct (map V_Slug (m_vendors m))"

lemma memory_ok_new: "memory_ok new_memory"
  by (simp add: memory_ok_def new_memory_def)

lemma memory_ok_create_user: "memory_ok m \<Longrightarrow> memory_ok (snd (create_user n e h r m))"
  by (auto simp: memory_ok_def create_user_def Let_def list_ex_iff)

lemma memory_ok_create_vendor: "memory_ok m \<Longrightarrow> memory_ok (snd (create_vendor n ow nm s m))"
  by (auto simp: memory_ok_def create_vendor_def list_ex_iff)

lemma memory_ids_distinct: "memory_ok m \<Longrightarrow> distinct (map U_ID (m_users m))"
  by (auto simp: memory_ok_def distinct_map inj_on_def)

section \<open>The contract of an account store\<close>

text \<open>
  What a caller relies on: a created user is found under its email with an empty wallet, a
  second user with that email is refused, and other users' data stay. \<open>create\<close> gets the
  email, hash and role; \<open>lookup\<close> and \<open>funds\<close> observe the store.
\<close>

locale account_store =
  fixes create :: "string \<Rightarrow> string \<Rightarrow> string \<Rightarrow> 's \<Rightarrow> (err + int) \<times> 's"
    and lookup :: "string \<Rightarrow> 's \<Rightarrow> (int \<times> string \<times> string) option"
    and funds :: "int \<Rightarrow> 's \<Rightarrow> int option"
    and ok :: "'s \<Rightarrow> bool"
  assumes create_ok: "ok s \<Longrightarrow> create e h r s = (x, s') \<Longrightarrow> ok s'"
    and create_new: "ok s \<Longrightarrow> lookup e s = None \<Longrightarrow> \<exists>i s'. create e h r s = (Inr i, s') \<and>
      lookup e s' = Some (i, h, r) \<and> funds i s' = Some 0 \<and> funds i s = None"
    and create_dup: "ok s \<Longrightarrow> lookup e s \<noteq> None \<Longrightarrow> \<exists>er s'. create e h r s = (Inl er, s') \<and>
      (\<forall>e'. lookup e' s' = lookup e' s) \<and> (\<forall>i. funds i s' = funds i s)"
    and create_frame: "ok s \<Longrightarrow> create e h r s = (Inr i, s') \<Longrightarrow> e' \<noteq> e \<Longrightarrow>
      lookup e' s' = lookup e' s"
    and create_funds: "ok s \<Longrightarrow> create e h r s = (Inr i, s') \<Longrightarrow> j \<noteq> i \<Longrightarrow>
      funds j s' = funds j s"
begin

text \<open>Creating the same account twice changes nothing the second time.\<close>

lemma create_twice:
  assumes "ok s" and "create e h r s = (Inr i, s1)"
  shows "\<exists>er s2. create e h' r' s1 = (Inl er, s2) \<and> (\<forall>e'. lookup e' s2 = lookup e' s1) \<and>
     (\<forall>j. funds j s2 = funds j s1)"
proof -
  have "lookup e s = None"
    using create_dup [OF assms(1), of e h r] assms(2) by fastforce
  with create_new [OF assms(1), of e h r] assms(2) have "lookup e s1 \<noteq> None" by auto
  moreover have "ok s1" using assms by (rule create_ok)
  ultimately show ?thesis by (intro create_dup)
qed

text \<open>Two accounts are independent.\<close>

lemma create_two:
  assumes "ok s" and "create e h r s = (Inr i, s1)" and "create e' h' r' s1 = (Inr j, s2)"
  shows "i \<noteq> j \<and> lookup e s2 = Some (i, h, r) \<and> funds i s2 = Some 0"
proof -
  have s1: "ok s1" using assms(1,2) by (rule create_ok)
  have l: "lookup e s = None" using create_dup [OF assms(1), of e h r] assms(2) by fastforce
  with create_new [OF assms(1) this, of h r] assms(2)
  have 1: "lookup e s1 = Some (i, h, r)" "funds i s1 = Some 0" by auto
  have l': "lookup e' s1 = None" using create_dup [OF s1, of e' h' r'] assms(3) by fastforce
  with 1 have "e' \<noteq> e" by auto
  have "funds j s1 = None" using create_new [OF s1 l', of h' r'] assms(3) by auto
  with 1 have "i \<noteq> j" by auto
  with 1 show ?thesis
    using create_frame [OF s1 assms(3), of e] create_funds [OF s1 assms(3), of i] \<open>e' \<noteq> e\<close> by auto
qed

end

definition memory_lookup :: "string \<Rightarrow> Memory \<Rightarrow> (int \<times> string \<times> string) option" where
  "memory_lookup e m = (case get_user_by_email e m of
     Inl _ \<Rightarrow> None | Inr u \<Rightarrow> Some (U_ID u, U_PasswordHash u, U_Role u))"

definition memory_funds :: "int \<Rightarrow> Memory \<Rightarrow> int option" where
  "memory_funds i m = (case memory_wallet_balance i m of Inl _ \<Rightarrow> None | Inr b \<Rightarrow> Some b)"

lemma memory_fresh_wallet:
  assumes "memory_ok m" and "w \<in> set (m_wallets m)"
  shows "W_UserID w \<noteq> int (length (m_users m)) + 1"
proof -
  have "W_UserID w \<in> set (map (\<lambda>i. int i + 1) [0..<length (m_users m)])"
    using assms unfolding memory_ok_def by (metis image_eqI list.set_map)
  then show ?thesis by auto
qed

lemma memory_lookup_None: "memory_lookup e m = None \<longleftrightarrow> \<not> list_ex (\<lambda>u. U_Email u = e) (m_users m)"
proof -
  have "memory_lookup e m = None \<longleftrightarrow> find (\<lambda>u. U_Email u = e) (m_users m) = None"
    by (simp add: memory_lookup_def get_user_by_email_def split: option.split)
  then show ?thesis by (auto simp: find_None_iff list_ex_iff)
qed

lemma memory_create_effect:
  assumes "memory_ok m" and "create_user now e h r m = (Inr i, m')"
  shows "memory_lookup e m = None" and "memory_funds i m = None"
    and "memory_lookup e' m' = (if e' = e then Some (i, h, r) else memory_lookup e' m)"
    and "memory_funds j m' = (if j = i then Some 0 else memory_funds j m)"
proof -
  let ?i = "int (length (m_users m)) + 1"
  from assms(2) have no: "\<not> list_ex (\<lambda>u. U_Email u = e) (m_users m)" and i: "i = ?i"
    and m': "m' = m\<lparr>m_users := m_users m @
            [\<lparr>U_ID = ?i, U_VendorID = None, U_Email = e, U_PasswordHash = h, U_Role = r,
              U_CreatedAt = now\<rparr>],
          m_wallets := m_wallets m @
            [\<lparr>W_ID = int (length (m_wallets m)) + 1, W_UserID = ?i, W_VendorID = None,
              W_Balance = 0, W_UpdatedAt = now\<rparr>]\<rparr>"
    by (auto simp: create_user_def Let_def split: if_splits)
  show "memory_lookup e m = None" using no by (simp add: memory_lookup_None)
  have "find (\<lambda>u. U_Email u = e) (m_users m) = None"
    using no by (auto simp: find_None_iff list_ex_iff)
  then show "memory_lookup e' m' = (if e' = e then Some (i, h, r) else memory_lookup e' m)"
    by (auto simp: m' i memory_lookup_def get_user_by_email_def find_append split: option.splits)
  have w: "find (\<lambda>w. W_UserID w = ?i) (m_wallets m) = None"
    using memory_fresh_wallet [OF assms(1)] by (auto simp: find_None_iff)
  then show "memory_funds i m = None"
    by (simp add: i memory_funds_def memory_wallet_balance_def)
  from w show "memory_funds j m' = (if j = i then Some 0 else memory_funds j m)"
    by (auto simp: m' i memory_funds_def memory_wallet_balance_def find_append split: option.splits)
qed

interpretation memory: account_store "create_user now" memory_lookup memory_funds memory_ok for now
proof unfold_locales
  show "memory_ok s'" if "memory_ok s" "create_user now e h r s = (x, s')" for s e h r x s'
    using memory_ok_create_user [OF that(1), of now e h r] that(2) by simp
  show "\<exists>i s'. create_user now e h r s = (Inr i, s') \<and> memory_lookup e s' = Some (i, h, r) \<and>
      memory_funds i s' = Some 0 \<and> memory_funds i s = None"
    if "memory_ok s" "memory_lookup e s = None" for s e h r
  proof -
    from that(2) obtain i s' where c: "create_user now e h r s = (Inr i, s')"
      by (simp add: memory_lookup_None create_user_def Let_def)
    with memory_create_effect [OF that(1) c] show ?thesis by auto
  qed
  show "\<exists>er s'. create_user now e h r s = (Inl er, s') \<and>
      (\<forall>e'. memory_lookup e' s' = memory_lookup e' s) \<and> (\<forall>i. memory_funds i s' = memory_funds i s)"
    if "memory_ok s" "memory_lookup e s \<noteq> None" for s e h r
    using that(2) by (simp add: memory_lookup_None create_user_def)
  show "memory_lookup e' s' = memory_lookup e' s"
    if "memory_ok s" "create_user now e h r s = (Inr i, s')" "e' \<noteq> e" for s e h r i s' e'
    using memory_create_effect [OF that(1,2)] that(3) by simp
  show "memory_funds j s' = memory_funds j s"
    if "memory_ok s" "create_user now e h r s = (Inr i, s')" "j \<noteq> i" for s e h r i s' j
    using memory_create_effect [OF that(1,2)] that(3) by simp
qed

end
