(* ===== verification/Accounts.thy ===== *)
theory Accounts
  imports MemoryStore ShopInv
begin

text \<open>
  Integrity of accounts in the SQL tables, what registration does on every outcome, and
  the proof that registration without faults keeps the contract of an account store.
\<close>

section \<open>Invariant\<close>

text \<open>
  Emails and slugs are unique, vendors have owners, and wallets belong to users, at most
  one each.
\<close>

definition accounts_inv :: table_inv where
  "accounts_inv s d \<longleftrightarrow>
     ids_ok (map u_id (users d)) (s TUsers) \<and> distinct (map u_email (users d)) \<and>
     (\<forall>r\<in>set (users d). u_deleted_at r = None) \<and>
     ids_ok (map v_id (vendors d)) (s TVendors) \<and> distinct (map v_slug (vendors d)) \<and>
     (\<forall>r\<in>set (vendors d). v_owner_user_id r \<in> u_id ` set (users d)) \<and>
     ids_ok (map wa_id (wallets d)) (s TWallets) \<and> one_wallet d \<and>
     set (map wa_user_id (wallets d)) \<subseteq> set (map u_id (users d))"

interpretation accounts: order_invariant accounts_inv
proof unfold_locales
  show "accounts_inv s' d" if "accounts_inv s d" "s \<le> s'" for s s' d
    using that by (auto simp: accounts_inv_def le_fun_def intro: ids_ok_mono)
qed (simp_all add: accounts_inv_def one_wallet_def)

lemma accounts_user:
  assumes "accounts_inv s d" and "sql_insert_user e h r (s TUsers + 1) n d = Inr d'"
  shows "accounts_inv (s(TUsers := s TUsers + 1)) d' \<and> s TUsers + 1 \<notin> set (map wa_user_id (wallets d'))"
proof -
  have ids: "ids_ok (map u_id (users d) @ [s TUsers + 1]) (s TUsers + 1)"
    using assms(1) by (auto simp: accounts_inv_def intro: ids_ok_snoc)
  have "s TUsers + 1 \<notin> set (map u_id (users d))"
    using assms(1) by (auto simp: accounts_inv_def dest: ids_ok_fresh)
  with ids assms show ?thesis
    by (auto simp: accounts_inv_def sql_insert_user_def list_ex_iff one_wallet_def image_subset_iff
        split: if_splits)
qed

lemma accounts_vendor:
  assumes "accounts_inv s d" and "sql_insert_vendor i nm sl (s TVendors + 1) n d = Inr d'"
  shows "accounts_inv (s(TVendors := s TVendors + 1)) d'"
proof -
  have ids: "ids_ok (map v_id (vendors d) @ [s TVendors + 1]) (s TVendors + 1)"
    using assms(1) by (auto simp: accounts_inv_def intro: ids_ok_snoc)
  with assms show ?thesis
    by (auto simp: accounts_inv_def sql_insert_vendor_def list_ex_iff has_iffs one_wallet_def
        image_subset_iff split: if_splits)
qed

lemma accounts_wallet:
  assumes "accounts_inv s d" and "sql_insert_wallet u (s TWallets + 1) n d = Inr d'"
    and "u \<notin> set (map wa_user_id (wallets d))"
  shows "accounts_inv (s(TWallets := s TWallets + 1)) d'"
proof -
  have ids: "ids_ok (map wa_id (wallets d) @ [s TWallets + 1]) (s TWallets + 1)"
    "ids_ok (map wa_id (wallets d)) (s TWallets + 1)"
    using assms(1) by (auto simp: accounts_inv_def intro: ids_ok_snoc ids_ok_mono)
  moreover have "s TWallets + 1 \<notin> set (map wa_id (wallets d))"
    using assms(1) by (auto simp: accounts_inv_def dest: ids_ok_fresh)
  ultimately show ?thesis
    using assms by (auto simp: accounts_inv_def sql_insert_wallet_def has_iffs one_wallet_def
        image_subset_iff split: if_splits)
qed

lemma vendor_create_keeps: "keeps accounts_inv (vendor_create i nm sl)"
  unfolding vendor_create_def
  by (rule accounts.keeps_insert_row) (rule accounts_vendor)

lemma topup_keeps_accounts: "keeps accounts_inv (apply_transaction u a t)"
  unfolding apply_transaction_def
proof (rule accounts.keeps_transaction)
  fix w x w'
  assume h: "holds accounts_inv w" and b: "apply_body u a t w = (Inr x, w')"
  from b show "holds accounts_inv w'"
  proof (cases rule: apply_body_InrD)
    case (1 r)
    from h show ?thesis
      unfolding holds_def 1(3,4) accounts_inv_def post_wallet_simps one_wallet_post by simp
  qed
qed (intro wallet_frames)

section \<open>Registration\<close>

text \<open>
  The user is created by one statement and the wallet by a second: between them, or when
  the second fails, there is a user without a wallet.
\<close>

definition new_user_row :: "string \<Rightarrow> string \<Rightarrow> int \<Rightarrow> int \<Rightarrow> user_row" where
  "new_user_row email h i now =
     \<lparr>u_id = i, u_vendor_id = None, u_email = email, u_password_hash = h, u_role = ''user'',
      u_created_at = now, u_deleted_at = None\<rparr>"

definition new_wallet_row :: "int \<Rightarrow> int \<Rightarrow> int \<Rightarrow> wallet_row" where
  "new_wallet_row i u now =
     \<lparr>wa_id = i, wa_user_id = u, wa_vendor_id = None, wa_balance = 0, wa_updated_at = now,
      wa_deleted_at = None\<rparr>"

lemma insert_returning_outcomes:
  assumes "insert_returning t mk w = (r, w')"
  obtains (ok) d where "r = Inr (w_seq w t + 1)" "mk (w_seq w t + 1) (w_now w) (w_db w) = Inr d"
      "w_db w' = d" "w_seq w' = (w_seq w)(t := w_seq w t + 1)" "w_now w' = w_now w"
  | (lost) d e where "r = Inl e" "mk (w_seq w t + 1) (w_now w) (w_db w) = Inr d" "w_db w' = d"
      "w_seq w' = (w_seq w)(t := w_seq w t + 1)" "w_now w' = w_now w"
  | (no) e where "r = Inl e" "w_db w' = w_db w"
proof (cases "mk (w_seq w t + 1) (w_now w) (w_db w)")
  case (Inl e)
  with assms show thesis
    by (auto simp: insert_returning_def roundtrip_def Let_def split: fault.splits intro: no)
next
  case (Inr d)
  with assms show thesis
    by (cases "next_fault w")
       (auto simp: insert_returning_def roundtrip_def Let_def intro: ok lost no)
qed

lemma sql_insert_user_Inr:
  "sql_insert_user e h ''user'' i n d = Inr d' \<longleftrightarrow>
     (\<forall>r\<in>set (users d). u_email r \<noteq> e) \<and> d' = d\<lparr>users := users d @ [new_user_row e h i n]\<rparr>"
  by (auto simp: sql_insert_user_def new_user_row_def list_ex_iff)

lemma sql_insert_wallet_new:
  assumes "u \<notin> set (map wa_user_id (wallets d))" and "has_user d u"
  shows "sql_insert_wallet u i n d = Inr (d\<lparr>wallets := wallets d @ [new_wallet_row i u n]\<rparr>)"
  using assms by (auto simp: sql_insert_wallet_def wallet_conflict_def new_wallet_row_def list_ex_iff)

text \<open>The four outcomes of \<open>Register\<close>: nothing, the user alone, or both rows.\<close>

lemma auth_register_outcomes:
  assumes "holds accounts_inv w" and "auth_register C salt email password w = (r, w')"
  obtains (unchanged) e where "r = Inl e" "w_db w' = w_db w"
  | (user_only) h e where "r = Inl e" "hash_password C salt password = Inr h"
      "\<forall>u\<in>set (users (w_db w)). u_email u \<noteq> email"
      "w_db w' = (w_db w)\<lparr>users := users (w_db w) @
          [new_user_row email h (w_seq w TUsers + 1) (w_now w)]\<rparr>"
  | (both) h where "hash_password C salt password = Inr h"
      "\<forall>u\<in>set (users (w_db w)). u_email u \<noteq> email"
      "w_db w' = (w_db w)\<lparr>users := users (w_db w) @
          [new_user_row email h (w_seq w TUsers + 1) (w_now w)],
        wallets := wallets (w_db w) @
          [new_wallet_row (w_seq w TWallets + 1) (w_seq w TUsers + 1) (w_now w)]\<rparr>"
proof (cases "hash_password C salt password")
  case (Inl e)
  with assms(2) have "r = Inl e" "w' = w"
    by (auto simp: auth_register_def andThen_def lift_res_def fail_def)
  then show thesis by (intro unchanged) auto
next
  case h: (Inr h)
  have reg: "andThen (user_create email h ''user'') ensure_for_user w = (r, w')"
    using assms(2) h by (simp add: auth_register_def andThen_def lift_res_def ret_def)
  obtain x w1 where u: "user_create email h ''user'' w = (x, w1)" by fastforce
  let ?i = "w_seq w TUsers + 1"
  let ?d = "(w_db w)\<lparr>users := users (w_db w) @ [new_user_row email h ?i (w_now w)]\<rparr>"
  from u [unfolded user_create_def] show thesis
  proof (cases rule: insert_returning_outcomes)
    case (lost d e)
    with reg u h show thesis
      by (intro user_only [of e h]) (auto simp: andThen_def sql_insert_user_Inr)
  next
    case (no e)
    with reg u show thesis by (intro unchanged [of e]) (auto simp: andThen_def)
  next
    case (ok d)
    then have d: "w_db w1 = ?d" and fresh: "\<forall>u\<in>set (users (w_db w)). u_email u \<noteq> email"
      by (auto simp: sql_insert_user_Inr)
    have "?i \<notin> set (map wa_user_id (wallets (w_db w)))"
      using assms(1) accounts_user [of "w_seq w" "w_db w" email h "''user''" "w_now w" d] ok(2,3) d
      by (auto simp: holds_def)
    then have ins: "sql_insert_wallet ?i i n (w_db w1) =
       Inr (?d\<lparr>wallets := wallets (w_db w) @ [new_wallet_row i ?i n]\<rparr>)" for i n
      by (subst sql_insert_wallet_new) (auto simp: d has_user_def new_user_row_def)
    obtain y w2 where e: "insert_returning TWallets (sql_insert_wallet ?i) w1 = (y, w2)" by fastforce
    have fin: "r = (case y of Inl e \<Rightarrow> Inl e | Inr _ \<Rightarrow> Inr ())" "w' = w2"
      using reg u ok(1) e
      by (auto simp: andThen_def ensure_for_user_def insert_row_def ret_def split: sum.splits)
    from e show thesis
    proof (cases rule: insert_returning_outcomes)
      case ok2: (ok d2)
      with fin fresh h ok ins show thesis by (intro both [of h]) auto
    next
      case lost2: (lost d2 e)
      with fin fresh h ok ins show thesis by (intro both [of h]) auto
    next
      case no2: (no e)
      with fin fresh h d show thesis by (intro user_only [of e h]) auto
    qed
  qed
qed

lemma register_keeps: "keeps accounts_inv (auth_register C salt email password)"
  unfolding keeps_def
proof (intro allI impI)
  fix w
  assume w: "holds accounts_inv w"
  show "holds accounts_inv (snd (auth_register C salt email password w))"
  proof (cases "hash_password C salt password")
    case (Inl e)
    with w show ?thesis by (simp add: auth_register_def andThen_def lift_res_def fail_def)
  next
    case (Inr h)
    obtain x w1 where u: "insert_returning TUsers (sql_insert_user email h ''user'') w = (x, w1)"
      by fastforce
    have a: "accounts_inv (w_seq w) (w_db w)" using w by (simp add: holds_def)
    have w1: "holds accounts_inv w1"
      using w u by (rule accounts.holds_insert_returning) (use accounts_user [OF a] in auto)
    show ?thesis
    proof (cases x)
      case Inl
      with Inr u w1 show ?thesis
        by (simp add: auth_register_def andThen_def lift_res_def ret_def user_create_def)
    next
      case i: (Inr i)
      obtain y w2 where e: "insert_returning TWallets (sql_insert_wallet i) w1 = (y, w2)" by fastforce
      from u i have "i \<notin> set (map wa_user_id (wallets (w_db w1)))"
        by (cases rule: insert_returning_outcomes) (use accounts_user [OF a] in auto)
      with w1 e have "holds accounts_inv w2"
        by (intro accounts.holds_insert_returning [OF w1 e] accounts_wallet)
           (auto simp: holds_def)
      moreover have "snd (auth_register C salt email password w) = w2"
        using Inr u i e
        by (simp add: auth_register_def andThen_def lift_res_def ret_def user_create_def
            ensure_for_user_def insert_row_def split: sum.split)
      ultimately show ?thesis by simp
    qed
  qed
qed

section \<open>The contract of an account store\<close>

text \<open>Registration after hashing, for any role, and what the tables show of accounts.\<close>

definition account_create :: "string \<Rightarrow> string \<Rightarrow> string \<Rightarrow> int act" where
  "account_create email h role =
     andThen (user_create email h role) (\<lambda>i. andThen (ensure_for_user i) (\<lambda>_. ret i))"

definition account_lookup :: "string \<Rightarrow> world \<Rightarrow> (int \<times> string \<times> string) option" where
  "account_lookup email w =
     map_option (\<lambda>r. (u_id r, u_password_hash r, u_role r))
       (find (\<lambda>r. u_email r = email \<and> u_deleted_at r = None) (users (w_db w)))"

definition account_funds :: "int \<Rightarrow> world \<Rightarrow> int option" where
  "account_funds i w =
     map_option wa_balance (find (\<lambda>r. wa_user_id r = i) (wallets (w_db w)))"

definition account_ok :: "world \<Rightarrow> bool" where
  "account_ok w \<longleftrightarrow> w_faults w = [] \<and> holds accounts_inv w"

lemma account_dup_iff:
  assumes "holds accounts_inv w"
  shows "account_lookup e w = None \<longleftrightarrow> \<not> list_ex (\<lambda>r. u_email r = e) (users (w_db w))"
proof -
  have "account_lookup e w = None \<longleftrightarrow> (\<forall>r\<in>set (users (w_db w)). \<not> (u_email r = e \<and> u_deleted_at r = None))"
    by (auto simp: account_lookup_def find_None_iff)
  then show ?thesis using assms by (auto simp: holds_def accounts_inv_def list_ex_iff)
qed

lemma account_create_run:
  assumes "account_ok w"
  shows "account_create e h r w =
     (if list_ex (\<lambda>x. u_email x = e) (users (w_db w))
      then (Inl (ErrUnique ''users_email_key''),
            w\<lparr>w_seq := (w_seq w)(TUsers := w_seq w TUsers + 1)\<rparr>)
      else let i = w_seq w TUsers + 1; j = w_seq w TWallets + 1 in
        (Inr i, w\<lparr>w_seq := (w_seq w)(TUsers := i, TWallets := j),
          w_db := (w_db w)\<lparr>users := users (w_db w) @
            [\<lparr>u_id = i, u_vendor_id = None, u_email = e, u_password_hash = h, u_role = r,
              u_created_at = w_now w, u_deleted_at = None\<rparr>],
            wallets := wallets (w_db w) @ [new_wallet_row j i (w_now w)]\<rparr>\<rparr>))"
proof -
  let ?i = "w_seq w TUsers + 1"
  have f: "w_faults w = []" and inv: "accounts_inv (w_seq w) (w_db w)"
    using assms by (simp_all add: account_ok_def holds_def)
  have "?i \<notin> set (map u_id (users (w_db w)))"
    using inv by (auto simp: accounts_inv_def dest: ids_ok_fresh)
  then have "?i \<notin> set (map wa_user_id (wallets (w_db w)))"
    using inv by (auto simp: accounts_inv_def)
  then have "sql_insert_wallet ?i j n d = Inr (d\<lparr>wallets := wallets d @ [new_wallet_row j ?i n]\<rparr>)"
    if "wallets d = wallets (w_db w)" "has_user d ?i" for j n d
    using that by (intro sql_insert_wallet_new) simp_all
  then show ?thesis
    by (simp add: account_create_def andThen_def user_create_def ensure_for_user_def
        nofault_simps f sql_insert_user_def Let_def ret_def has_user_def)
qed

lemma account_create_ok:
  assumes "account_ok w" and "account_create e h r w = (x, w')"
  shows "account_ok w'"
proof -
  have inv: "accounts_inv (w_seq w) (w_db w)" using assms(1) by (simp add: account_ok_def holds_def)
  have f: "w_faults w' = []"
    using assms by (auto simp: account_create_run [OF assms(1)] account_ok_def Let_def split: if_splits)
  show ?thesis
  proof (cases "list_ex (\<lambda>x. u_email x = e) (users (w_db w))")
    case True
    then have "w' = w\<lparr>w_seq := (w_seq w)(TUsers := w_seq w TUsers + 1)\<rparr>"
      using assms(2) by (simp add: account_create_run [OF assms(1)])
    then show ?thesis using inv f accounts.seq_mono [OF inv, of "w_seq w'"]
      by (simp add: account_ok_def holds_def le_fun_def)
  next
    case False
    let ?i = "w_seq w TUsers + 1" and ?j = "w_seq w TWallets + 1"
    let ?d = "(w_db w)\<lparr>users := users (w_db w) @
            [\<lparr>u_id = ?i, u_vendor_id = None, u_email = e, u_password_hash = h, u_role = r,
              u_created_at = w_now w, u_deleted_at = None\<rparr>]\<rparr>"
    have "sql_insert_user e h r ?i (w_now w) (w_db w) = Inr ?d"
      using False by (simp add: sql_insert_user_def)
    note u = accounts_user [OF inv this]
    let ?s = "(w_seq w)(TUsers := ?i)"
    have "sql_insert_wallet ?i (?s TWallets + 1) (w_now w) ?d =
        Inr (?d\<lparr>wallets := wallets ?d @ [new_wallet_row (?s TWallets + 1) ?i (w_now w)]\<rparr>)"
      using u by (intro sql_insert_wallet_new) (simp_all add: has_user_def)
    note a = accounts_wallet [OF conjunct1 [OF u] this conjunct2 [OF u]]
    from assms(2) False have "w_seq w' = ?s(TWallets := ?j)"
      "w_db w' = ?d\<lparr>wallets := wallets ?d @ [new_wallet_row ?j ?i (w_now w)]\<rparr>"
      by (auto simp: account_create_run [OF assms(1)] Let_def)
    with a f show ?thesis by (simp add: account_ok_def holds_def fun_upd_def)
  qed
qed

lemma account_create_effect:
  assumes "account_ok w" and "account_create e h r w = (Inr i, w')"
  shows "account_lookup e w = None" and "account_funds i w = None"
    and "account_lookup e' w' = (if e' = e then Some (i, h, r) else account_lookup e' w)"
    and "account_funds j w' = (if j = i then Some 0 else account_funds j w)"
proof -
  have h: "holds accounts_inv w" using assms(1) by (simp add: account_ok_def)
  then have inv: "accounts_inv (w_seq w) (w_db w)" by (simp add: holds_def)
  from assms(2) have no: "\<not> list_ex (\<lambda>x. u_email x = e) (users (w_db w))" and
    i: "i = w_seq w TUsers + 1" and
    us: "users (w_db w') = users (w_db w) @
            [\<lparr>u_id = i, u_vendor_id = None, u_email = e, u_password_hash = h, u_role = r,
              u_created_at = w_now w, u_deleted_at = None\<rparr>]" and
    ws: "wallets (w_db w') = wallets (w_db w) @ [new_wallet_row (w_seq w TWallets + 1) i (w_now w)]"
    by (auto simp: account_create_run [OF assms(1)] Let_def split: if_splits)
  have nf: "find (\<lambda>x. u_email x = e \<and> u_deleted_at x = None) (users (w_db w)) = None"
    using no by (auto simp: find_None_iff list_ex_iff)
  then show "account_lookup e w = None" by (simp add: account_lookup_def)
  from nf show "account_lookup e' w' = (if e' = e then Some (i, h, r) else account_lookup e' w)"
    by (auto simp: account_lookup_def us find_append split: option.splits)
  have "i \<notin> set (map u_id (users (w_db w)))"
    using inv by (auto simp: i accounts_inv_def dest: ids_ok_fresh)
  then have "i \<notin> set (map wa_user_id (wallets (w_db w)))"
    using inv by (auto simp: accounts_inv_def)
  then have wf: "find (\<lambda>x. wa_user_id x = i) (wallets (w_db w)) = None"
    by (auto simp: find_None_iff)
  then show "account_funds i w = None" by (simp add: account_funds_def)
  from wf show "account_funds j w' = (if j = i then Some 0 else account_funds j w)"
    by (auto simp: account_funds_def ws find_append new_wallet_row_def split: option.splits)
qed

interpretation sql_accounts: account_store account_create account_lookup account_funds account_ok
proof unfold_locales
  show "account_ok w'" if "account_ok w" "account_create e h r w = (x, w')" for w e h r x w'
    using that by (rule account_create_ok)
  show "\<exists>i w'. account_create e h r w = (Inr i, w') \<and> account_lookup e w' = Some (i, h, r) \<and>
      account_funds i w' = Some 0 \<and> account_funds i w = None"
    if "account_ok w" "account_lookup e w = None" for w e h r
  proof -
    note ok = that(1)
    have "\<not> list_ex (\<lambda>x. u_email x = e) (users (w_db w))"
      using that account_dup_iff [of w e] by (simp add: account_ok_def)
    then obtain i w' where c: "account_create e h r w = (Inr i, w')"
      by (simp add: account_create_run [OF ok] Let_def)
    with account_create_effect [OF ok c] show ?thesis by auto
  qed
  show "\<exists>er w'. account_create e h r w = (Inl er, w') \<and>
      (\<forall>e'. account_lookup e' w' = account_lookup e' w) \<and>
      (\<forall>i. account_funds i w' = account_funds i w)"
    if "account_ok w" "account_lookup e w \<noteq> None" for w e h r
  proof -
    have "list_ex (\<lambda>x. u_email x = e) (users (w_db w))"
      using that account_dup_iff [of w e] by (auto simp: account_ok_def)
    then show ?thesis
      by (simp add: account_create_run [OF that(1)] account_lookup_def account_funds_def)
  qed
  show "account_lookup e' w' = account_lookup e' w"
    if "account_ok w" "account_create e h r w = (Inr i, w')" "e' \<noteq> e" for w e h r i w' e'
    using account_create_effect [OF that(1,2)] that(3) by simp
  show "account_funds j w' = account_funds j w"
    if "account_ok w" "account_create e h r w = (Inr i, w')" "j \<noteq> i" for w e h r i w' j
    using account_create_effect [OF that(1,2)] that(3) by simp
qed

end
