(* ===== verification/AuditLog.thy ===== *)
theory AuditLog
  imports StoreInv
begin

text \<open>
  The audit log, \<open>internal/audit/logger.go\<close>: a record and its insertion. The table is
  written and never read.
\<close>

record Entry =
  E_VendorID :: "int option"
  E_UserID :: "int option"
  E_ActorRole :: string
  E_Action :: string
  E_Resource :: string
  E_ResourceID :: "int option"
  E_IP :: string
  E_UserAgent :: string
  E_Status :: string
  E_Detail :: string

definition sql_insert_audit :: "Entry \<Rightarrow> int \<Rightarrow> int \<Rightarrow> db \<Rightarrow> err + db" where
  "sql_insert_audit e i now d =
     Inr (d\<lparr>audit_logs := audit_logs d @
       [\<lparr>a_id = i, a_vendor_id = E_VendorID e, a_user_id = E_UserID e,
         a_actor_role = E_ActorRole e, a_action = E_Action e, a_resource = E_Resource e,
         a_resource_id = E_ResourceID e, a_ip = E_IP e, a_user_agent = E_UserAgent e,
         a_status = E_Status e, a_detail = E_Detail e\<rparr>]\<rparr>)"

text \<open>
  What the goroutine of \<open>Log\<close> does: its error is only logged. It runs with the context of
  the request, which the server cancels when the handler returns, so it may fail for that
  reason alone.
\<close>

definition audit_log :: "Entry \<Rightarrow> unit act" where
  "audit_log e = orElse () (insert_row TAudit (sql_insert_audit e))"

lemmas [sql_defs] = sql_insert_audit_def

lemma audit_frames [frame_intros]: "via framed_rel (audit_log e)" "via silent_rel (audit_log e)"
  unfolding audit_log_def by (intro frame_intros)+

lemma sql_insert_audit_only: "sql_insert_audit e i n d = Inr d' \<Longrightarrow> \<exists>x. d' = d\<lparr>audit_logs := x\<rparr>"
  by (auto simp: sql_insert_audit_def)

end
