(* ===== verification/TableSteps.thy ===== *)
theory TableSteps
  imports Accounts ServiceLife Worker AuditLog
begin

text \<open>
  The abstract specification of the program: what one step may do to the tables,
  whichever operation takes it. The invariants of the whole program are proved here, by
  cases on these steps; the theory of the system shows that every operation refines them.
\<close>

section \<open>Steps\<close>

inductive table_step :: "crypto \<Rightarrow> string \<Rightarrow> seqs \<Rightarrow> db \<Rightarrow> seqs \<Rightarrow> db \<Rightarrow> bool"
  for C :: crypto and pass :: string
where
  st_seq: "s \<le> s' \<Longrightarrow> table_step C pass s d s' d"
| st_user: "sql_insert_user e h r (s TUsers + 1) n d = Inr d' \<Longrightarrow>
    table_step C pass s d (s(TUsers := s TUsers + 1)) d'"
| st_wallet: "u \<notin> set (map wa_user_id (wallets d)) \<Longrightarrow>
    sql_insert_wallet u (s TWallets + 1) n d = Inr d' \<Longrightarrow>
    table_step C pass s d (s(TWallets := s TWallets + 1)) d'"
| st_vendor: "sql_insert_vendor i nm sl (s TVendors + 1) n d = Inr d' \<Longrightarrow>
    table_step C pass s d (s(TVendors := s TVendors + 1)) d'"
| st_item: "fits32 (CI_TrafficLimitGB it) \<Longrightarrow> fits32 (CI_DurationDays it) \<Longrightarrow>
    sql_insert_catalog it (s TCatalogItems + 1) n d = Inr d' \<Longrightarrow>
    table_step C pass s d (s(TCatalogItems := s TCatalogItems + 1)) d'"
| st_panel: "sql_insert_panel rp (encrypt C pass tok) (s TPanels + 1) n d = Inr d' \<Longrightarrow>
    table_step C pass s d (s(TPanels := s TPanels + 1)) d'"
| st_topup: "q \<in> set (wallets d) \<Longrightarrow> fits64 (wa_balance q + a) \<Longrightarrow> t \<noteq> ''order_debit'' \<Longrightarrow>
    table_step C pass s d (s(TWalletTxs := s TWalletTxs + 1))
      (post_wallet (wa_id q) (wa_user_id q) a a t (s TWalletTxs + 1) n d)"
| st_order: "item \<in> set (catalog_items d) \<Longrightarrow> c_id item = c \<Longrightarrow> c_vendor_id item = v \<Longrightarrow>
    can_place q v u c (c_price_toman item) k d \<Longrightarrow>
    table_step C pass s d (placed_seq s) (placed q v u c (c_price_toman item) k s n d)"
| st_extend: "table_step C pass s d s (extend_service i days n d)"
| st_claim: "sql_claim n d = Inr (x, d') \<Longrightarrow> table_step C pass s d s d'"
| st_done: "j \<in> set (jobs d) \<Longrightarrow> j_status j = ''provisioning'' \<Longrightarrow>
    p \<in> set (proxies d) \<Longrightarrow> p_order_id p = Some (j_order_id j) \<Longrightarrow>
    sql_mark_done (j_id j) n d = Inr d' \<Longrightarrow> table_step C pass s d s d'"
| st_failed: "j \<in> set (jobs d) \<Longrightarrow> j_status j = ''provisioning'' \<Longrightarrow>
    rt = 0 \<or> rt = j_retries j \<Longrightarrow>
    sql_mark_failed (j_id j) e (rt + 1 \<ge> max_retries) n d = Inr d' \<Longrightarrow>
    table_step C pass s d s d'"
| st_provision: "r \<in> set (orders d) \<Longrightarrow> PS_OrderID rc = Some (o_id r) \<Longrightarrow>
    PS_UserID rc = o_user_id r \<Longrightarrow> PS_VendorID rc = o_vendor_id r \<Longrightarrow>
    \<forall>q\<in>set (proxies d). p_deleted_at q = None \<longrightarrow> p_uuid q \<noteq> PS_UUID rc \<Longrightarrow>
    table_step C pass s d (s(TProxies := s TProxies + 1))
      (provisioned rc (o_id r) (s TProxies + 1) n d)"
| st_service: "sql_insert_proxy rc (s TProxies + 1) n d = Inr d' \<Longrightarrow>
    table_step C pass s d (s(TProxies := s TProxies + 1)) d'"
| st_status: "sql_proxy_status v i st n d = Inr d' \<Longrightarrow> table_step C pass s d s d'"
| st_expire: "sql_mark_expired n d = Inr (x, d') \<Longrightarrow> table_step C pass s d s d'"
| st_audit: "sql_insert_audit e (s TAudit + 1) n d = Inr d' \<Longrightarrow>
    table_step C pass s d (s(TAudit := s TAudit + 1)) d'"

inductive table_steps :: "crypto \<Rightarrow> string \<Rightarrow> seqs \<Rightarrow> db \<Rightarrow> seqs \<Rightarrow> db \<Rightarrow> bool"
  for C :: crypto and pass :: string
where
  ts_refl: "table_steps C pass s d s d"
| ts_step: "table_step C pass s d s1 d1 \<Longrightarrow> table_steps C pass s1 d1 s2 d2 \<Longrightarrow>
    table_steps C pass s d s2 d2"

lemma table_steps_one: "table_step C pass s d s' d' \<Longrightarrow> table_steps C pass s d s' d'"
  by (erule ts_step) (rule ts_refl)

lemma table_steps_trans:
  "table_steps C pass s d s1 d1 \<Longrightarrow> table_steps C pass s1 d1 s2 d2 \<Longrightarrow> table_steps C pass s d s2 d2"
  by (induction rule: table_steps.induct) (auto intro: ts_step)

section \<open>Frames of the statements\<close>

text \<open>Which table each statement writes.\<close>

lemma same_wallets: "\<exists>x. d = d\<lparr>wallets := x\<rparr>"
  by (rule exI [of _ "wallets d"]) simp

lemma only_writes:
  "sql_insert_user e h r i n d = Inr d' \<Longrightarrow> \<exists>x. d' = d\<lparr>users := x\<rparr>"
  "sql_insert_wallet u i n d = Inr d' \<Longrightarrow> \<exists>x. d' = d\<lparr>wallets := x\<rparr>"
  "sql_insert_vendor o1 nm sl i n d = Inr d' \<Longrightarrow> \<exists>x. d' = d\<lparr>vendors := x\<rparr>"
  "sql_insert_catalog it i n d = Inr d' \<Longrightarrow> \<exists>x. d' = d\<lparr>catalog_items := x\<rparr>"
  "sql_insert_panel rp enc i n d = Inr d' \<Longrightarrow> \<exists>x. d' = d\<lparr>panels := x\<rparr>"
  "sql_claim n d = Inr (y, d') \<Longrightarrow> \<exists>x. d' = d\<lparr>jobs := x\<rparr>"
  "sql_mark_done j n d = Inr d' \<Longrightarrow> \<exists>x. d' = d\<lparr>jobs := x\<rparr>"
  "sql_mark_failed j er b n d = Inr d' \<Longrightarrow> \<exists>x. d' = d\<lparr>jobs := x\<rparr>"
  "sql_insert_proxy rc i n d = Inr d' \<Longrightarrow> \<exists>x. d' = d\<lparr>proxies := x\<rparr>"
  "sql_proxy_status v i st n d = Inr d' \<Longrightarrow> \<exists>x. d' = d\<lparr>proxies := x\<rparr>"
  "sql_mark_expired n d = Inr (z, d') \<Longrightarrow> \<exists>x. d' = d\<lparr>proxies := x\<rparr>"
  "sql_insert_audit en i n d = Inr d' \<Longrightarrow> \<exists>x. d' = d\<lparr>audit_logs := x\<rparr>"
  by (auto simp: sql_defs intro: same_wallets split: if_splits list.splits option.splits)

lemma insert_keeps_rows:
  "sql_insert_user e h r i n d = Inr d' \<Longrightarrow> set (map u_id (users d)) \<subseteq> set (map u_id (users d'))"
  "sql_insert_vendor o1 nm sl i n d = Inr d' \<Longrightarrow>
     set (map v_id (vendors d)) \<subseteq> set (map v_id (vendors d'))"
  "sql_insert_catalog it i n d = Inr d' \<Longrightarrow> set (catalog_items d) \<subseteq> set (catalog_items d')"
  "sql_insert_proxy rc i n d = Inr d' \<Longrightarrow> set (proxies d) \<subseteq> set (proxies d')"
  by (auto simp: sql_defs split: if_splits option.splits)

section \<open>Accounts and the ledger\<close>

lemma accounts_frame [frame_simps]:
  "accounts_inv s (d\<lparr>wallet_txs := x1\<rparr>) = accounts_inv s d"
  "accounts_inv s (d\<lparr>catalog_items := x2\<rparr>) = accounts_inv s d"
  "accounts_inv s (d\<lparr>orders := x3\<rparr>) = accounts_inv s d"
  "accounts_inv s (d\<lparr>idem_keys := x4\<rparr>) = accounts_inv s d"
  "accounts_inv s (d\<lparr>jobs := x5\<rparr>) = accounts_inv s d"
  "accounts_inv s (d\<lparr>proxies := x6\<rparr>) = accounts_inv s d"
  "accounts_inv s (d\<lparr>panels := x7\<rparr>) = accounts_inv s d"
  "accounts_inv s (d\<lparr>audit_logs := x8\<rparr>) = accounts_inv s d"
  "accounts_inv (s(TAudit := i)) d = accounts_inv s d"
  "accounts_inv (s(TWalletTxs := i)) d = accounts_inv s d"
  "accounts_inv (s(TCatalogItems := i)) d = accounts_inv s d"
  "accounts_inv (s(TPanels := i)) d = accounts_inv s d"
  "accounts_inv (s(TProxies := i)) d = accounts_inv s d"
  "accounts_inv s (post_wallet wid u dl a t i n d) = accounts_inv s d"
  by (simp_all add: accounts_inv_def) (simp_all add: one_wallet_def)

lemma ledger_frame [frame_simps]:
  "ledger_inv s (d\<lparr>users := x1\<rparr>) = ledger_inv s d"
  "ledger_inv s (d\<lparr>vendors := x2\<rparr>) = ledger_inv s d"
  "ledger_inv s (d\<lparr>catalog_items := x3\<rparr>) = ledger_inv s d"
  "ledger_inv s (d\<lparr>orders := x4\<rparr>) = ledger_inv s d"
  "ledger_inv s (d\<lparr>jobs := x5\<rparr>) = ledger_inv s d"
  "ledger_inv s (d\<lparr>proxies := x6\<rparr>) = ledger_inv s d"
  "ledger_inv s (d\<lparr>panels := x7\<rparr>) = ledger_inv s d"
  "ledger_inv s (d\<lparr>audit_logs := x8\<rparr>) = ledger_inv s d"
  "t \<noteq> TWallets \<Longrightarrow> ledger_inv (s(t := i)) d = ledger_inv s d"
  by (simp_all add: ledger_inv_def ledger_sum_def)

lemmas table_frames = provisioned_def extend_service_def

lemma accounts_step:
  assumes "table_step C pass s d s' d'" and "accounts_inv s d"
  shows "accounts_inv s' d'"
  using assms
proof (cases rule: table_step.cases)
  case st_seq
  with assms(2) show ?thesis by (auto intro: accounts.seq_mono)
next
  case st_user
  with assms(2) show ?thesis by (auto dest: accounts_user)
next
  case st_wallet
  with assms(2) show ?thesis by (auto intro: accounts_wallet)
next
  case st_vendor
  with assms(2) show ?thesis by (auto intro: accounts_vendor)
next
  case st_order
  with assms(2) show ?thesis by (auto intro: accounts.placed_keeps)
qed (auto simp: frame_simps table_frames dest!: only_writes)

lemma ledger_step:
  assumes "table_step C pass s d s' d'" and "ledger_inv s d"
  shows "ledger_inv s' d'"
  using assms
proof (cases rule: table_step.cases)
  case st_seq
  with assms(2) show ?thesis by (auto intro: ledger.seq_mono)
next
  case st_wallet
  with assms(2) show ?thesis by (auto intro: ledger_inv_new_wallet)
next
  case st_topup
  with assms(2) show ?thesis by (auto simp: frame_simps intro: ledger_inv_post)
next
  case st_order
  with assms(2) show ?thesis by (auto intro: ledger_orders.placed_keeps)
qed (auto simp: frame_simps table_frames dest!: only_writes)

section \<open>Orders, keys, jobs and debits\<close>

lemma shop_frame [frame_simps]:
  "shop_inv s (d\<lparr>users := x1\<rparr>) = shop_inv s d"
  "shop_inv s (d\<lparr>vendors := x2\<rparr>) = shop_inv s d"
  "shop_inv s (d\<lparr>wallets := x3\<rparr>) = shop_inv s d"
  "shop_inv s (d\<lparr>catalog_items := x4\<rparr>) = shop_inv s d"
  "shop_inv s (d\<lparr>proxies := x5\<rparr>) = shop_inv s d"
  "shop_inv s (d\<lparr>panels := x6\<rparr>) = shop_inv s d"
  "shop_inv s (d\<lparr>audit_logs := x7\<rparr>) = shop_inv s d"
  "t \<notin> {TOrders, TIdemKeys, TJobs} \<Longrightarrow> shop_inv (s(t := i)) d = shop_inv s d"
  "ty \<noteq> ''order_debit'' \<Longrightarrow> shop_inv s (post_wallet wid u dl a ty i n d) = shop_inv s d"
  by (auto simp: shop_inv_def order_debits_def post_wallet_def)

lemma shop_jobs_update:
  assumes "shop_inv s d" and "\<And>j. j_id (f j) = j_id j" "\<And>j. j_vendor_id (f j) = j_vendor_id j"
    and "\<And>j. j_order_id (f j) = j_order_id j"
  shows "shop_inv s (d\<lparr>jobs := update_where q f (jobs d)\<rparr>)"
  using assms by (simp add: shop_inv_def order_debits_def map_update_where)

lemma shop_orders_update:
  assumes "shop_inv s d" and "\<And>r. o_id (f r) = o_id r" "\<And>r. o_vendor_id (f r) = o_vendor_id r"
    and "\<And>r. o_user_id (f r) = o_user_id r" "\<And>r. o_amount (f r) = o_amount r"
    and "\<And>r. o_idempotency_key (f r) = o_idempotency_key r"
  shows "shop_inv s (d\<lparr>orders := update_where q f (orders d)\<rparr>)"
  using assms by (simp add: shop_inv_def order_debits_def order_key_def map_update_where)

lemma provisioned_alt:
  "provisioned rc oi i n d = (d\<lparr>orders := update_where (\<lambda>r. o_id r = oi)
      (\<lambda>r. r\<lparr>o_service_id := Some i, o_updated_at := n\<rparr>) (orders d)\<rparr>)
     \<lparr>proxies := proxies d @ [service_row rc i n]\<rparr>"
  by (simp add: provisioned_def)

lemma shop_claim:
  assumes "shop_inv s d" and "sql_claim n d = Inr (x, d')" shows "shop_inv s d'"
  using assms by (auto simp: sql_claim_def split: list.splits intro: shop_jobs_update)

lemma shop_marks:
  "shop_inv s d \<Longrightarrow> sql_mark_done j n d = Inr d' \<Longrightarrow> shop_inv s d'"
  "shop_inv s d \<Longrightarrow> sql_mark_failed j er b n d = Inr d' \<Longrightarrow> shop_inv s d'"
  by (auto simp: sql_mark_done_def sql_mark_failed_def split: if_splits intro: shop_jobs_update)

lemma shop_step:
  assumes "table_step C pass s d s' d'" and "shop_inv s d"
  shows "shop_inv s' d'"
  using assms
proof (cases rule: table_step.cases)
  case st_seq
  with assms(2) show ?thesis by (auto intro: shop.seq_mono)
next
  case st_order
  with assms(2) show ?thesis by (auto intro: shop.placed_keeps)
next
  case st_claim
  with assms(2) show ?thesis by (auto intro: shop_claim)
next
  case st_done
  with assms(2) show ?thesis by (auto intro: shop_marks)
next
  case st_failed
  with assms(2) show ?thesis by (auto intro: shop_marks)
next
  case (st_provision r rc n)
  have "shop_inv s (d\<lparr>orders := update_where (\<lambda>q. o_id q = o_id r)
      (\<lambda>q. q\<lparr>o_service_id := Some (s TProxies + 1), o_updated_at := n\<rparr>) (orders d)\<rparr>)"
    by (rule shop_orders_update [OF assms(2)]) simp_all
  with st_provision show ?thesis by (simp add: provisioned_alt frame_simps)
qed (auto simp: frame_simps table_frames dest!: only_writes)

section \<open>Catalogue, charges, panels and services\<close>

lemma charged_frame [frame_simps]:
  "charged_inv s (d\<lparr>users := x1\<rparr>) = charged_inv s d"
  "charged_inv s (d\<lparr>vendors := x2\<rparr>) = charged_inv s d"
  "charged_inv s (d\<lparr>wallets := x3\<rparr>) = charged_inv s d"
  "charged_inv s (d\<lparr>jobs := x4\<rparr>) = charged_inv s d"
  "charged_inv s (d\<lparr>proxies := x5\<rparr>) = charged_inv s d"
  "charged_inv s (d\<lparr>panels := x6\<rparr>) = charged_inv s d"
  "charged_inv s (d\<lparr>audit_logs := x7\<rparr>) = charged_inv s d"
  "charged_inv s (post_wallet wid u dl a ty i n d) = charged_inv s d"
  "charged_inv s' d = charged_inv s d"
  by (simp_all add: charged_inv_def)

lemma charged_step:
  assumes "table_step C pass s d s' d'" and "charged_inv s d"
  shows "charged_inv s' d'"
  using assms
proof (cases rule: table_step.cases)
  case st_order
  with assms(2) show ?thesis by (auto intro: charged.placed_keeps)
next
  case (st_item it n)
  from only_writes(4) [OF st_item(4)] obtain x where d': "d' = d\<lparr>catalog_items := x\<rparr>" ..
  with insert_keeps_rows(3) [OF st_item(4)] assms(2) show ?thesis
    by (simp add: charged_inv_def) blast
next
  case st_provision
  with assms(2) show ?thesis
    by (auto simp: charged_inv_def provisioned_def set_update_where)
next
  case st_seq
  with assms(2) show ?thesis by (simp add: charged_inv_def)
qed (use assms(2) in \<open>auto simp: charged_inv_def table_frames dest!: only_writes\<close>)

lemma catalog_step:
  assumes "table_step C pass s d s' d'" and "catalog_inv s d"
  shows "catalog_inv s' d'"
  using assms
proof (cases rule: table_step.cases)
  case st_seq
  with assms(2) show ?thesis by (auto intro: catalog.seq_mono)
next
  case (st_item it n)
  from assms(2) have "ids_ok (map c_id (catalog_items d) @ [s TCatalogItems + 1]) (s TCatalogItems + 1)"
    by (auto simp: catalog_inv_def intro: ids_ok_snoc)
  with st_item assms(2) show ?thesis
    by (fastforce simp: sql_insert_catalog_def catalog_inv_def list_ex_iff has_vendor_iff
        split: if_splits)
next
  case (st_vendor i nm sl n)
  from only_writes(3) [OF st_vendor(2)] obtain x where d': "d' = d\<lparr>vendors := x\<rparr>" ..
  with insert_keeps_rows(2) [OF st_vendor(2)] assms(2) st_vendor(1) show ?thesis
    by (simp add: catalog_inv_def subset_iff)
next
  case st_order
  with assms(2) show ?thesis by (auto intro: catalog_orders.placed_keeps)
qed (use assms(2) in \<open>auto simp: catalog_inv_def table_frames dest!: only_writes\<close>)

lemma panel_step:
  assumes "table_step C pass s d s' d'" and "panel_inv C pass s d"
  shows "panel_inv C pass s' d'"
  using assms
proof (cases rule: table_step.cases)
  case st_seq
  with assms(2) show ?thesis by (auto intro: panel.seq_mono)
next
  case (st_panel rp tok n)
  from assms(2) have "ids_ok (map x_id (panels d) @ [s TPanels + 1]) (s TPanels + 1)"
    by (auto simp: panel_inv_def intro: ids_ok_snoc)
  with st_panel assms(2) show ?thesis
    by (auto simp: sql_insert_panel_def panel_inv_def has_iffs split: if_splits) blast
next
  case (st_vendor i nm sl n)
  from only_writes(3) [OF st_vendor(2)] obtain x where d': "d' = d\<lparr>vendors := x\<rparr>" ..
  with insert_keeps_rows(2) [OF st_vendor(2)] assms(2) st_vendor(1) show ?thesis
    by (simp add: panel_inv_def subset_iff)
qed (use assms(2) in \<open>auto simp: panel_inv_def table_frames placed_def dest!: only_writes\<close>)

lemma proxy_insert:
  assumes "proxy_inv s d" and "sql_insert_proxy rc (s TProxies + 1) n d = Inr d'"
  shows "proxy_inv (s(TProxies := s TProxies + 1)) d'"
proof -
  from assms(1) have "ids_ok (map p_id (proxies d) @ [s TProxies + 1]) (s TProxies + 1)"
    by (auto simp: proxy_inv_def intro: ids_ok_snoc)
  with assms show ?thesis
    by (fastforce simp: sql_insert_proxy_def proxy_inv_def list_ex_iff has_iffs
        split: if_splits option.splits)
qed

section \<open>Orders and their services\<close>

text \<open>
  An order belongs to an existing vendor and user, is approved and pending for ever (no
  operation changes that), and its service, once linked, is a service of that order.
\<close>

definition service_of :: "order_row \<Rightarrow> proxy_row \<Rightarrow> bool" where
  "service_of r p \<longleftrightarrow> p_order_id p = Some (o_id r) \<and> p_user_id p = o_user_id r \<and>
     p_vendor_id p = o_vendor_id r"

definition orders_inv :: table_inv where
  "orders_inv s d \<longleftrightarrow>
     (\<forall>r\<in>set (orders d). o_vendor_id r \<in> v_id ` set (vendors d) \<and>
        o_user_id r \<in> u_id ` set (users d) \<and>
        o_catalog_id r \<in> sc_id ` set (service_catalog d) \<and>
        o_status r = ''approved'' \<and> o_lifecycle_state r = ''pending'' \<and> o_deleted_at r = None \<and>
        (\<forall>i. o_service_id r = Some i \<longrightarrow>
           (\<exists>p\<in>set (proxies d). p_id p = i \<and> service_of r p)))"

definition same_service :: "proxy_row \<Rightarrow> proxy_row \<Rightarrow> bool" where
  "same_service p q \<longleftrightarrow> p_id q = p_id p \<and> p_order_id q = p_order_id p \<and>
     p_user_id q = p_user_id p \<and> p_vendor_id q = p_vendor_id p"

lemma orders_inv_frame:
  assumes "orders_inv s d" and "orders d' = orders d"
    and "set (map v_id (vendors d)) \<subseteq> set (map v_id (vendors d'))"
    and "set (map u_id (users d)) \<subseteq> set (map u_id (users d'))"
    and "\<forall>p\<in>set (proxies d). \<exists>q\<in>set (proxies d'). same_service p q"
    and "service_catalog d' = service_catalog d"
  shows "orders_inv s' d'"
  unfolding orders_inv_def
proof (intro ballI conjI allI impI)
  fix r
  assume "r \<in> set (orders d')"
  with assms(1,2) have r: "o_vendor_id r \<in> v_id ` set (vendors d)" "o_user_id r \<in> u_id ` set (users d)"
    "o_catalog_id r \<in> sc_id ` set (service_catalog d)"
    "o_status r = ''approved''" "o_lifecycle_state r = ''pending''" "o_deleted_at r = None"
    "\<And>i. o_service_id r = Some i \<Longrightarrow> \<exists>p\<in>set (proxies d). p_id p = i \<and> service_of r p"
    by (auto simp: orders_inv_def)
  from r(1-3) assms(3,4,6) show "o_vendor_id r \<in> v_id ` set (vendors d')"
    "o_user_id r \<in> u_id ` set (users d')"
    "o_catalog_id r \<in> sc_id ` set (service_catalog d')" by auto
  show "o_status r = ''approved''" "o_lifecycle_state r = ''pending''" "o_deleted_at r = None"
    by (rule r)+
  show "\<exists>p\<in>set (proxies d'). p_id p = i \<and> service_of r p" if "o_service_id r = Some i" for i
    using r(7) [OF that] assms(5) by (fastforce simp: same_service_def service_of_def)
qed

lemma same_service_simps [simp]:
  "same_service p (p\<lparr>p_status := st, p_updated_at := n\<rparr>)"
  "same_service p (p\<lparr>p_expires_at := x, p_updated_at := n\<rparr>)"
  by (simp_all add: same_service_def)

lemma same_service_update:
  assumes "\<And>p. same_service p (f p)"
  shows "\<forall>p\<in>set ps. \<exists>q\<in>set (update_where Q f ps). same_service p q"
proof
  fix p
  assume "p \<in> set ps"
  then have "(if Q p then f p else p) \<in> set (update_where Q f ps)"
    unfolding set_update_where by (rule imageI)
  moreover have "same_service p (if Q p then f p else p)"
    using assms by (simp add: same_service_def)
  ultimately show "\<exists>q\<in>set (update_where Q f ps). same_service p q" ..
qed

lemma same_services:
  "sql_insert_proxy rc i n d = Inr d' \<Longrightarrow> \<forall>p\<in>set (proxies d). \<exists>q\<in>set (proxies d'). same_service p q"
  "sql_proxy_status v i st n d = Inr d' \<Longrightarrow> \<forall>p\<in>set (proxies d). \<exists>q\<in>set (proxies d'). same_service p q"
  "sql_mark_expired n d = Inr (z, d') \<Longrightarrow> \<forall>p\<in>set (proxies d). \<exists>q\<in>set (proxies d'). same_service p q"
  "\<forall>p\<in>set (proxies d). \<exists>q\<in>set (proxies (extend_service i days n d)). same_service p q"
proof -
  show "sql_insert_proxy rc i n d = Inr d' \<Longrightarrow> \<forall>p\<in>set (proxies d). \<exists>q\<in>set (proxies d'). same_service p q"
    by (auto simp: sql_insert_proxy_def same_service_def split: if_splits option.splits)
  show "sql_proxy_status v i st n d = Inr d' \<Longrightarrow>
      \<forall>p\<in>set (proxies d). \<exists>q\<in>set (proxies d'). same_service p q"
    by (drule sym) (simp add: sql_proxy_status_def same_service_update)
  show "sql_mark_expired n d = Inr (z, d') \<Longrightarrow>
      \<forall>p\<in>set (proxies d). \<exists>q\<in>set (proxies d'). same_service p q"
    by (drule sym) (simp add: sql_mark_expired_def same_service_update)
  show "\<forall>p\<in>set (proxies d). \<exists>q\<in>set (proxies (extend_service i days n d)). same_service p q"
    by (simp add: extend_service_def same_service_update)
qed

lemma orders_provision:
  assumes "orders_inv s d" and "distinct (map o_id (orders d))" and "r \<in> set (orders d)"
    and "PS_OrderID rc = Some (o_id r)" and "PS_UserID rc = o_user_id r" and "PS_VendorID rc = o_vendor_id r"
  shows "orders_inv s' (provisioned rc (o_id r) i n d)"
  unfolding orders_inv_def
proof (intro ballI)
  let ?d' = "provisioned rc (o_id r) i n d"
  fix y
  assume "y \<in> set (orders ?d')"
  then obtain x where x: "x \<in> set (orders d)" and
    y: "y = (if o_id x = o_id r then x\<lparr>o_service_id := Some i, o_updated_at := n\<rparr> else x)"
    unfolding provisioned_def by (auto simp: set_update_where)
  have one: "x = r" if "o_id x = o_id r"
    using assms(2) x assms(3) that by (rule distinct_map_eqD)
  have p: "set (proxies ?d') = insert (service_row rc i n) (set (proxies d))"
    "vendors ?d' = vendors d" "users ?d' = users d" "service_catalog ?d' = service_catalog d"
    unfolding provisioned_def by auto
  have "service_of r (service_row rc i n)" "p_id (service_row rc i n) = i"
    using assms(4-6) by (simp_all add: service_of_def service_row_def)
  with x y assms(1) one p
  show "o_vendor_id y \<in> v_id ` set (vendors ?d') \<and>
      o_user_id y \<in> u_id ` set (users ?d') \<and>
      o_catalog_id y \<in> sc_id ` set (service_catalog ?d') \<and>
      o_status y = ''approved'' \<and> o_lifecycle_state y = ''pending'' \<and> o_deleted_at y = None \<and>
      (\<forall>i. o_service_id y = Some i \<longrightarrow> (\<exists>p\<in>set (proxies ?d'). p_id p = i \<and> service_of y p))"
    by (auto simp: orders_inv_def service_of_def)
qed

lemma orders_step:
  assumes "table_step C pass s d s' d'" and "orders_inv s d" and "shop_inv s d"
  shows "orders_inv s' d'"
  using assms(1)
proof (cases rule: table_step.cases)
  case (st_order item c v q u k n)
  then have "orders_inv s (placed q v u c (c_price_toman item) k s n d)"
    using assms(2) by (auto simp: orders_inv_def placed_def can_place_def has_iffs)
  then show ?thesis unfolding st_order by (simp add: orders_inv_def)
next
  case (st_provision r rc n)
  moreover have "distinct (map o_id (orders d))"
    using assms(3) by (auto simp: shop_inv_def dest: ids_ok_distinct)
  ultimately show ?thesis using assms(2) by (auto intro: orders_provision)
next
  case (st_user e h r n)
  from only_writes(1) [OF st_user(2)] obtain x where "d' = d\<lparr>users := x\<rparr>" ..
  with insert_keeps_rows(1) [OF st_user(2)] show ?thesis
    by (intro orders_inv_frame [OF assms(2)]) (auto simp: same_service_def)
next
  case (st_vendor i nm sl n)
  from only_writes(3) [OF st_vendor(2)] obtain x where "d' = d\<lparr>vendors := x\<rparr>" ..
  with insert_keeps_rows(2) [OF st_vendor(2)] show ?thesis
    by (intro orders_inv_frame [OF assms(2)]) (auto simp: same_service_def)
next
  case (st_service rc n)
  from only_writes(9) [OF st_service(2)] obtain x where "d' = d\<lparr>proxies := x\<rparr>" ..
  with same_services(1) [OF st_service(2)] show ?thesis
    by (intro orders_inv_frame [OF assms(2)]) auto
next
  case (st_status v i st n)
  from only_writes(10) [OF st_status(2)] obtain x where "d' = d\<lparr>proxies := x\<rparr>" ..
  with same_services(2) [OF st_status(2)] show ?thesis
    by (intro orders_inv_frame [OF assms(2)]) auto
next
  case (st_expire n z)
  from only_writes(11) [OF st_expire(2)] obtain x where "d' = d\<lparr>proxies := x\<rparr>" ..
  with same_services(3) [OF st_expire(2)] show ?thesis
    by (intro orders_inv_frame [OF assms(2)]) auto
next
  case (st_extend i days n)
  show ?thesis unfolding st_extend
    by (intro orders_inv_frame [OF assms(2)] same_services(4)) simp_all
qed (use assms(2) in \<open>auto simp: orders_inv_def dest!: only_writes\<close>)

lemma proxy_step:
  assumes "table_step C pass s d s' d'" and "proxy_inv s d" and "orders_inv s d"
  shows "proxy_inv s' d'"
  using assms(1)
proof (cases rule: table_step.cases)
  case st_seq
  with assms(2) show ?thesis by (auto intro: proxy.seq_mono)
next
  case (st_provision r rc n)
  let ?i = "s TProxies + 1"
  from assms(2) have "ids_ok (map p_id (proxies d) @ [?i]) ?i"
    by (auto simp: proxy_inv_def intro: ids_ok_snoc)
  moreover have "o_vendor_id r \<in> v_id ` set (vendors d)" "o_user_id r \<in> u_id ` set (users d)"
    using assms(3) st_provision by (auto simp: orders_inv_def)
  moreover have "o_id ` set (orders d') = o_id ` set (orders d)"
    unfolding st_provision provisioned_def by (simp add: map_update_where flip: set_map)
  ultimately show ?thesis
    using assms(2) st_provision
    by (auto simp: proxy_inv_def provisioned_def service_row_def)
next
  case st_service
  with assms(2) show ?thesis by (auto intro: proxy_insert)
next
  case st_order
  with assms(2) show ?thesis by (auto intro: proxy_orders.placed_keeps)
next
  case st_extend
  with assms(2) show ?thesis by (auto intro: proxy_orders.extend_keeps)
next
  case st_status
  with assms(2) show ?thesis
    by (auto simp: sql_proxy_status_def intro: proxy_inv_update)
next
  case st_expire
  with assms(2) show ?thesis
    by (auto simp: sql_mark_expired_def intro: proxy_inv_update)
next
  case (st_user e h r n)
  from only_writes(1) [OF st_user(2)] obtain x where "d' = d\<lparr>users := x\<rparr>" ..
  with insert_keeps_rows(1) [OF st_user(2)] assms(2) st_user(1) show ?thesis
    by (auto simp: proxy_inv_def)
next
  case (st_vendor i nm sl n)
  from only_writes(3) [OF st_vendor(2)] obtain x where "d' = d\<lparr>vendors := x\<rparr>" ..
  with insert_keeps_rows(2) [OF st_vendor(2)] assms(2) st_vendor(1) show ?thesis
    by (auto simp: proxy_inv_def)
qed (use assms(2) in \<open>auto simp: proxy_inv_def dest!: only_writes\<close>)

section \<open>Jobs\<close>

text \<open>
  A job is pending, claimed, done or failed. It fails at most once, so its retry count
  never reaches the limit and it is never put into the dead letters; when it is done its
  order has a service.
\<close>

definition job_ok :: "proxy_row list \<Rightarrow> job_row \<Rightarrow> bool" where
  "job_ok ps j \<longleftrightarrow>
     (j_status j \<in> {''pending'', ''provisioning'', ''done''} \<and> j_retries j = 0 \<or>
      j_status j = ''failed'' \<and> j_retries j = 1) \<and>
     \<not> j_dead_letter j \<and> j_deleted_at j = None \<and>
     (j_status j = ''done'' \<longrightarrow> (\<exists>p\<in>set ps. p_order_id p = Some (j_order_id j)))"

definition jobs_inv :: table_inv where
  "jobs_inv s d \<longleftrightarrow> (\<forall>j\<in>set (jobs d). job_ok (proxies d) j)"

lemma job_ok_services:
  assumes "job_ok ps j" and "\<forall>p\<in>set ps. \<exists>q\<in>set qs. same_service p q"
  shows "job_ok qs j"
  using assms by (fastforce simp: job_ok_def same_service_def)

lemma jobs_inv_services:
  assumes "jobs_inv s d" and "d' = d\<lparr>proxies := qs\<rparr>"
    and "\<forall>p\<in>set (proxies d). \<exists>q\<in>set (proxies d'). same_service p q"
  shows "jobs_inv s' d'"
  using assms by (auto simp: jobs_inv_def intro: job_ok_services)

lemma jobs_update:
  assumes "jobs_inv s d" and "j \<in> set (jobs d)" and "distinct (map j_id (jobs d))"
    and "job_ok (proxies d) (f j)" and "d' = d\<lparr>jobs := update_where (\<lambda>x. j_id x = j_id j) f (jobs d)\<rparr>"
  shows "jobs_inv s' d'"
proof -
  have one: "x = j" if "x \<in> set (jobs d)" "j_id x = j_id j" for x
    using assms(2,3) that by (auto intro: distinct_map_eqD)
  show ?thesis
    unfolding jobs_inv_def
  proof
    fix y
    assume "y \<in> set (jobs d')"
    then obtain x where "x \<in> set (jobs d)" "y = (if j_id x = j_id j then f x else x)"
      unfolding assms(5) by (auto elim: in_update_whereE)
    with one assms(1,4) show "job_ok (proxies d') y"
      by (auto simp: assms(5) jobs_inv_def)
  qed
qed

lemma sql_claim_Inr:
  assumes "sql_claim n d = Inr ((i, oi, v), d')"
  obtains j where "j \<in> set (jobs d)" "claimable j" "i = j_id j" "oi = j_order_id j"
    "v = j_vendor_id j" "\<And>k. k \<in> set (jobs d) \<Longrightarrow> claimable k \<Longrightarrow> j_id j \<le> j_id k"
    "d' = d\<lparr>jobs := update_where (\<lambda>x. j_id x = j_id j)
            (\<lambda>x. x\<lparr>j_status := ''provisioning'', j_updated_at := n\<rparr>) (jobs d)\<rparr>"
proof -
  from assms obtain j js where o: "order_by j_id (filter claimable (jobs d)) = j # js" and
    d': "i = j_id j" "oi = j_order_id j" "v = j_vendor_id j"
    "d' = d\<lparr>jobs := update_where (\<lambda>x. j_id x = j_id j)
            (\<lambda>x. x\<lparr>j_status := ''provisioning'', j_updated_at := n\<rparr>) (jobs d)\<rparr>"
    by (auto simp: sql_claim_def split: list.splits)
  from order_by_ConsD [OF o] d' show thesis by (intro that [of j]) auto
qed

lemma jobs_claim:
  assumes "jobs_inv s d" and "distinct (map j_id (jobs d))" and "sql_claim n d = Inr (x, d')"
  shows "jobs_inv s d'"
proof -
  obtain i oi v where x: "x = (i, oi, v)" by (cases x)
  from assms(3) obtain j where j: "j \<in> set (jobs d)" "claimable j"
    "d' = d\<lparr>jobs := update_where (\<lambda>x. j_id x = j_id j)
          (\<lambda>x. x\<lparr>j_status := ''provisioning'', j_updated_at := n\<rparr>) (jobs d)\<rparr>"
    unfolding x by (rule sql_claim_Inr)
  have "job_ok (proxies d) j" using assms(1) j(1) by (simp add: jobs_inv_def)
  with j(2) have "job_ok (proxies d) (j\<lparr>j_status := ''provisioning'', j_updated_at := n\<rparr>)"
    by (auto simp: job_ok_def claimable_def)
  with jobs_update [OF assms(1) j(1) assms(2) _ j(3)] show ?thesis by blast
qed

lemma jobs_done:
  assumes "jobs_inv s d" and "distinct (map j_id (jobs d))" and "j \<in> set (jobs d)"
    and "j_status j = ''provisioning''" and "p \<in> set (proxies d)"
    and "p_order_id p = Some (j_order_id j)" and "sql_mark_done (j_id j) n d = Inr d'"
  shows "jobs_inv s d'"
proof -
  let ?f = "\<lambda>x. x\<lparr>j_status := ''done'', j_updated_at := n\<rparr>"
  have "job_ok (proxies d) (?f j)"
    using assms(1,3-6) by (auto simp: jobs_inv_def job_ok_def)
  with jobs_update [OF assms(1,3,2), of ?f] assms(7) show ?thesis by (simp add: sql_mark_done_def)
qed

lemma jobs_failed:
  assumes "jobs_inv s d" and "distinct (map j_id (jobs d))" and "j \<in> set (jobs d)"
    and "j_status j = ''provisioning''" and "rt = 0 \<or> rt = j_retries j"
    and "sql_mark_failed (j_id j) e (rt + 1 \<ge> max_retries) n d = Inr d'"
  shows "jobs_inv s d'"
proof -
  let ?f = "\<lambda>x. x\<lparr>j_status := ''failed'', j_retries := j_retries x + 1,
          j_last_error := Some e, j_dead_letter := rt + 1 \<ge> max_retries, j_updated_at := n\<rparr>"
  have "job_ok (proxies d) j" using assms(1,3) by (simp add: jobs_inv_def)
  then have "job_ok (proxies d) (?f j)"
    using assms(4,5) by (auto simp: job_ok_def max_retries_def)
  with jobs_update [OF assms(1,3,2), of ?f] assms(6) show ?thesis
    by (auto simp: sql_mark_failed_def split: if_splits)
qed

lemma jobs_step:
  assumes "table_step C pass s d s' d'" and "jobs_inv s d" and "shop_inv s d"
  shows "jobs_inv s' d'"
proof -
  have dist: "distinct (map j_id (jobs d))"
    using assms(3) by (auto simp: shop_inv_def dest: ids_ok_distinct)
  from assms(1) show ?thesis
  proof (cases rule: table_step.cases)
    case (st_order item c v q u k n)
    have "jobs d' = jobs d @ [\<lparr>j_id = s TJobs + 1, j_vendor_id = v, j_order_id = s TOrders + 1,
          j_status = ''pending'', j_retries = 0, j_last_error = None,
          j_dead_letter = False, j_updated_at = n, j_deleted_at = None\<rparr>]" "proxies d' = proxies d"
      unfolding st_order by (simp_all add: placed_def)
    with assms(2) show ?thesis by (auto simp: jobs_inv_def job_ok_def)
  next
    case st_claim
    with jobs_claim [OF assms(2) dist] show ?thesis by auto
  next
    case st_done
    with jobs_done [OF assms(2) dist] show ?thesis by auto
  next
    case st_failed
    with jobs_failed [OF assms(2) dist] show ?thesis by auto
  next
    case (st_provision r rc n)
    with assms(2) show ?thesis by (auto simp: jobs_inv_def job_ok_def provisioned_def)
  next
    case (st_service rc n)
    from only_writes(9) [OF st_service(2)] obtain x where x: "d' = d\<lparr>proxies := x\<rparr>" ..
    show ?thesis
      using assms(2) x same_services(1) [OF st_service(2)] by (rule jobs_inv_services)
  next
    case (st_status v i st n)
    from only_writes(10) [OF st_status(2)] obtain x where x: "d' = d\<lparr>proxies := x\<rparr>" ..
    show ?thesis
      using assms(2) x same_services(2) [OF st_status(2)] by (rule jobs_inv_services)
  next
    case (st_expire n z)
    from only_writes(11) [OF st_expire(2)] obtain x where x: "d' = d\<lparr>proxies := x\<rparr>" ..
    show ?thesis
      using assms(2) x same_services(3) [OF st_expire(2)] by (rule jobs_inv_services)
  next
    case (st_extend i days n)
    show ?thesis
      unfolding st_extend using assms(2) extend_service_def same_services(4)
      by (rule jobs_inv_services)
  qed (use assms(2) in \<open>auto simp: jobs_inv_def dest!: only_writes\<close>)
qed

section \<open>All of them\<close>

definition store_inv :: "crypto \<Rightarrow> string \<Rightarrow> table_inv" where
  "store_inv C pass s d \<longleftrightarrow>
     accounts_inv s d \<and> ledger_inv s d \<and> shop_inv s d \<and> charged_inv s d \<and> catalog_inv s d \<and>
     panel_inv C pass s d \<and> orders_inv s d \<and> proxy_inv s d \<and> jobs_inv s d"

lemma store_step: "table_step C pass s d s' d' \<Longrightarrow> store_inv C pass s d \<Longrightarrow> store_inv C pass s' d'"
  unfolding store_inv_def
  by (blast intro: accounts_step ledger_step shop_step charged_step catalog_step panel_step
      orders_step proxy_step jobs_step)

lemma store_steps: "table_steps C pass s d s' d' \<Longrightarrow> store_inv C pass s d \<Longrightarrow> store_inv C pass s' d'"
  by (induction rule: table_steps.induct) (auto dest: store_step)

text \<open>The program never writes \<open>service_catalog\<close>; without rows in it there are no orders.\<close>

lemma service_catalog_step:
  assumes "table_step C pass s d s' d'"
  shows "service_catalog d' = service_catalog d"
  using assms
proof (cases rule: table_step.cases)
  case st_order
  then show ?thesis by simp
next
  case st_topup
  then show ?thesis by simp
qed (auto simp: table_frames dest!: only_writes)

lemma no_catalog_step:
  assumes "table_step C pass s d s' d'" and "service_catalog d = []"
  shows "map o_id (orders d') = map o_id (orders d)"
  using assms
proof (cases rule: table_step.cases)
  case st_order
  with assms(2) show ?thesis by (simp add: can_place_def has_service_catalog_def)
qed (auto simp: table_frames map_update_where dest!: only_writes)

end
