(* ===== verification/SystemModel.thy ===== *)
theory SystemModel
  imports TableSteps
begin

text \<open>
  The running system: the world together with the operations that are between two of
  their database transactions. Requests and the worker interleave at that grain, any
  statement may fail or lose its answer, time passes, and the process may crash. Every
  step refines the abstract steps on the tables, so their invariants hold in every
  reachable state.
\<close>

section \<open>Refinement of single actions\<close>

text \<open>
  A tame step leaves the owners of wallets and the rows of existing jobs as they are.
\<close>

definition owners :: "db \<Rightarrow> int list" where
  "owners d = map wa_user_id (wallets d)"

definition tame :: "crypto \<Rightarrow> string \<Rightarrow> world \<Rightarrow> world \<Rightarrow> bool" where
  "tame C pass w w' \<longleftrightarrow>
     table_steps C pass (w_seq w) (w_db w) (w_seq w') (w_db w') \<and>
     owners (w_db w') = owners (w_db w) \<and> set (jobs (w_db w)) \<subseteq> set (jobs (w_db w'))"

lemma tame_seq: "w_db w' = w_db w \<Longrightarrow> w_seq w \<le> w_seq w' \<Longrightarrow> tame C pass w w'"
  by (auto simp: tame_def intro: table_steps_one st_seq)

lemma tame_quiet: "quiet_rel w w' \<Longrightarrow> tame C pass w w'"
  by (intro tame_seq) (simp_all add: quiet_rel_def)

lemma tame_trans: "tame C pass w w1 \<Longrightarrow> tame C pass w1 w2 \<Longrightarrow> tame C pass w w2"
  by (auto simp: tame_def intro: table_steps_trans)

lemma tame_pop [simp]: "tame C pass (pop w) w' = tame C pass w w'" "tame C pass w (pop w') = tame C pass w w'"
  by (simp_all add: tame_def)

lemma tame_step:
  assumes "table_step C pass (w_seq w) (w_db w) (w_seq w') (w_db w')"
    and "owners (w_db w') = owners (w_db w)" and "set (jobs (w_db w)) \<subseteq> set (jobs (w_db w'))"
  shows "tame C pass w w'"
  using assms by (auto simp: tame_def intro: table_steps_one)

lemma exec_tame:
  assumes "exec u w = (r, w')"
    and "\<And>d'. u (w_now w) (w_db w) = Inr d' \<Longrightarrow> table_step C pass (w_seq w) (w_db w) (w_seq w) d' \<and>
      wallets d' = wallets (w_db w) \<and> jobs d' = jobs (w_db w)"
  shows "tame C pass w w'"
proof -
  have "w_seq w' = w_seq w"
    using assms(1) by (auto simp: exec_def roundtrip_def split: fault.splits sum.splits)
  with exec_db [OF assms(1)] assms(2) show ?thesis
    by (auto simp: owners_def intro: tame_seq tame_step)
qed

lemma insert_tame:
  assumes "insert_returning t mk w = (r, w')"
    and "\<And>d'. mk (w_seq w t + 1) (w_now w) (w_db w) = Inr d' \<Longrightarrow>
      table_step C pass (w_seq w) (w_db w) ((w_seq w)(t := w_seq w t + 1)) d' \<and>
      owners d' = owners (w_db w) \<and> jobs d' = jobs (w_db w)"
  shows "tame C pass w w'"
  using assms(1)
proof (cases rule: insert_returning_outcomes)
  case (no e)
  moreover have "w_seq w \<le> w_seq w'"
    using framed.via_insert_returning assms(1) by (rule framed_seq)
  ultimately show ?thesis by (intro tame_seq) auto
qed (use assms(2) in \<open>auto intro!: tame_step\<close>)

lemma insert_row_tame:
  assumes "insert_row t mk w = (r, w')"
    and "\<And>d'. mk (w_seq w t + 1) (w_now w) (w_db w) = Inr d' \<Longrightarrow>
      table_step C pass (w_seq w) (w_db w) ((w_seq w)(t := w_seq w t + 1)) d' \<and>
      owners d' = owners (w_db w) \<and> jobs d' = jobs (w_db w)"
  shows "tame C pass w w'"
proof -
  obtain x w1 where "insert_returning t mk w = (x, w1)" by fastforce
  moreover from this assms(1) have "w' = w1"
    by (auto simp: insert_row_def andThen_def ret_def split: sum.splits)
  ultimately show ?thesis using insert_tame assms(2) by blast
qed

lemma transaction_tame:
  assumes "transaction fb fc body w = (r, w')" and "via framed_rel body"
    and "\<And>x w1. body (pop w) = (Inr x, w1) \<Longrightarrow> tame C pass w w1"
  shows "tame C pass w w'"
  using assms(1)
proof (cases rule: transaction_cases)
  case (rolled_back e)
  moreover have "w_seq w \<le> w_seq w'"
    using framed.via_transaction [OF assms(2)] assms(1) by (rule framed_seq)
  ultimately show ?thesis by (intro tame_seq) auto
qed (use assms(3) in auto)

section \<open>The operations refine the abstract steps\<close>

lemma user_create_tame: "user_create e h rl w = (r, w') \<Longrightarrow> tame C pass w w'"
  unfolding user_create_def
  by (erule insert_tame) (auto intro: st_user simp: owners_def dest: only_writes)

lemma vendor_create_tame: "vendor_create i nm sl w = (r, w') \<Longrightarrow> tame C pass w w'"
  unfolding vendor_create_def
  by (erule insert_row_tame) (auto intro: st_vendor simp: owners_def dest: only_writes)

lemma catalog_create_tame:
  assumes "catalog_create it w = (r, w')" shows "tame C pass w w'"
proof (cases "fits32 (CI_TrafficLimitGB it) \<and> fits32 (CI_DurationDays it)")
  case True
  with assms show ?thesis
    by (auto simp: catalog_create_def owners_def elim!: insert_row_tame intro: st_item dest: only_writes)
next
  case False
  with assms show ?thesis by (auto simp: catalog_create_def fail_def intro: tame_seq)
qed

lemma panel_create_tame: "panel_create C pass rp w = (r, w') \<Longrightarrow> tame C pass w w'"
  unfolding panel_create_def
  by (erule insert_tame) (auto intro: st_panel simp: owners_def dest: only_writes)

lemma topup_tame:
  assumes "apply_transaction u a t w = (r, w')" and "t \<noteq> ''order_debit''"
  shows "tame C pass w w'"
  using assms(1) unfolding apply_transaction_def
proof (rule transaction_tame)
  show "via framed_rel (apply_body u a t)"
    unfolding apply_body_def by (intro frame_intros)
  show "tame C pass w w1" if "apply_body u a t (pop w) = (Inr x, w1)" for x w1
    using that
  proof (rule apply_body_InrD)
    fix q
    assume q: "select_first (\<lambda>r. wa_user_id r = u) (wallets (w_db (pop w))) = Inr q"
      "fits64 (wa_balance q + a)"
      "w_db w1 = post_wallet (wa_id q) u a a t (w_seq (pop w) TWalletTxs + 1) (w_now (pop w)) (w_db (pop w))"
      "w_seq w1 = (w_seq (pop w))(TWalletTxs := w_seq (pop w) TWalletTxs + 1)"
    then have "q \<in> set (wallets (w_db w))" "wa_user_id q = u" by (auto dest: select_first_InrD)
    with q assms(2) st_topup [of q "w_db w" a t C pass "w_seq w" "w_now w"] show "tame C pass w w1"
      by (intro tame_step) (auto simp: owners_def post_wallet_def map_update_where)
  qed
qed

lemma placed_step:
  assumes "can_place q v u c p k (w_db w)" and "item \<in> set (catalog_items (w_db w))"
    and "c_id item = c" "c_vendor_id item = v" "p = c_price_toman item"
    and "w_db w' = placed q v u c p k (w_seq w) (w_now w) (w_db w)" and "w_seq w' = placed_seq (w_seq w)"
  shows "tame C pass w w'"
proof (rule tame_step)
  show "table_step C pass (w_seq w) (w_db w) (w_seq w') (w_db w')"
    using st_order [of item "w_db w" c v q u k] assms by auto
  show "owners (w_db w') = owners (w_db w)" "set (jobs (w_db w)) \<subseteq> set (jobs (w_db w'))"
    unfolding assms(6) by (auto simp: owners_def placed_def post_wallet_def map_update_where)
qed

lemma commit_tame:
  assumes "create_commit req cat w = (r, w')" and "item \<in> set (catalog_items (w_db w))"
    and "c_id item = R_CatalogID req" "c_vendor_id item = R_VendorID req"
    and "CP_Price cat = c_price_toman item"
  shows "tame C pass w w'"
proof -
  have eff: "tame C pass w w'" if "order_effect req (CP_Price cat) w w'"
    using that assms(2-5) by (auto simp: order_effect_def intro: placed_step)
  have "w_seq w \<le> w_seq w'"
    using order_op_frames(1) assms(1) by (rule framed_seq)
  with create_commit_outcomes [OF assms(1)] eff show ?thesis
    by (auto split: sum.splits intro: tame_seq)
qed

lemma renew_tame:
  assumes "order_renew u i w = (r, w')"
  shows "tame C pass w w'"
proof -
  have eff: "tame C pass w w'" if "renew_effect u i w w'"
  proof -
    from that obtain svc :: proxy_row and orig :: order_row and item q where e: "item \<in> set (catalog_items (w_db w))"
      "c_id item = o_catalog_id orig" "c_vendor_id item = p_vendor_id svc"
      "can_place q (p_vendor_id svc) u (o_catalog_id orig) (c_price_toman item)
         (renew_key i (w_nano w)) (w_db w)" and
      d: "w_db w' = extend_service i (p_duration_days svc) (w_now w)
         (placed q (p_vendor_id svc) u (o_catalog_id orig) (c_price_toman item)
           (renew_key i (w_nano w)) (w_seq w) (w_now w) (w_db w))"
      "w_seq w' = placed_seq (w_seq w)"
      unfolding renew_effect_def by blast
    let ?w = "w\<lparr>w_db := placed q (p_vendor_id svc) u (o_catalog_id orig) (c_price_toman item)
           (renew_key i (w_nano w)) (w_seq w) (w_now w) (w_db w), w_seq := placed_seq (w_seq w)\<rparr>"
    have "tame C pass w ?w" using e by (intro placed_step) auto
    moreover have "tame C pass ?w w'"
      using st_extend [of C pass "w_seq ?w" "w_db ?w"] d
      by (intro tame_step) (auto simp: owners_def extend_service_def)
    ultimately show ?thesis by (rule tame_trans)
  qed
  have "w_seq w \<le> w_seq w'"
    using order_op_frames(2) assms by (rule framed_seq)
  with order_renew_outcomes [OF assms] eff show ?thesis
    by (auto split: sum.splits intro: tame_seq)
qed

lemma status_tame: "proxy_update_status v i st w = (r, w') \<Longrightarrow> tame C pass w w'"
  unfolding proxy_update_status_def
  by (erule exec_tame) (auto intro: st_status dest: only_writes)

lemma service_store_tame:
  assumes "transaction fb fc (onErr g (proxy_create_tx rc)) w = (r, w')"
  shows "tame C pass w w'"
  using assms
proof (rule transaction_tame)
  show "via framed_rel (onErr g (proxy_create_tx rc))" by (intro frame_intros)
  show "tame C pass w w1" if "onErr g (proxy_create_tx rc) (pop w) = (Inr x, w1)" for x w1
  proof -
    from that have "insert_returning TProxies (sql_insert_proxy rc) (pop w) = (Inr x, w1)"
      by (auto simp: onErr_Inr proxy_create_tx_def fail_def split: if_splits)
    then have "tame C pass (pop w) w1"
      by (rule insert_tame) (auto intro: st_service simp: owners_def dest: only_writes)
    then show ?thesis by simp
  qed
qed

lemma expire_tame:
  assumes "proxy_mark_expired w = (r, w')"
  shows "tame C pass w w'"
proof -
  have "w_seq w' = w_seq w"
    using assms by (auto simp: proxy_mark_expired_def exec_returning_def roundtrip_def
        split: fault.splits sum.splits prod.splits)
  from exec_returning_db [OF assms [unfolded proxy_mark_expired_def]] show ?thesis
  proof
    assume "w_db w' = w_db w"
    with \<open>w_seq w' = w_seq w\<close> show ?thesis by (intro tame_seq) simp_all
  next
    assume "\<exists>x. sql_mark_expired (w_now w) (w_db w) = Inr (x, w_db w')"
    then obtain x where x: "sql_mark_expired (w_now w) (w_db w) = Inr (x, w_db w')" ..
    from only_writes(11) [OF x] obtain y where "w_db w' = (w_db w)\<lparr>proxies := y\<rparr>" ..
    with st_expire [OF x] \<open>w_seq w' = w_seq w\<close> show ?thesis
      by (intro tame_step) (auto simp: owners_def)
  qed
qed

lemma audit_tame: "audit_log e w = (r, w') \<Longrightarrow> tame C pass w w'"
proof -
  assume a: "audit_log e w = (r, w')"
  obtain x w1 where x: "insert_row TAudit (sql_insert_audit e) w = (x, w1)" by fastforce
  with a have "w' = w1" by (auto simp: audit_log_def orElse_def split: sum.splits)
  moreover from x have "tame C pass w w1"
    by (rule insert_row_tame) (auto intro: st_audit simp: owners_def dest: sql_insert_audit_only)
  ultimately show ?thesis by simp
qed

end
