(* ===== verification/Running.thy ===== *)
theory Running
  imports SystemModel
begin

text \<open>
  The running server: the world, and the tasks that are between two of their database
  transactions. Requests, the worker and the expiry job interleave at that grain; a
  task may vanish at any point (a cancelled request, a panic, a crash of the process).
\<close>

section \<open>Operations cut at their transactions\<close>

definition create_start :: "CreateRequest \<Rightarrow> (CreateResponse + CatalogPrice) act" where
  "create_start req =
     (if R_IdempotencyKey req = [] then fail (ErrNew ''idempotency_key is required'')
      else
        andThen (onErr (ErrWrap ''idempotency resolve'')
          (idem_resolve (R_VendorID req) (R_UserID req) (R_IdempotencyKey req))) (\<lambda>existingID.
        if existingID \<noteq> 0 then
          andThen (onErr (ErrWrap ''load existing order'')
            (orders_by_id (R_VendorID req) existingID)) (\<lambda>ord.
          ret (Inl (duplicate_response ord)))
        else
          andThen (create_validate req) (\<lambda>cat. ret (Inr cat))))"

definition job_prepare ::
  "crypto \<Rightarrow> string \<Rightarrow> adapter \<Rightarrow> int \<Rightarrow> int \<Rightarrow> (ProxyServiceRecord \<times> int) act" where
  "job_prepare C pass provision orderID vendorID =
     andThen (orders_by_id vendorID orderID) (\<lambda>ord.
     andThen (panel_first_active C pass vendorID) (\<lambda>panel.
     andThen (catalog_get_by_id (O_CatalogID ord)) (\<lambda>cat.
     andThen getNano (\<lambda>nano.
     andThen (provision (panel_arg panel)
       \<lparr>XQ_VendorID = O_VendorID ord, XQ_UserID = O_UserID ord, XQ_Email = ''user'',
        XQ_Protocol = CI_Protocol cat, XQ_UUID = svc_uuid (O_UserID ord) nano,
        XQ_DurationDays = CI_DurationDays cat, XQ_TrafficGB = CI_TrafficLimitGB cat\<rparr>) (\<lambda>pr.
     ret (job_record panel ord cat pr, O_ID ord))))))"

lemma andThen_assoc: "andThen (andThen m f) g = andThen m (\<lambda>x. andThen (f x) g)"
  by (rule ext) (auto simp: andThen_def split: prod.splits sum.splits)

lemma andThen_ret: "andThen (ret x) f = f x"
  by (rule ext) (simp add: andThen_def ret_def)

lemma andThen_fail: "andThen (fail e) f = fail e"
  by (rule ext) (simp add: andThen_def fail_def)

lemma andThen_if: "andThen (if b then m else n) f = (if b then andThen m f else andThen n f)"
  by simp

lemmas andThen_cuts = andThen_assoc andThen_ret andThen_fail andThen_if

lemma order_create_cut:
  "order_create req = andThen (create_start req)
     (\<lambda>x. case x of Inl resp \<Rightarrow> ret resp | Inr cat \<Rightarrow> create_commit req cat)"
  unfolding order_create_def create_start_def andThen_cuts sum.case ..

lemma handle_job_cut:
  "handle_job C pass provision j i v =
     andThen (job_prepare C pass provision i v) (\<lambda>(rc, oi). finish_job rc oi)"
  unfolding handle_job_def job_prepare_def finish_job_def andThen_cuts prod.case ..

lemma create_start_Inr:
  assumes "create_start req w = (Inr (Inr cat), w')"
  shows "\<exists>item\<in>set (catalog_items (w_db w)). c_id item = R_CatalogID req \<and>
     c_vendor_id item = R_VendorID req \<and> CP_Price cat = c_price_toman item"
  using assms
  by (auto simp: create_start_def fail_Inr ret_Inr andThen_Inr onErr_Inr create_validate_Inr
      price_of_row_def dest!: select_first_InrD idem_resolve_db split: if_splits)

lemma create_validate_quiet: "via quiet_rel (create_validate req)"
  unfolding create_validate_def by (intro quiet_intros)

lemma create_start_quiet: "via quiet_rel (create_start req)"
  unfolding create_start_def by (intro quiet_intros create_validate_quiet)

context panel_adapter
begin

lemma job_prepare_quiet: "via quiet_rel (job_prepare C pass provision i v)"
  unfolding job_prepare_def by (intro quiet_intros provision_quiet)

lemma job_prepare_Inr:
  assumes "job_prepare C pass provision i v w = (Inr (rc, oi), w')"
  shows "oi = i \<and> (\<exists>r\<in>set (orders (w_db w)). o_id r = oi \<and> PS_OrderID rc = Some oi \<and>
     PS_UserID rc = o_user_id r \<and> PS_VendorID rc = o_vendor_id r)"
proof -
  from assms obtain ord panel cat pr w1 w2 where
    1: "orders_by_id v i w = (Inr ord, w1)" and
    2: "panel_first_active C pass v w1 = (Inr panel, w2)" and
    3: "rc = job_record panel ord cat pr" "oi = O_ID ord"
    unfolding job_prepare_def by (auto simp: andThen_Inr ret_Inr)
  from order_read [OF 1] obtain r where r: "r \<in> set (orders (w_db w))" "o_id r = i"
    "o_vendor_id r = v" "ord = order_of_row r" by blast
  from panel_read [OF 2] have "XP_VendorID panel = v"
    by (auto simp: panel_of_row_def map_sum_Inr_iff)
  with r 3 show ?thesis
    by (auto simp: job_record_def order_of_row_def Let_def)
qed

end

section \<open>Tasks\<close>

text \<open>
  The commit of an order already priced, a user without a wallet yet, a claimed job, a
  client created on the panel but not stored, and a job that has ended (with its error).
\<close>

datatype task =
    TCommit CreateRequest CatalogPrice
  | TEnsure int
  | TJob int int int
  | TStore int ProxyServiceRecord int
  | TFinish int "err option"

type_synonym sys = "world \<times> task list"

inductive sys_step :: "crypto \<Rightarrow> string \<Rightarrow> (string \<Rightarrow> bool) \<Rightarrow> sys \<Rightarrow> sys \<Rightarrow> bool"
  for C :: crypto and pass :: string and url_ok :: "string \<Rightarrow> bool"
where
  sy_env: "w_db w' = w_db w \<Longrightarrow> w_seq w' = w_seq w \<Longrightarrow> sys_step C pass url_ok (w, ts) (w', ts)"
| sy_drop: "sys_step C pass url_ok (w, ts @ t # us) (w, ts @ us)"
| sy_create: "create_start req w = (Inr (Inr cat), w') \<Longrightarrow>
    sys_step C pass url_ok (w, ts) (w', TCommit req cat # ts)"
| sy_commit: "create_commit req cat w = (r, w') \<Longrightarrow>
    sys_step C pass url_ok (w, ts @ TCommit req cat # us) (w', ts @ us)"
| sy_renew: "order_renew u i w = (r, w') \<Longrightarrow> sys_step C pass url_ok (w, ts) (w', ts)"
| sy_user: "user_create e h rl w = (r, w') \<Longrightarrow>
    sys_step C pass url_ok (w, ts) (w', case r of Inl _ \<Rightarrow> ts | Inr i \<Rightarrow> TEnsure i # ts)"
| sy_ensure: "ensure_for_user i w = (r, w') \<Longrightarrow>
    sys_step C pass url_ok (w, ts @ TEnsure i # us) (w', ts @ us)"
| sy_vendor: "vendor_create i nm sl w = (r, w') \<Longrightarrow> sys_step C pass url_ok (w, ts) (w', ts)"
| sy_item: "catalog_create it w = (r, w') \<Longrightarrow> sys_step C pass url_ok (w, ts) (w', ts)"
| sy_panel: "panel_create C pass rp w = (r, w') \<Longrightarrow> sys_step C pass url_ok (w, ts) (w', ts)"
| sy_topup: "apply_transaction u a t w = (r, w') \<Longrightarrow> t \<noteq> ''order_debit'' \<Longrightarrow>
    sys_step C pass url_ok (w, ts) (w', ts)"
| sy_claim: "jobs_claim_next w = (r, w') \<Longrightarrow>
    sys_step C pass url_ok (w, ts) (w', case r of Inl _ \<Rightarrow> ts | Inr (j, i, v) \<Rightarrow> TJob j i v # ts)"
| sy_prepare: "job_prepare C pass (multi_provision url_ok) i v w = (r, w') \<Longrightarrow>
    sys_step C pass url_ok (w, ts @ TJob j i v # us)
      (w', case r of Inl e \<Rightarrow> if is_panic e then [] else ts @ TFinish j (Some e) # us
       | Inr (rc, oi) \<Rightarrow> ts @ TStore j rc oi # us)"
| sy_store: "finish_job rc oi w = (r, w') \<Longrightarrow>
    sys_step C pass url_ok (w, ts @ TStore j rc oi # us)
      (w', ts @ TFinish j (case r of Inl e \<Rightarrow> Some e | Inr _ \<Rightarrow> None) # us)"
| sy_failed: "job_failed j e w = (r, w') \<Longrightarrow>
    sys_step C pass url_ok (w, ts @ TFinish j (Some e) # us) (w', ts @ us)"
| sy_done: "job_succeeded j w = (r, w') \<Longrightarrow>
    sys_step C pass url_ok (w, ts @ TFinish j None # us) (w', ts @ us)"
| sy_service: "transaction fb fc (onErr g (proxy_create_tx rc)) w = (x, w') \<Longrightarrow>
    sys_step C pass url_ok (w, ts) (w', ts)"
| sy_status: "proxy_update_status v i st w = (r, w') \<Longrightarrow> sys_step C pass url_ok (w, ts) (w', ts)"
| sy_expire: "run_expiry_job w = (r, w') \<Longrightarrow> sys_step C pass url_ok (w, ts) (w', ts)"
| sy_audit: "audit_log e w = (r, w') \<Longrightarrow> sys_step C pass url_ok (w, ts) (w', ts)"

inductive reachable :: "crypto \<Rightarrow> string \<Rightarrow> (string \<Rightarrow> bool) \<Rightarrow> sys \<Rightarrow> bool"
  for C :: crypto and pass :: string and url_ok :: "string \<Rightarrow> bool"
where
  start: "w_db w = empty_db\<lparr>service_catalog := sc\<rparr> \<Longrightarrow> w_seq w = (\<lambda>_. 0) \<Longrightarrow>
    reachable C pass url_ok (w, [])"
| step: "reachable C pass url_ok s \<Longrightarrow> sys_step C pass url_ok s s' \<Longrightarrow> reachable C pass url_ok s'"

section \<open>What the tables never lose\<close>

definition order_view :: "db \<Rightarrow> (int \<times> int \<times> int) set" where
  "order_view d = (\<lambda>r. (o_id r, o_user_id r, o_vendor_id r)) ` set (orders d)"

definition served :: "db \<Rightarrow> int set" where
  "served d = {i. \<exists>p\<in>set (proxies d). p_order_id p = Some i}"

definition grows :: "db \<Rightarrow> db \<Rightarrow> bool" where
  "grows d d' \<longleftrightarrow> set (catalog_items d) \<subseteq> set (catalog_items d') \<and> order_view d \<subseteq> order_view d' \<and>
     served d \<subseteq> served d' \<and> u_id ` set (users d) \<subseteq> u_id ` set (users d')"

lemma grows_refl: "grows d d"
  by (simp add: grows_def)

lemma grows_trans: "grows d d1 \<Longrightarrow> grows d1 d2 \<Longrightarrow> grows d d2"
  unfolding grows_def by (elim conjE, intro conjI; erule (1) subset_trans)

lemma served_mono:
  assumes "\<forall>p\<in>set (proxies d). \<exists>q\<in>set (proxies d'). same_service p q"
  shows "served d \<subseteq> served d'"
  using assms by (fastforce simp: served_def same_service_def)

lemma order_view_update:
  assumes "\<And>r. o_id (f r) = o_id r" "\<And>r. o_user_id (f r) = o_user_id r"
    "\<And>r. o_vendor_id (f r) = o_vendor_id r"
  shows "order_view (d\<lparr>orders := update_where q f (orders d)\<rparr>) = order_view d"
proof -
  have "(\<lambda>r. (o_id r, o_user_id r, o_vendor_id r)) \<circ> (\<lambda>r. if q r then f r else r) =
      (\<lambda>r. (o_id r, o_user_id r, o_vendor_id r))"
    using assms by (auto simp: fun_eq_iff)
  then show ?thesis by (simp add: order_view_def set_update_where image_comp del: if_image_distrib)
qed

lemma grows_step:
  assumes "table_step C pass s d s' d'"
  shows "grows d d'"
  using assms
proof (cases rule: table_step.cases)
  case (st_user e h r n)
  from only_writes(1) [OF st_user(2)] obtain x where "d' = d\<lparr>users := x\<rparr>" ..
  with insert_keeps_rows(1) [OF st_user(2)] show ?thesis
    by (simp add: grows_def order_view_def served_def)
next
  case (st_item it n)
  from only_writes(4) [OF st_item(4)] obtain x where "d' = d\<lparr>catalog_items := x\<rparr>" ..
  with insert_keeps_rows(3) [OF st_item(4)] show ?thesis
    by (simp add: grows_def order_view_def served_def)
next
  case st_order
  then show ?thesis by (auto simp: grows_def order_view_def served_def placed_def)
next
  case (st_provision r rc n)
  let ?d = "d\<lparr>orders := update_where (\<lambda>q. o_id q = o_id r)
      (\<lambda>q. q\<lparr>o_service_id := Some (s TProxies + 1), o_updated_at := n\<rparr>) (orders d)\<rparr>"
  have "order_view ?d = order_view d" by (rule order_view_update) simp_all
  moreover have "order_view d' = order_view ?d"
    unfolding st_provision provisioned_alt by (simp add: order_view_def)
  moreover have "served d \<subseteq> served d'" "users d' = users d" "catalog_items d' = catalog_items d"
    unfolding st_provision provisioned_def by (auto simp: served_def)
  ultimately show ?thesis by (simp add: grows_def)
next
  case (st_service rc n)
  from only_writes(9) [OF st_service(2)] obtain x where "d' = d\<lparr>proxies := x\<rparr>" ..
  with served_mono [OF same_services(1) [OF st_service(2)]] show ?thesis
    by (simp add: grows_def order_view_def)
next
  case (st_status v i st n)
  from only_writes(10) [OF st_status(2)] obtain x where "d' = d\<lparr>proxies := x\<rparr>" ..
  with served_mono [OF same_services(2) [OF st_status(2)]] show ?thesis
    by (simp add: grows_def order_view_def)
next
  case (st_expire n z)
  from only_writes(11) [OF st_expire(2)] obtain x where "d' = d\<lparr>proxies := x\<rparr>" ..
  with served_mono [OF same_services(3) [OF st_expire(2)]] show ?thesis
    by (simp add: grows_def order_view_def)
next
  case (st_extend i days n)
  from served_mono [OF same_services(4)] show ?thesis
    unfolding st_extend by (simp add: grows_def order_view_def extend_service_def)
qed (auto simp: grows_def order_view_def served_def post_wallet_def dest!: only_writes)

lemma grows_steps: "table_steps C pass s d s' d' \<Longrightarrow> grows d d'"
  by (induction rule: table_steps.induct) (auto intro: grows_refl grows_trans grows_step)

section \<open>The invariant of the running system\<close>

definition job_held :: "db \<Rightarrow> int \<Rightarrow> int \<Rightarrow> bool" where
  "job_held d j i \<longleftrightarrow>
     (\<exists>x\<in>set (jobs d). j_id x = j \<and> j_order_id x = i \<and> j_status x = ''provisioning'')"

fun task_ok :: "db \<Rightarrow> task \<Rightarrow> bool" where
  "task_ok d (TCommit req cat) = (\<exists>item\<in>set (catalog_items d). c_id item = R_CatalogID req \<and>
     c_vendor_id item = R_VendorID req \<and> CP_Price cat = c_price_toman item)"
| "task_ok d (TEnsure i) = (i \<in> u_id ` set (users d) \<and> i \<notin> set (owners d))"
| "task_ok d (TJob j i v) = job_held d j i"
| "task_ok d (TStore j rc i) = (job_held d j i \<and> PS_OrderID rc = Some i \<and>
     (i, PS_UserID rc, PS_VendorID rc) \<in> order_view d)"
| "task_ok d (TFinish j None) = (\<exists>i. job_held d j i \<and> i \<in> served d)"
| "task_ok d (TFinish j (Some e)) = (\<exists>i. job_held d j i)"

text \<open>What a task holds alone: the user it makes a wallet for, or the job it works on.\<close>

fun task_key :: "task \<Rightarrow> (int + int) list" where
  "task_key (TCommit req cat) = []"
| "task_key (TEnsure i) = [Inl i]"
| "task_key (TJob j i v) = [Inr j]"
| "task_key (TStore j rc i) = [Inr j]"
| "task_key (TFinish j e) = [Inr j]"

definition task_keys :: "task list \<Rightarrow> (int + int) list" where
  "task_keys ts = concat (map task_key ts)"

lemma task_keys_simps [simp]:
  "task_keys [] = []" "task_keys (t # ts) = task_key t @ task_keys ts"
  "task_keys (ts @ us) = task_keys ts @ task_keys us"
  by (simp_all add: task_keys_def)

definition sys_ok :: "crypto \<Rightarrow> string \<Rightarrow> sys \<Rightarrow> bool" where
  "sys_ok C pass s \<longleftrightarrow> (case s of (w, ts) \<Rightarrow>
     store_inv C pass (w_seq w) (w_db w) \<and> list_all (task_ok (w_db w)) ts \<and>
     distinct (task_keys ts))"

lemma task_ok_keep:
  assumes "task_ok d t" and "grows d d'" and "\<And>i. Inl i \<in> set (task_key t) \<Longrightarrow> i \<in> set (owners d') \<Longrightarrow> i \<in> set (owners d)"
    and "\<And>j i. Inr j \<in> set (task_key t) \<Longrightarrow> job_held d j i \<Longrightarrow> job_held d' j i"
  shows "task_ok d' t"
  using assms by (cases "(d, t)" rule: task_ok.cases) (auto simp: grows_def, blast+)

lemma tame_sys:
  assumes "sys_ok C pass (w, ts)" and "tame C pass w w'"
  shows "sys_ok C pass (w', ts)"
proof -
  have t: "table_steps C pass (w_seq w) (w_db w) (w_seq w') (w_db w')"
    "owners (w_db w') = owners (w_db w)" "set (jobs (w_db w)) \<subseteq> set (jobs (w_db w'))"
    using assms(2) by (auto simp: tame_def)
  then have "job_held (w_db w') j i" if "job_held (w_db w) j i" for j i
    using that by (auto simp: job_held_def)
  then have "task_ok (w_db w) x \<Longrightarrow> task_ok (w_db w') x" for x
    using grows_steps [OF t(1)] t(2) by (elim task_ok_keep) auto
  then show ?thesis
    using assms(1) store_steps [OF t(1)] by (auto simp: sys_ok_def list_all_iff)
qed

lemma drop_sys: "sys_ok C pass (w, ts @ t # us) \<Longrightarrow> sys_ok C pass (w, ts @ us)"
  by (auto simp: sys_ok_def)

lemma sys_okD:
  assumes "sys_ok C pass (w, ts)"
  shows "store_inv C pass (w_seq w) (w_db w)" and "t \<in> set ts \<Longrightarrow> task_ok (w_db w) t"
  using assms by (auto simp: sys_ok_def list_all_iff)

section \<open>Every step keeps the invariant\<close>

lemma insert_row_db:
  assumes "insert_row t mk w = (r, w')"
  shows "w_db w' = w_db w \<and> w_seq w \<le> w_seq w' \<or>
     mk (w_seq w t + 1) (w_now w) (w_db w) = Inr (w_db w') \<and>
     w_seq w' = (w_seq w)(t := w_seq w t + 1)"
proof -
  obtain x w1 where x: "insert_returning t mk w = (x, w1)" by fastforce
  moreover from this assms have "w' = w1"
    by (auto simp: insert_row_def andThen_def ret_def split: sum.splits)
  moreover have "w_seq w \<le> w_seq w1"
    using framed.via_insert_returning x by (rule framed_seq)
  ultimately show ?thesis by (cases rule: insert_returning_outcomes [OF x]) auto
qed

lemma seq_sys:
  assumes "sys_ok C pass (w, ts)" and "w_db w' = w_db w" "w_seq w \<le> w_seq w'"
  shows "sys_ok C pass (w', ts)"
  using assms by (intro tame_sys [OF assms(1)] tame_seq)

lemma wallet_owners:
  "sql_insert_wallet i k n d = Inr d' \<Longrightarrow>
     set (owners d') \<subseteq> insert i (set (owners d)) \<and> jobs d' = jobs d"
  by (auto simp: owners_def sql_insert_wallet_def split: if_splits)

lemma job_held_update:
  assumes "x \<in> set (jobs d)" and "j_id (f x) = j_id x" "j_order_id (f x) = j_order_id x"
    and "j_status (if q x then f x else x) = ''provisioning''"
  shows "job_held (d\<lparr>jobs := update_where q f (jobs d)\<rparr>) (j_id x) (j_order_id x)"
proof -
  have "(if q x then f x else x) \<in> set (update_where q f (jobs d))"
    unfolding set_update_where using assms(1) by (rule imageI)
  with assms(2-4) show ?thesis
    by (auto simp: job_held_def intro!: bexI [of _ "if q x then f x else x"])
qed

lemma job_held_kept:
  assumes "job_held d j i" and "\<And>x. j_id (f x) = j_id x" "\<And>x. j_order_id (f x) = j_order_id x"
    and "\<And>x. x \<in> set (jobs d) \<Longrightarrow> j_id x = j \<Longrightarrow> q x \<Longrightarrow> j_status (f x) = ''provisioning''"
  shows "job_held (d\<lparr>jobs := update_where q f (jobs d)\<rparr>) j i"
proof -
  from assms(1) obtain x where x: "x \<in> set (jobs d)" "j_id x = j" "j_order_id x = i"
    "j_status x = ''provisioning''" by (auto simp: job_held_def)
  have "job_held (d\<lparr>jobs := update_where q f (jobs d)\<rparr>) (j_id x) (j_order_id x)"
    using x assms by (intro job_held_update) auto
  with x(2,3) show ?thesis by simp
qed

lemma ensure_sys:
  assumes "sys_ok C pass (w, ts @ TEnsure i # us)" and "ensure_for_user i w = (r, w')"
  shows "sys_ok C pass (w', ts @ us)"
  using insert_row_db [OF assms(2) [unfolded ensure_for_user_def]]
proof
  assume "w_db w' = w_db w \<and> w_seq w \<le> w_seq w'"
  with drop_sys [OF assms(1)] show ?thesis by (auto intro: seq_sys)
next
  assume w': "sql_insert_wallet i (w_seq w TWallets + 1) (w_now w) (w_db w) = Inr (w_db w') \<and>
     w_seq w' = (w_seq w)(TWallets := w_seq w TWallets + 1)"
  have "i \<notin> set (owners (w_db w))"
    using sys_okD(2) [OF assms(1), of "TEnsure i"] by simp
  with w' st_wallet [of i "w_db w" "w_seq w" "w_now w" "w_db w'" C pass]
  have st: "table_step C pass (w_seq w) (w_db w) (w_seq w') (w_db w')"
    by (simp add: owners_def)
  have d': "set (owners (w_db w')) \<subseteq> insert i (set (owners (w_db w)))" "jobs (w_db w') = jobs (w_db w)"
    using w' wallet_owners by blast+
  have "task_ok (w_db w') t" if "t \<in> set (ts @ us)" for t
  proof (rule task_ok_keep)
    show "task_ok (w_db w) t" using that by (intro sys_okD(2) [OF assms(1)]) auto
    show "grows (w_db w) (w_db w')" using st by (rule grows_step)
    have "Inl i \<notin> set (task_key t)"
      using assms(1) that by (auto simp: sys_ok_def task_keys_def)
    with d'(1) show "x \<in> set (owners (w_db w))"
      if "Inl x \<in> set (task_key t)" "x \<in> set (owners (w_db w'))" for x
      using that by auto
    show "job_held (w_db w') j k" if "job_held (w_db w) j k" for j k
      using that d'(2) by (simp add: job_held_def)
  qed
  with store_step [OF st] assms(1) show ?thesis
    by (auto simp: sys_ok_def list_all_iff)
qed

lemma user_sys:
  assumes "sys_ok C pass (w, ts)" and "user_create e h rl w = (r, w')"
  shows "sys_ok C pass (w', case r of Inl _ \<Rightarrow> ts | Inr i \<Rightarrow> TEnsure i # ts)"
proof -
  have ok: "sys_ok C pass (w', ts)"
    using assms(1) user_create_tame [OF assms(2)] by (rule tame_sys)
  show ?thesis
  proof (cases r)
    case (Inr i)
    from assms(2) Inr obtain d where i: "i = w_seq w TUsers + 1" and
      d: "sql_insert_user e h rl i (w_now w) (w_db w) = Inr d" "w_db w' = d"
      unfolding user_create_def by (cases rule: insert_returning_outcomes) auto
    have "accounts_inv (w_seq w) (w_db w)"
      using sys_okD(1) [OF assms(1)] by (simp add: store_inv_def)
    then have new: "i \<notin> u_id ` set (users (w_db w))" "i \<notin> set (owners (w_db w))"
      by (auto simp: i accounts_inv_def owners_def dest!: ids_ok_fresh)
    have "i \<in> u_id ` set (users d)" "owners d = owners (w_db w)"
      using d(1) by (auto simp: sql_insert_user_def owners_def split: if_splits)
    then have "i \<in> u_id ` set (users (w_db w'))" "owners (w_db w') = owners (w_db w)"
      unfolding d(2) .
    moreover have "Inl i \<notin> set (task_keys ts)"
    proof
      assume "Inl i \<in> set (task_keys ts)"
      then obtain t where "t \<in> set ts" "Inl i \<in> set (task_key t)" by (auto simp: task_keys_def)
      with sys_okD(2) [OF assms(1), of t] new(1) show False by (cases t) auto
    qed
    ultimately show ?thesis using ok new Inr by (simp add: sys_ok_def)
  qed (use ok in simp)
qed

lemma unclaimed:
  assumes "sys_ok C pass (w, ts)" and "x \<in> set (jobs (w_db w))" and "claimable x"
  shows "Inr (j_id x) \<notin> set (task_keys ts)"
proof
  assume "Inr (j_id x) \<in> set (task_keys ts)"
  then obtain t where "t \<in> set ts" "Inr (j_id x) \<in> set (task_key t)" by (auto simp: task_keys_def)
  with sys_okD(2) [OF assms(1), of t] have "\<exists>o1. job_held (w_db w) (j_id x) o1"
    by (cases "(w_db w, t)" rule: task_ok.cases) auto
  then obtain y where y: "y \<in> set (jobs (w_db w))" "j_id y = j_id x" "j_status y = ''provisioning''"
    by (auto simp: job_held_def)
  have "distinct (map j_id (jobs (w_db w)))"
    using sys_okD(1) [OF assms(1)]
    by (auto simp: store_inv_def shop_inv_def dest: ids_ok_distinct)
  then have "y = x" using y(1,2) assms(2) by (auto intro: distinct_map_eqD)
  with assms(3) y(3) show False by (simp add: claimable_def)
qed

lemma claim_sys:
  assumes "sys_ok C pass (w, ts)" and "jobs_claim_next w = (r, w')"
  shows "sys_ok C pass (w', case r of Inl _ \<Rightarrow> ts | Inr (j, i, v) \<Rightarrow> TJob j i v # ts)"
proof -
  have seq: "w_seq w' = w_seq w"
    using assms(2) by (auto simp: jobs_claim_next_def exec_returning_def roundtrip_def
        split: fault.splits sum.splits prod.splits)
  have claimed: "sys_ok C pass (w', ts) \<and> sys_ok C pass (w', TJob j i v # ts)"
    if c: "sql_claim (w_now w) (w_db w) = Inr ((j, i, v), w_db w')" for j i v
  proof -
    from c have st: "table_step C pass (w_seq w) (w_db w) (w_seq w') (w_db w')"
      unfolding seq by (rule st_claim)
    from c obtain x where x: "x \<in> set (jobs (w_db w))" "claimable x" "j = j_id x" "i = j_order_id x" and
      d': "w_db w' = (w_db w)\<lparr>jobs := update_where (\<lambda>y. j_id y = j_id x)
          (\<lambda>y. y\<lparr>j_status := ''provisioning'', j_updated_at := w_now w\<rparr>) (jobs (w_db w))\<rparr>"
      by (rule sql_claim_Inr)
    have keep: "job_held (w_db w') k o1" if "job_held (w_db w) k o1" for k o1
      using that unfolding d' by (rule job_held_kept) simp_all
    have "task_ok (w_db w') t" if "t \<in> set ts" for t
      using sys_okD(2) [OF assms(1) that] grows_step [OF st]
      by (rule task_ok_keep) (use keep in \<open>simp_all add: d' owners_def\<close>)
    then have ok: "sys_ok C pass (w', ts)"
      using store_step [OF st] assms(1) by (auto simp: sys_ok_def list_all_iff)
    have "Inr j \<notin> set (task_keys ts)"
      using unclaimed [OF assms(1) x(1,2)] x(3) by simp
    moreover have "job_held (w_db w') j i"
      using x unfolding x(3,4) d' by (intro job_held_update) simp_all
    ultimately show ?thesis using ok by (simp add: sys_ok_def)
  qed
  have "(w_db w' = w_db w \<and> (\<exists>e. r = Inl e)) \<or>
      (\<exists>j i v. sql_claim (w_now w) (w_db w) = Inr ((j, i, v), w_db w') \<and> (\<forall>x. r = Inr x \<longrightarrow> x = (j, i, v)))"
    using assms(2) by (auto simp: jobs_claim_next_def exec_returning_def roundtrip_def
        split: fault.splits sum.splits prod.splits)
  then show ?thesis
  proof (elim disjE conjE exE)
    fix e
    assume "w_db w' = w_db w" "r = Inl e"
    with assms(1) seq show ?thesis by (auto intro: seq_sys)
  next
    fix j i v
    assume "sql_claim (w_now w) (w_db w) = Inr ((j, i, v), w_db w')" "\<forall>x. r = Inr x \<longrightarrow> x = (j, i, v)"
    with claimed show ?thesis by (cases r) auto
  qed
qed

text \<open>Replacing a task by one that holds the same job.\<close>

lemma swap_sys:
  assumes "sys_ok C pass (w, ts @ t # us)" and "tame C pass w w'"
    and "task_ok (w_db w) t \<Longrightarrow> task_ok (w_db w') t'" and "task_key t' = task_key t"
  shows "sys_ok C pass (w', ts @ t' # us)"
proof -
  have "sys_ok C pass (w', ts @ t # us)" using assms(1,2) by (rule tame_sys)
  moreover have "task_ok (w_db w') t'"
    using sys_okD(2) [OF assms(1), of t] assms(3) by simp
  ultimately show ?thesis using assms(4) by (simp add: sys_ok_def)
qed

lemma prepare_sys:
  assumes "sys_ok C pass (w, ts @ TJob j i v # us)"
    and "job_prepare C pass (multi_provision url_ok) i v w = (r, w')"
  shows "sys_ok C pass (w', case r of Inl e \<Rightarrow> if is_panic e then [] else ts @ TFinish j (Some e) # us
       | Inr (rc, oi) \<Rightarrow> ts @ TStore j rc oi # us)"
proof -
  have q: "quiet_rel w w'" using multi.job_prepare_quiet assms(2) by (rule quietD)
  note tm = tame_quiet [OF q, of C pass]
  show ?thesis
  proof (cases r)
    case (Inl e)
    have "sys_ok C pass (w', ts @ TFinish j (Some e) # us)"
      using assms(1) tm by (rule swap_sys) (use q in \<open>auto simp: quiet_rel_def\<close>)
    then show ?thesis using Inl by (simp add: sys_ok_def)
  next
    case (Inr x)
    obtain rc oi where x: "x = (rc, oi)" by (cases x)
    from multi.job_prepare_Inr [OF assms(2) [unfolded Inr x]]
    have "oi = i" "PS_OrderID rc = Some oi" "(oi, PS_UserID rc, PS_VendorID rc) \<in> order_view (w_db w)"
      by (auto simp: order_view_def)
    then have "sys_ok C pass (w', ts @ TStore j rc oi # us)"
      using assms(1) tm q by (intro swap_sys [OF assms(1) tm]) (auto simp: quiet_rel_def)
    then show ?thesis by (simp add: Inr x)
  qed
qed

lemma store_sys:
  assumes "sys_ok C pass (w, ts @ TStore j rc oi # us)" and "finish_job rc oi w = (r, w')"
  shows "sys_ok C pass (w', ts @ TFinish j (case r of Inl e \<Rightarrow> Some e | Inr _ \<Rightarrow> None) # us)"
proof -
  have t: "job_held (w_db w) j oi" "PS_OrderID rc = Some oi"
    "(oi, PS_UserID rc, PS_VendorID rc) \<in> order_view (w_db w)"
    using sys_okD(2) [OF assms(1), of "TStore j rc oi"] by simp_all
  then obtain o1 where o1: "o1 \<in> set (orders (w_db w))" "o_id o1 = oi" "PS_UserID rc = o_user_id o1"
    "PS_VendorID rc = o_vendor_id o1" by (auto simp: order_view_def)
  from finish_job_outcomes [OF assms(2)] consider
    (no) e where "w_db w' = w_db w" "r = Inl e"
  | (stored) "w_db w' = provisioned rc oi (w_seq w TProxies + 1) (w_now w) (w_db w)"
      "w_seq w' = (w_seq w)(TProxies := w_seq w TProxies + 1)"
      "\<forall>q\<in>set (proxies (w_db w)). p_deleted_at q = None \<longrightarrow> p_uuid q \<noteq> PS_UUID rc"
    by blast
  then show ?thesis
  proof cases
    case e: (no e)
    have "via framed_rel (finish_job rc oi)" unfolding finish_job_def by (intro frame_intros)
    then have "w_seq w \<le> w_seq w'" using assms(2) by (rule framed_seq)
    with e have "tame C pass w w'" by (intro tame_seq)
    with assms(1) show ?thesis by (rule swap_sys) (use e in auto)
  next
    case stored
    note d' = stored(1,2) and u = stored(3)
    have "table_step C pass (w_seq w) (w_db w) (w_seq w') (w_db w')"
      unfolding d' o1(2) [symmetric] using o1 t(2) u by (intro st_provision) auto
    moreover have j: "jobs (w_db w') = jobs (w_db w)" "wallets (w_db w') = wallets (w_db w)"
      unfolding d' provisioned_def by simp_all
    ultimately have "tame C pass w w'" by (intro tame_step) (simp_all add: owners_def)
    with assms(1) show ?thesis
    proof (rule swap_sys)
      have "service_row rc (w_seq w TProxies + 1) (w_now w) \<in> set (proxies (w_db w'))"
        "p_order_id (service_row rc (w_seq w TProxies + 1) (w_now w)) = Some oi"
        unfolding d' provisioned_def using t(2) by (simp_all add: service_row_def)
      then have "oi \<in> served (w_db w')" by (auto simp: served_def)
      moreover have "job_held (w_db w') j oi" using t(1) j(1) by (simp add: job_held_def)
      ultimately show "task_ok (w_db w') (TFinish j (case r of Inl e \<Rightarrow> Some e | Inr _ \<Rightarrow> None))"
        by (cases r) auto
    qed simp
  qed
qed

text \<open>The two ends of a job update its row only.\<close>

lemma end_sys:
  assumes "sys_ok C pass (w, ts @ TFinish j e # us)" and "w_seq w' = w_seq w"
    and "table_step C pass (w_seq w) (w_db w) (w_seq w') (w_db w')"
    and "w_db w' = (w_db w)\<lparr>jobs := update_where (\<lambda>x. j_id x = j) f (jobs (w_db w))\<rparr>"
    and "\<And>x. j_id (f x) = j_id x" "\<And>x. j_order_id (f x) = j_order_id x"
  shows "sys_ok C pass (w', ts @ us)"
proof -
  have "task_ok (w_db w') t" if t: "t \<in> set (ts @ us)" for t
  proof (rule task_ok_keep)
    show "task_ok (w_db w) t" using t by (intro sys_okD(2) [OF assms(1)]) auto
    show "grows (w_db w) (w_db w')" using assms(3) by (rule grows_step)
    show "i \<in> set (owners (w_db w))" if "i \<in> set (owners (w_db w'))" for i
      using that by (simp add: assms(4) owners_def)
    have "Inr j \<notin> set (task_key t)"
      using assms(1) t by (auto simp: sys_ok_def task_keys_def)
    then show "job_held (w_db w') k i" if "Inr k \<in> set (task_key t)" "job_held (w_db w) k i" for k i
      unfolding assms(4) using that assms(5,6) by (intro job_held_kept) auto
  qed
  with store_step [OF assms(3)] assms(1) show ?thesis
    by (auto simp: sys_ok_def list_all_iff)
qed

lemma exec_seq: "exec u w = (r, w') \<Longrightarrow> w_seq w' = w_seq w"
  by (auto simp: exec_def roundtrip_def split: fault.splits sum.splits)

lemma done_sys:
  assumes "sys_ok C pass (w, ts @ TFinish j None # us)" and "job_succeeded j w = (r, w')"
  shows "sys_ok C pass (w', ts @ us)"
proof -
  from assms(2) obtain y where x: "exec (sql_mark_done j) w = (y, w')"
    by (auto simp: job_succeeded_def jobs_mark_done_def orElse_def split: prod.splits sum.splits)
  note seq = exec_seq [OF x]
  from exec_db [OF x] show ?thesis
  proof
    assume "w_db w' = w_db w"
    with drop_sys [OF assms(1)] seq show ?thesis by (auto intro: seq_sys)
  next
    assume m: "sql_mark_done j (w_now w) (w_db w) = Inr (w_db w')"
    from sys_okD(2) [OF assms(1), of "TFinish j None"] obtain i k p where
      k: "k \<in> set (jobs (w_db w))" "j_id k = j" "j_order_id k = i" "j_status k = ''provisioning''" and
      p: "p \<in> set (proxies (w_db w))" "p_order_id p = Some i"
      by (auto simp: job_held_def served_def)
    have st: "table_step C pass (w_seq w) (w_db w) (w_seq w') (w_db w')"
      unfolding seq using k p m by (intro st_done [of k _ p]) auto
    from m have "w_db w' = (w_db w)\<lparr>jobs := update_where (\<lambda>x. j_id x = j)
        (\<lambda>x. x\<lparr>j_status := ''done'', j_updated_at := w_now w\<rparr>) (jobs (w_db w))\<rparr>"
      by (auto simp: sql_mark_done_def)
    then show ?thesis by (rule end_sys [OF assms(1) seq st]) simp_all
  qed
qed

lemma failed_sys:
  assumes "sys_ok C pass (w, ts @ TFinish j (Some e) # us)" and "job_failed j e w = (r, w')"
  shows "sys_ok C pass (w', ts @ us)"
proof -
  from sys_okD(2) [OF assms(1), of "TFinish j (Some e)"] obtain k where
    k: "k \<in> set (jobs (w_db w))" "j_id k = j" "j_status k = ''provisioning''"
    by (auto simp: job_held_def)
  have dist: "distinct (map j_id (jobs (w_db w)))"
    using sys_okD(1) [OF assms(1)] by (auto simp: store_inv_def shop_inv_def dest: ids_ok_distinct)
  obtain q w1 where q: "job_retries j w = (q, w1)" by fastforce
  then have w1: "w1 = pop w" unfolding job_retries_def by (rule query_db)
  let ?rt = "case q of Inl _ \<Rightarrow> 0 | Inr n \<Rightarrow> n"
  obtain y w2 where x: "exec (sql_mark_failed j e (?rt + 1 \<ge> max_retries)) (pop w) = (y, w2)"
    by fastforce
  have "w' = w2"
    using assms(2) q x w1 by (cases q; cases y)
      (auto simp: job_failed_def jobs_mark_failed_def andThen_def orElse_def)
  with x obtain rt where x: "exec (sql_mark_failed j e (rt + 1 \<ge> max_retries)) (pop w) = (y, w')"
    and rt: "rt = ?rt" by blast
  have rt: "rt = 0 \<or> (\<exists>l\<in>set (jobs (w_db w)). j_id l = j \<and> rt = j_retries l)"
    using q rt by (cases q) (auto simp: job_retries_def query_Inr map_sum_Inr_iff dest!: select_first_InrD)
  have rt: "rt = 0 \<or> rt = j_retries k"
    using rt k dist by (auto dest: distinct_map_eqD)
  have seq: "w_seq w' = w_seq w" using exec_seq [OF x] by simp
  from exec_db [OF x] show ?thesis
  proof
    assume "w_db w' = w_db (pop w)"
    with drop_sys [OF assms(1)] seq show ?thesis by (auto intro: seq_sys)
  next
    assume "sql_mark_failed j e (rt + 1 \<ge> max_retries) (w_now (pop w)) (w_db (pop w)) = Inr (w_db w')"
    then have m: "sql_mark_failed j e (rt + 1 \<ge> max_retries) (w_now w) (w_db w) = Inr (w_db w')" by simp
    have st: "table_step C pass (w_seq w) (w_db w) (w_seq w') (w_db w')"
      unfolding seq using k rt m by (intro st_failed [of k _ rt]) auto
    let ?f = "\<lambda>x. x\<lparr>j_status := ''failed'', j_retries := j_retries x + 1,
            j_last_error := Some e, j_dead_letter := rt + 1 \<ge> max_retries, j_updated_at := w_now w\<rparr>"
    from m have "w_db w' = (w_db w)\<lparr>jobs := update_where (\<lambda>x. j_id x = j) ?f (jobs (w_db w))\<rparr>"
      by (auto simp: sql_mark_failed_def split: if_splits)
    then show ?thesis by (rule end_sys [OF assms(1) seq st]) simp_all
  qed
qed

text \<open>The invariant of the whole program: every step of every task keeps it.\<close>

lemma sys_step_ok: "sys_step C pass url_ok s s' \<Longrightarrow> sys_ok C pass s \<Longrightarrow> sys_ok C pass s'"
proof (induction rule: sys_step.induct)
  case (sy_env w' w ts)
  then show ?case by (auto intro: seq_sys)
next
  case (sy_create req w cat w' ts)
  have q: "quiet_rel w w'" using create_start_quiet sy_create(1) by (rule quietD)
  have "sys_ok C pass (w', ts)" using sy_create(2) tame_quiet [OF q] by (rule tame_sys)
  with create_start_Inr [OF sy_create(1)] q show ?case by (auto simp: sys_ok_def quiet_rel_def)
next
  case (sy_commit req cat w r w' ts us)
  from sys_okD(2) [OF sy_commit(2), of "TCommit req cat"] have "tame C pass w w'"
    using commit_tame [OF sy_commit(1)] by auto
  with drop_sys [OF sy_commit(2)] show ?case by (rule tame_sys)
next
  case (sy_expire w r w' ts)
  from sy_expire(1) obtain y where "proxy_mark_expired w = (y, w')"
    by (auto simp: run_expiry_job_def andThen_def orElse_def ret_def split: prod.splits sum.splits)
  then have "tame C pass w w'" by (rule expire_tame)
  with sy_expire(2) show ?case by (rule tame_sys)
qed (blast intro: drop_sys ensure_sys user_sys claim_sys prepare_sys store_sys done_sys failed_sys
    tame_sys renew_tame vendor_create_tame catalog_create_tame panel_create_tame topup_tame
    service_store_tame status_tame audit_tame)+

lemma start_ok: "store_inv C pass (\<lambda>_. 0) (empty_db\<lparr>service_catalog := sc\<rparr>)"
  by (simp add: store_inv_def accounts_inv_def ledger_inv_def shop_inv_def charged_inv_def
      catalog_inv_def panel_inv_def orders_inv_def proxy_inv_def jobs_inv_def empty_db_def
      one_wallet_def order_debits_def)

lemma reachable_ok: "reachable C pass url_ok s \<Longrightarrow> sys_ok C pass s"
proof (induction rule: reachable.induct)
  case (start w sc)
  then show ?case by (simp add: sys_ok_def start_ok)
qed (rule sys_step_ok)

lemma reachable_store:
  assumes "reachable C pass url_ok (w, ts)"
  shows "store_inv C pass (w_seq w) (w_db w)"
  using reachable_ok [OF assms] by (rule sys_okD(1))

end
