(* ===== verification/Runs.thy ===== *)
theory Runs
  imports Running
begin

text \<open>
  Whole operations, run on their own, are runs of the steps of the system.
\<close>

section \<open>Whole operations are runs of steps\<close>

abbreviation sys_run :: "crypto \<Rightarrow> string \<Rightarrow> (string \<Rightarrow> bool) \<Rightarrow> sys \<Rightarrow> sys \<Rightarrow> bool" where
  "sys_run C pass url_ok \<equiv> (sys_step C pass url_ok)\<^sup>*\<^sup>*"

lemma sys_run_step: "sys_step C pass url_ok s s1 \<Longrightarrow> sys_run C pass url_ok s1 s2 \<Longrightarrow> sys_run C pass url_ok s s2"
  by (rule converse_rtranclp_into_rtranclp)

lemma create_runs: "sys_run C pass url_ok (w, ts) (snd (order_create req w), ts)"
proof -
  obtain r w1 where s: "create_start req w = (r, w1)" by fastforce
  have q: "quiet_rel w w1" using create_start_quiet s by (rule quietD)
  show ?thesis
  proof (cases "\<exists>cat. r = Inr (Inr cat)")
    case True
    then obtain cat where r: "r = Inr (Inr cat)" ..
    have "order_create req w = create_commit req cat w1"
      by (simp add: order_create_cut andThen_def s r)
    then have "create_commit req cat w1 = (fst (order_create req w), snd (order_create req w))"
      by simp
    from sy_commit [OF this, of C pass url_ok "[]" ts] sy_create [OF s [unfolded r], of C pass url_ok ts]
    show ?thesis by (auto intro: sys_run_step)
  next
    case False
    then have "snd (order_create req w) = w1"
      by (auto simp: order_create_cut andThen_def s ret_def split: sum.split)
    with q show ?thesis by (auto simp: quiet_rel_def intro: sy_env sys_run_step)
  qed
qed

lemma register_runs: "sys_run C pass url_ok (w, ts) (snd (auth_register C' salt e p w), ts)"
proof (cases "hash_password C' salt p")
  case (Inl er)
  then show ?thesis by (simp add: auth_register_def andThen_def lift_res_def fail_def)
next
  case (Inr h)
  obtain r w1 where u: "user_create e h ''user'' w = (r, w1)" by fastforce
  note st = sy_user [OF u, of C pass url_ok ts]
  show ?thesis
  proof (cases r)
    case Inl
    then have "snd (auth_register C' salt e p w) = w1"
      using Inr u by (simp add: auth_register_def andThen_def lift_res_def ret_def)
    with st Inl show ?thesis by (auto intro: sys_run_step)
  next
    case i: (Inr i)
    have "ensure_for_user i w1 = (fst (auth_register C' salt e p w), snd (auth_register C' salt e p w))"
      using Inr u i by (simp add: auth_register_def andThen_def lift_res_def ret_def)
    from sy_ensure [OF this, of C pass url_ok "[]" ts] st i show ?thesis
      by (auto intro: sys_run_step)
  qed
qed

lemma insert_error:
  "insert_returning t mk w = (Inl e, w') \<Longrightarrow>
     e = ErrDriver \<or> mk (w_seq w t + 1) (w_now w) (w_db w) = Inl e"
  by (cases "next_fault w") (auto simp: insert_returning_def roundtrip_def Let_def split: sum.splits)

lemma exec_error: "exec u w = (Inl e, w') \<Longrightarrow> e = ErrDriver \<or> u (w_now w) (w_db w) = Inl e"
  by (cases "next_fault w") (auto simp: exec_def roundtrip_def split: sum.splits)

lemma sql_proxy_error: "sql_insert_proxy rc i n d = Inl e \<Longrightarrow> \<not> is_panic e"
  by (auto simp: sql_insert_proxy_def split: if_splits option.splits)

lemma store_service_no_panic:
  assumes "store_service rc i w = (Inl e, w')"
  shows "\<not> is_panic e"
  using assms unfolding store_service_def andThen_Inl
proof (elim disjE exE conjE)
  assume "proxy_create_tx rc w = (Inl e, w')"
  then show ?thesis
    by (auto simp: proxy_create_tx_def fail_def dest!: insert_error sql_proxy_error split: if_splits)
next
  fix x w1
  assume "link_service_tx i x w1 = (Inl e, w')"
  then show ?thesis by (auto simp: link_service_tx_def sql_link_service_def dest!: exec_error)
qed (simp add: ret_def)

lemma finish_job_no_panic:
  assumes "finish_job rc i w = (Inl e, w')"
  shows "\<not> is_panic e"
proof -
  from assms have "transaction id id (store_service rc i) w = (Inl e, w')"
    by (auto simp: finish_job_def andThen_Inl notifyAct_def)
  then show ?thesis
    by (cases "next_fault w")
       (auto simp: transaction_def andThen_def onErr_def begin_tx_def commit_tx_def roundtrip_def ret_def
         dest: store_service_no_panic split: prod.splits sum.splits fault.splits)
qed

lemma job_runs:
  assumes "handle_job C pass (multi_provision url_ok) j i v w = (r, w')"
  shows "sys_run C pass url_ok (w, TJob j i v # ts)
    (w', case r of Inl e \<Rightarrow> (if is_panic e then [] else TFinish j (Some e) # ts) | Inr _ \<Rightarrow> TFinish j None # ts)"
proof -
  obtain q w1 where p: "job_prepare C pass (multi_provision url_ok) i v w = (q, w1)" by fastforce
  note st = sy_prepare [OF p, of "[]" j ts]
  show ?thesis
  proof (cases q)
    case (Inl e)
    then have "r = Inl e" "w' = w1" using assms p by (simp_all add: handle_job_cut andThen_def)
    with st Inl show ?thesis by (auto intro: sys_run_step)
  next
    case (Inr x)
    obtain rc oi where x: "x = (rc, oi)" by (cases x)
    have f: "finish_job rc oi w1 = (r, w')" using assms p Inr x by (simp add: handle_job_cut andThen_def)
    have "\<not> is_panic e" if "r = Inl e" for e
      using finish_job_no_panic f that by simp
    with sy_store [OF f, of C pass url_ok "[]" j ts] st Inr x show ?thesis
      by (cases r) (auto intro: sys_run_step)
  qed
qed

lemma tick_runs:
  assumes "worker_tick C pass (multi_provision url_ok) w = (r, w')"
  shows "sys_run C pass url_ok (w, ts) (w', case r of Inl _ \<Rightarrow> [] | Inr _ \<Rightarrow> ts)"
proof -
  obtain q w1 where c: "jobs_claim_next w = (q, w1)" by fastforce
  note claim = sy_claim [OF c, of C pass url_ok ts]
  show ?thesis
  proof (cases q)
    case (Inl e)
    then have "r = Inr ()" "w' = w1" using assms c by (simp_all add: worker_tick_def attempt_def ret_def)
    with claim Inl show ?thesis by (auto intro: sys_run_step)
  next
    case (Inr x)
    obtain j i v where x: "x = (j, i, v)" by (cases x)
    obtain y w2 where h: "handle_job C pass (multi_provision url_ok) j i v w1 = (y, w2)" by fastforce
    note claim = claim [unfolded Inr x sum.case prod.case]
    note job = job_runs [OF h, of ts]
    have "(case y of Inl e \<Rightarrow> (if is_panic e then fail e else job_failed j e) w2
        | Inr _ \<Rightarrow> job_succeeded j w2) = (r, w')"
      using assms c Inr x h by (cases y) (simp_all add: worker_tick_def attempt_def)
    then have rest: "(case y of Inl e \<Rightarrow> (if is_panic e then fail e w2 else job_failed j e w2)
        | Inr _ \<Rightarrow> job_succeeded j w2) = (r, w')"
      by (cases y) (simp_all split: if_splits)
    have total: "fst (job_failed j e w2) = Inr ()" "fst (job_succeeded j w2) = Inr ()" for e
      by (auto simp: job_failed_def job_succeeded_def andThen_def orElse_def split: prod.splits sum.splits)
    show ?thesis
    proof (cases y)
      case (Inr u)
      then have d: "job_succeeded j w2 = (r, w')" using rest by simp
      with total(2) have "r = Inr ()" by simp
      with sy_done [OF d, of C pass url_ok "[]" ts] claim job Inr show ?thesis
        by (auto intro: sys_run_step rtranclp_trans rtranclp.rtrancl_into_rtrancl)
    next
      case (Inl e)
      show ?thesis
      proof (cases "is_panic e")
        case True
        with Inl rest have "r = Inl e" "w' = w2" by (simp_all add: fail_def)
        with claim job Inl True show ?thesis by (auto intro: sys_run_step)
      next
        case False
        then have d: "job_failed j e w2 = (r, w')" using Inl rest by simp
        with total(1) [of e] have "r = Inr ()" by simp
        with sy_failed [OF d, of C pass url_ok "[]" ts] claim job Inl False show ?thesis
          by (auto intro: sys_run_step rtranclp_trans rtranclp.rtrancl_into_rtrancl)
      qed
    qed
  qed
qed

end
