(* ===== verification/Serving.thy ===== *)
theory Serving
  imports Runs
begin

text \<open>
  How the worker serves a paid order when nothing goes wrong: the steps of one tick, from the
  claim of the job to its end, on tables that satisfy the invariants of the running system.
\<close>

section \<open>The reply that counts\<close>

text \<open>
  The first good reply among the next three is the one the adapter returns. It leaves the
  replies after it for the next calls.
\<close>

definition after_good :: "reply list \<Rightarrow> reply list" where
  "after_good rs = tl (dropWhile (\<lambda>r. \<not> good_reply r) rs)"

lemma provision_loop_first:
  assumes "url_ok (X_URL p @ ''/api/clients'')"
    and "find good_reply (take n (w_replies w)) = Some (Reply st b)"
    and "decode_struct create_resp (decode_first b) = Some (u, t)"
  shows "\<exists>w'. provision_loop url_ok p q ex n l w =
     (Inr \<lparr>XR_UUID = u, XR_ExpiresAt = t * 1000000000\<rparr>, w') \<and> w_replies w' = after_good (w_replies w)"
  using assms(2)
proof (induction n arbitrary: l w)
  case (Suc n)
  then obtain r rs where r: "w_replies w = r # rs" by (cases "w_replies w") auto
  show ?case
  proof (cases "good_reply r")
    case True
    with Suc.prems r have "r = Reply st b" "st < 300" by (auto simp: good_reply_def)
    with assms(1,3) r True show ?thesis by (simp add: create_client_def Let_def after_good_def)
  next
    case False
    then have "\<exists>e w1. create_client url_ok p (X_InboundID p) (XQ_Email q) (XQ_UUID q) ex (XQ_TrafficGB q) w =
        (Inl e, w1) \<and> \<not> is_panic e \<and> w_replies w1 = rs"
      using assms(1) r
      by (cases r) (auto simp: create_client_def Let_def good_reply_def split: option.splits)
    then obtain e w1 where "create_client url_ok p (X_InboundID p) (XQ_Email q) (XQ_UUID q) ex
        (XQ_TrafficGB q) w = (Inl e, w1)" "\<not> is_panic e" "w_replies w1 = rs" by blast
    with Suc.prems r False Suc.IH [of w1 e] show ?thesis by (simp add: after_good_def)
  qed
qed simp

lemma multi_provision_first:
  assumes "url_ok (X_URL p @ ''/api/clients'')"
    and "find good_reply (take 3 (w_replies w)) = Some (Reply st b)"
    and "decode_struct create_resp (decode_first b) = Some (u, t)"
  shows "\<exists>w'. multi_provision url_ok p q w = (Inr \<lparr>XR_UUID = u, XR_ExpiresAt = t * 1000000000\<rparr>, w') \<and>
     offline_rel w w' \<and> w_replies w' = after_good (w_replies w)"
  using provision_loop_first [where url_ok = url_ok and p = p, OF assms] multi.provision_offline
  unfolding multi_provision_def by blast

section \<open>What the job needs is there\<close>

lemma update_where_twice:
  "(\<And>x. P (f x) = P x) \<Longrightarrow> update_where P g (update_where P f rows) = update_where P (g \<circ> f) rows"
  by (simp add: update_where_def)

lemma stored_order:
  assumes "store_inv C pass s d" and "j \<in> set (jobs d)"
  obtains ord item where "ord \<in> set (orders d)" "o_id ord = j_order_id j" "o_vendor_id ord = j_vendor_id j"
    "select_first (live_order (j_vendor_id j) (j_order_id j)) (orders d) = Inr ord"
    "item \<in> set (catalog_items d)" "c_id item = o_catalog_id ord"
    "select_first (\<lambda>r. c_id r = o_catalog_id ord \<and> c_deleted_at r = None) (catalog_items d) = Inr item"
    "fits32 (c_traffic_limit_gb item)" "fits32 (c_duration_days item)"
    "has_vendor d (o_vendor_id ord)" "has_user d (o_user_id ord)" "has_order d (o_id ord)"
proof -
  have inv: "shop_inv s d" "charged_inv s d" "catalog_inv s d" "orders_inv s d"
    using assms(1) by (simp_all add: store_inv_def)
  have "map (\<lambda>j. (j_vendor_id j, j_order_id j)) (jobs d) = map (\<lambda>r. (o_vendor_id r, o_id r)) (orders d)"
    using inv(1) by (simp add: shop_inv_def)
  moreover have "(j_vendor_id j, j_order_id j) \<in> set (map (\<lambda>j. (j_vendor_id j, j_order_id j)) (jobs d))"
    using assms(2) by force
  ultimately have "(j_vendor_id j, j_order_id j) \<in> set (map (\<lambda>r. (o_vendor_id r, o_id r)) (orders d))"
    by metis
  then obtain ord where ord: "ord \<in> set (orders d)" "o_id ord = j_order_id j"
    "o_vendor_id ord = j_vendor_id j" by auto
  with inv(4) have o: "o_deleted_at ord = None" "o_vendor_id ord \<in> v_id ` set (vendors d)"
    "o_user_id ord \<in> u_id ` set (users d)" unfolding orders_inv_def by blast+
  have "distinct (map o_id (orders d))" "distinct (map c_id (catalog_items d))"
    using inv(1,3) by (auto simp: shop_inv_def catalog_inv_def dest: ids_ok_distinct)
  then have one: "r = ord" if "r \<in> set (orders d)" "o_id r = o_id ord" for r
    using that ord(1) by (auto intro: distinct_map_eqD)
  have first: "select_first (live_order (j_vendor_id j) (j_order_id j)) (orders d) = Inr ord"
  proof (rule select_first_unique [OF ord(1)])
    show "r = ord" if "r \<in> set (orders d)" "live_order (j_vendor_id j) (j_order_id j) r" for r
      using that ord(2) by (intro one) simp_all
  qed (simp add: ord o(1))
  from inv(2) ord(1) obtain item where item: "item \<in> set (catalog_items d)" "c_id item = o_catalog_id ord"
    by (auto simp: charged_inv_def)
  then have "select_first (\<lambda>r. c_id r = o_catalog_id ord \<and> c_deleted_at r = None) (catalog_items d) = Inr item"
  proof (intro select_first_unique)
    show "c_id item = o_catalog_id ord \<and> c_deleted_at item = None"
      using item inv(3) by (simp add: catalog_inv_def)
    show "r = item" if "r \<in> set (catalog_items d)" "c_id r = o_catalog_id ord \<and> c_deleted_at r = None" for r
      using that item \<open>distinct (map c_id (catalog_items d))\<close> by (auto intro: distinct_map_eqD)
  qed
  moreover have "fits32 (c_traffic_limit_gb item)" "fits32 (c_duration_days item)"
    using inv(3) item(1) by (simp_all add: catalog_inv_def)
  moreover have "has_vendor d (o_vendor_id ord)" "has_user d (o_user_id ord)" "has_order d (o_id ord)"
    using o ord(1) by (simp_all add: has_iffs)
  ultimately show thesis using ord first item by (intro that)
qed

lemma store_service_complete:
  assumes "w_faults w = []" and "fits32 (PS_TrafficLimitGB rc)" "fits32 (PS_DurationDays rc)"
    and "PS_ExpiresAt rc = Some e" "fits_ts (db_time e)"
    and "\<forall>r\<in>set (proxies (w_db w)). p_deleted_at r = None \<longrightarrow> p_uuid r \<noteq> PS_UUID rc"
    and "has_vendor (w_db w) (PS_VendorID rc)" "has_user (w_db w) (PS_UserID rc)"
    and "PS_OrderID rc = Some i" "has_order (w_db w) i"
  shows "store_service rc i w = (Inr (w_seq w TProxies + 1),
     w\<lparr>w_seq := (w_seq w)(TProxies := w_seq w TProxies + 1),
       w_db := provisioned rc i (w_seq w TProxies + 1) (w_now w) (w_db w)\<rparr>)"
proof -
  have "\<not> list_ex (\<lambda>r. p_uuid r = PS_UUID rc \<and> p_deleted_at r = None) (proxies (w_db w))"
    using assms(6) by (auto simp: list_ex_iff)
  then have "proxy_create_tx rc w = (Inr (w_seq w TProxies + 1),
     w\<lparr>w_seq := (w_seq w)(TProxies := w_seq w TProxies + 1),
       w_db := (w_db w)\<lparr>proxies := proxies (w_db w) @ [service_row rc (w_seq w TProxies + 1) (w_now w)]\<rparr>\<rparr>)"
    using assms by (simp add: proxy_create_tx_def nofault_insert sql_insert_proxy_def service_row_def Let_def)
  then show ?thesis
    using assms(1)
    by (simp add: store_service_def andThen_def link_service_tx_def nofault_exec sql_link_service_def
        ret_def provisioned_def)
qed

text \<open>A job whose order, panel and item are there, and whose panel has a good reply.\<close>

lemma handle_job_complete:
  assumes "w_faults w = []"
    and "select_first (live_order v i) (orders (w_db w)) = Inr ord"
    and "panel_first_active C pass v w = (Inr p, w)"
    and "select_first (\<lambda>r. c_id r = o_catalog_id ord \<and> c_deleted_at r = None) (catalog_items (w_db w)) = Inr c"
    and "url_ok (XP_URL p @ ''/api/clients'')"
    and "find good_reply (take 3 (w_replies w)) = Some (Reply st b)"
    and "decode_struct create_resp (decode_first b) = Some (u, t)"
    and "\<forall>q\<in>set (proxies (w_db w)). p_deleted_at q = None \<longrightarrow> p_uuid q \<noteq> u" and "fits_ts (t * 1000000)"
    and "fits32 (c_traffic_limit_gb c)" "fits32 (c_duration_days c)"
    and "has_vendor (w_db w) (XP_VendorID p)" "has_user (w_db w) (o_user_id ord)" "has_order (w_db w) (o_id ord)"
  shows "\<exists>w'. handle_job C pass (multi_provision url_ok) j i v w = (Inr (), w') \<and>
     w_faults w' = [] \<and> w_now w' = w_now w \<and> w_replies w' = after_good (w_replies w) \<and>
     w_seq w' = (w_seq w)(TProxies := w_seq w TProxies + 1) \<and>
     w_db w' = provisioned (job_record p (order_of_row ord) (item_of_row c)
         \<lparr>XR_UUID = u, XR_ExpiresAt = t * 1000000000\<rparr>) (o_id ord) (w_seq w TProxies + 1) (w_now w) (w_db w) \<and>
     w_hub w' = notify ''service.provisioned''
       [(''order_id'', JInt (o_id ord)), (''service_id'', JInt (w_seq w TProxies + 1))] (w_hub w)"
proof -
  have rd: "orders_by_id v i w = (Inr (order_of_row ord), w)"
    using assms(2) by (simp add: orders_by_id_def nofault_query [OF assms(1)])
  have it: "catalog_get_by_id (o_catalog_id ord) w = (Inr (item_of_row c), w)"
    using assms(4) by (simp add: catalog_get_by_id_def nofault_query [OF assms(1)])
  have "url_ok (X_URL (panel_arg p) @ ''/api/clients'')" using assms(5) by (simp add: panel_arg_def)
  from multi_provision_first [where url_ok = url_ok and p = "panel_arg p", OF this assms(6,7)] obtain w2 where
    mp: "multi_provision url_ok (panel_arg p)
        \<lparr>XQ_VendorID = o_vendor_id ord, XQ_UserID = o_user_id ord, XQ_Email = ''user'',
         XQ_Protocol = c_protocol c, XQ_UUID = svc_uuid (o_user_id ord) (w_nano w),
         XQ_DurationDays = c_duration_days c, XQ_TrafficGB = c_traffic_limit_gb c\<rparr> w =
      (Inr \<lparr>XR_UUID = u, XR_ExpiresAt = t * 1000000000\<rparr>, w2)" and off: "offline_rel w w2" and
    rs: "w_replies w2 = after_good (w_replies w)" by blast
  have w2: "w_db w2 = w_db w" "w_faults w2 = []" "w_seq w2 = w_seq w" "w_now w2 = w_now w" "w_hub w2 = w_hub w"
    using off assms(1) by (simp_all add: offline_rel_def)
  let ?rc = "job_record p (order_of_row ord) (item_of_row c) \<lparr>XR_UUID = u, XR_ExpiresAt = t * 1000000000\<rparr>"
  have "db_time (t * 1000000000) = t * 1000000" by (simp add: db_time_def)
  then have "store_service ?rc (o_id ord) w2 = (Inr (w_seq w TProxies + 1),
      w2\<lparr>w_seq := (w_seq w)(TProxies := w_seq w TProxies + 1),
        w_db := provisioned ?rc (o_id ord) (w_seq w TProxies + 1) (w_now w) (w_db w)\<rparr>)"
    using assms(8-14) w2
    by (subst store_service_complete [where e = "t * 1000000000"])
       (simp_all add: job_record_def order_of_row_def item_of_row_def Let_def)
  with mp w2 rs show ?thesis
    by (simp add: handle_job_def andThen_def rd assms(3) it order_of_row_def item_of_row_def getNano_def
        transaction_def onErr_def nofault_begin nofault_commit ret_def notifyAct_def)
qed

section \<open>One tick\<close>

text \<open>
  \<open>served_db\<close>: what a tick that serves the job \<open>j\<close> leaves in the tables. The order is the
  one of the job, \<open>url\<close> the address of the panel and \<open>c\<close> the item; \<open>i\<close> numbers the new
  service, \<open>u\<close> and \<open>t\<close> (in seconds) are its UUID and expiry.
\<close>

definition served_db ::
  "job_row \<Rightarrow> int \<Rightarrow> string \<Rightarrow> order_row \<Rightarrow> catalog_row \<Rightarrow> string \<Rightarrow> int \<Rightarrow> int \<Rightarrow> int \<Rightarrow> db \<Rightarrow> db" where
  "served_db j vendorID url ord c u t i now d = d\<lparr>
     jobs := update_where (\<lambda>x. j_id x = j_id j)
       (\<lambda>x. x\<lparr>j_status := ''done'', j_updated_at := now\<rparr>) (jobs d),
     orders := update_where (\<lambda>r. o_id r = o_id ord)
       (\<lambda>r. r\<lparr>o_service_id := Some i, o_updated_at := now\<rparr>) (orders d),
     proxies := proxies d @ [\<lparr>p_id = i, p_vendor_id = vendorID, p_user_id = o_user_id ord,
       p_order_id = Some (o_id ord), p_panel_id = None, p_uuid = u, p_protocol = c_protocol c,
       p_subscription_url = url @ ''/sub/'' @ u, p_qr_payload = url @ ''/sub/'' @ u,
       p_config_payload = [], p_status = ''active'', p_expires_at = Some (t * 1000000),
       p_traffic_used_gb = 0, p_traffic_limit_gb = c_traffic_limit_gb c,
       p_duration_days = c_duration_days c, p_created_at = now, p_updated_at = now,
       p_deleted_at = None\<rparr>]\<rparr>"

lemma tick_serves:
  assumes "store_inv C pass (w_seq w) (w_db w)" and "w_faults w = []"
    and "order_by j_id (filter claimable (jobs (w_db w))) = j # js"
    and "select_first (\<lambda>r. live_panel (j_vendor_id j) r \<and> x_is_active r) (order_by x_id (panels (w_db w))) = Inr x"
    and "panel_of_row C pass x = Inr p" and "url_ok (XP_URL p @ ''/api/clients'')"
    and "find good_reply (take 3 (w_replies w)) = Some (Reply st b)"
    and "decode_struct create_resp (decode_first b) = Some (u, t)"
    and "\<forall>q\<in>set (proxies (w_db w)). p_deleted_at q = None \<longrightarrow> p_uuid q \<noteq> u"
    and "fits_ts (t * 1000000)"
  shows "\<exists>w' ord c. worker_tick C pass (multi_provision url_ok) w = (Inr (), w') \<and>
     ord \<in> set (orders (w_db w)) \<and> o_id ord = j_order_id j \<and> o_vendor_id ord = j_vendor_id j \<and>
     c \<in> set (catalog_items (w_db w)) \<and> c_id c = o_catalog_id ord \<and>
     w_faults w' = [] \<and> w_now w' = w_now w \<and> w_replies w' = after_good (w_replies w) \<and>
     w_seq w' = (w_seq w)(TProxies := w_seq w TProxies + 1) \<and>
     w_db w' = served_db j (XP_VendorID p) (XP_URL p) ord c u t (w_seq w TProxies + 1) (w_now w) (w_db w) \<and>
     w_hub w' = notify ''service.provisioned''
       [(''order_id'', JInt (o_id ord)), (''service_id'', JInt (w_seq w TProxies + 1))] (w_hub w)"
proof -
  let ?d = "w_db w" and ?i = "w_seq w TProxies + 1"
  have j: "j \<in> set (jobs ?d)" using order_by_ConsD [OF assms(3)] by simp
  from assms(1) j obtain ord c where ord: "ord \<in> set (orders ?d)" "o_id ord = j_order_id j"
      "o_vendor_id ord = j_vendor_id j"
    and so: "select_first (live_order (j_vendor_id j) (j_order_id j)) (orders ?d) = Inr ord"
    and c: "c \<in> set (catalog_items ?d)" "c_id c = o_catalog_id ord"
    and sc: "select_first (\<lambda>r. c_id r = o_catalog_id ord \<and> c_deleted_at r = None) (catalog_items ?d) = Inr c"
    and fk: "fits32 (c_traffic_limit_gb c)" "fits32 (c_duration_days c)"
      "has_vendor ?d (o_vendor_id ord)" "has_user ?d (o_user_id ord)" "has_order ?d (o_id ord)"
    by (rule stored_order)
  let ?claimed = "?d\<lparr>jobs := update_where (\<lambda>x. j_id x = j_id j)
      (\<lambda>x. x\<lparr>j_status := ''provisioning'', j_updated_at := w_now w\<rparr>) (jobs ?d)\<rparr>"
  let ?w1 = "w\<lparr>w_db := ?claimed\<rparr>"
  have f1: "w_faults ?w1 = []" using assms(2) by simp
  have claim: "jobs_claim_next w = (Inr (j_id j, j_order_id j, j_vendor_id j), ?w1)"
    using assms(2,3) by (simp add: jobs_claim_next_def nofault_simps sql_claim_def)
  have pn: "panel_first_active C pass (j_vendor_id j) ?w1 = (Inr p, ?w1)"
    using assms(4,5) by (simp add: panel_first_active_def andThen_def nofault_query [OF f1] lift_res_def ret_def)
  have "XP_VendorID p = j_vendor_id j"
    using select_first_InrD [OF assms(4)] assms(5) by (auto simp: panel_of_row_def map_sum_Inr_iff)
  with fk ord(3) have "has_vendor (w_db ?w1) (XP_VendorID p)" "has_user (w_db ?w1) (o_user_id ord)"
    "has_order (w_db ?w1) (o_id ord)" by (simp_all add: has_iffs)
  with so sc assms(6-10) fk(1,2) obtain w2 where
    hj: "handle_job C pass (multi_provision url_ok) (j_id j) (j_order_id j) (j_vendor_id j) ?w1 = (Inr (), w2)"
    and w2: "w_faults w2 = []" "w_now w2 = w_now w" "w_replies w2 = after_good (w_replies w)"
      "w_seq w2 = (w_seq w)(TProxies := ?i)"
      "w_db w2 = provisioned (job_record p (order_of_row ord) (item_of_row c)
         \<lparr>XR_UUID = u, XR_ExpiresAt = t * 1000000000\<rparr>) (o_id ord) ?i (w_now w) ?claimed"
      "w_hub w2 = notify ''service.provisioned''
         [(''order_id'', JInt (o_id ord)), (''service_id'', JInt ?i)] (w_hub w)"
    using handle_job_complete [OF f1 _ pn, of "j_order_id j" ord c url_ok st b u t "j_id j"] by auto
  let ?done = "(w_db w2)\<lparr>jobs := update_where (\<lambda>x. j_id x = j_id j)
        (\<lambda>x. x\<lparr>j_status := ''done'', j_updated_at := w_now w\<rparr>) (jobs (w_db w2))\<rparr>"
  have "worker_tick C pass (multi_provision url_ok) w = (Inr (), w2\<lparr>w_db := ?done\<rparr>)"
    using w2(1,2)
    by (simp add: worker_tick_def attempt_def claim hj job_succeeded_def jobs_mark_done_def orElse_def
        nofault_exec sql_mark_done_def)
  moreover have "?done = served_db j (XP_VendorID p) (XP_URL p) ord c u t ?i (w_now w) ?d"
    by (simp add: w2(5) served_db_def provisioned_def service_row_def job_record_def order_of_row_def
        item_of_row_def Let_def db_time_def update_where_twice comp_def)
  ultimately show ?thesis
    using ord c w2(1-4,6) by (intro exI [of _ "w2\<lparr>w_db := ?done\<rparr>"] exI [of _ ord] exI [of _ c]) simp
qed

text \<open>The panel read from its row: with the token stored encrypted it is always there.\<close>

lemma tick_serves_stored:
  assumes "store_inv C pass (w_seq w) (w_db w)" and "aead_ok C" and "w_faults w = []"
    and "order_by j_id (filter claimable (jobs (w_db w))) = j # js"
    and "select_first (\<lambda>r. live_panel (j_vendor_id j) r \<and> x_is_active r) (order_by x_id (panels (w_db w))) = Inr x"
    and "url_ok (x_url x @ ''/api/clients'')"
    and "find good_reply (take 3 (w_replies w)) = Some (Reply st b)"
    and "decode_struct create_resp (decode_first b) = Some (u, t)"
    and "\<forall>q\<in>set (proxies (w_db w)). p_deleted_at q = None \<longrightarrow> p_uuid q \<noteq> u"
    and "fits_ts (t * 1000000)"
  shows "\<exists>w' ord c. worker_tick C pass (multi_provision url_ok) w = (Inr (), w') \<and>
     ord \<in> set (orders (w_db w)) \<and> o_id ord = j_order_id j \<and> o_vendor_id ord = j_vendor_id j \<and>
     c \<in> set (catalog_items (w_db w)) \<and> c_id c = o_catalog_id ord \<and>
     w_faults w' = [] \<and> w_now w' = w_now w \<and> w_replies w' = after_good (w_replies w) \<and>
     w_seq w' = (w_seq w)(TProxies := w_seq w TProxies + 1) \<and>
     w_db w' = served_db j (x_vendor_id x) (x_url x) ord c u t (w_seq w TProxies + 1) (w_now w) (w_db w) \<and>
     w_hub w' = notify ''service.provisioned''
       [(''order_id'', JInt (o_id ord)), (''service_id'', JInt (w_seq w TProxies + 1))] (w_hub w)"
proof -
  have "x \<in> set (panels (w_db w))" using select_first_InrD [OF assms(5)] by simp
  with assms(1) obtain tok where "x_token x = encrypt C pass tok" by (auto simp: store_inv_def panel_inv_def)
  from panel_of_row_encrypted [OF assms(2) this] obtain p where
    p: "panel_of_row C pass x = Inr p" "XP_URL p = x_url x" "XP_VendorID p = x_vendor_id x" by simp
  with tick_serves [OF assms(1,3,4,5) p(1) _ assms(7-10), where url_ok = url_ok] assms(6) show ?thesis by simp
qed

end
