(* ===== verification/Backlog.thy ===== *)
theory Backlog
  imports Serving
begin

text \<open>
  The job queue over many ticks. As long as the panels answer, the worker serves the waiting
  jobs one per tick, in the order in which they were enqueued, until none waits.
\<close>

section \<open>The queue\<close>

text \<open>The jobs that wait, in the order in which the worker claims them.\<close>

definition backlog :: "db \<Rightarrow> job_row list" where
  "backlog d = order_by j_id (filter claimable (jobs d))"

lemma in_backlog: "j \<in> set (backlog d) \<longleftrightarrow> j \<in> set (jobs d) \<and> claimable j"
  by (simp add: backlog_def)

abbreviation finished :: "int \<Rightarrow> job_row \<Rightarrow> job_row" where
  "finished now j \<equiv> j\<lparr>j_status := ''done'', j_updated_at := now\<rparr>"

lemma not_claimable_finished [simp]: "\<not> claimable (finished now j)"
  by (simp add: claimable_def)

lemma distinct_order_by: "distinct (map key rows) \<Longrightarrow> distinct (map key (order_by key rows))"
  by (simp add: order_by_def distinct_map)

lemma filter_order_by: "filter p (order_by key rows) = order_by key (filter p rows)"
  by (simp add: order_by_def filter_sort)

text \<open>What is left of the queue once its first job is done is the rest of it.\<close>

lemma backlog_tick:
  assumes "distinct (map j_id (jobs d))" and "backlog d = j # js"
    and "jobs d' = update_where (\<lambda>x. j_id x = j_id j) (finished now) (jobs d)"
  shows "backlog d' = js"
proof -
  have "filter claimable (update_where (\<lambda>x. j_id x = j_id j) (finished now) rows) =
      filter (\<lambda>x. j_id x \<noteq> j_id j) (filter claimable rows)" for rows
    by (induction rows) auto
  then have "backlog d' = filter (\<lambda>x. j_id x \<noteq> j_id j) (backlog d)"
    by (simp add: backlog_def assms(3) filter_order_by)
  also have "\<dots> = filter (\<lambda>x. j_id x \<noteq> j_id j) js" by (simp add: assms(2))
  also have "\<dots> = js"
  proof (rule filter_True, rule ballI)
    have "distinct (map j_id (backlog d))"
      using assms(1) by (simp add: backlog_def distinct_order_by distinct_map_filter)
    then show "j_id x \<noteq> j_id j" if "x \<in> set js" for x
      using that by (metis assms(2) distinct.simps(2) image_eqI list.set_map list.simps(9))
  qed
  finally show ?thesis .
qed

section \<open>What the panels answer\<close>

definition reply_client :: "reply \<Rightarrow> (string \<times> int) option" where
  "reply_client r =
     (case r of
        NoReply \<Rightarrow> None
      | Reply st b \<Rightarrow> if 300 \<le> st then None else decode_struct create_resp (decode_first b))"

lemma good_reply_client: "good_reply r \<longleftrightarrow> reply_client r \<noteq> None"
  by (cases r) (auto simp: good_reply_def reply_client_def)

text \<open>The replies to one job: at most two bad ones, then one that brings the client \<open>ut\<close>.\<close>

definition answers_job :: "reply list \<Rightarrow> string \<times> int \<Rightarrow> bool" where
  "answers_job rs ut \<longleftrightarrow> rs \<noteq> [] \<and> length rs \<le> 3 \<and> reply_client (last rs) = Some ut \<and>
     list_all (\<lambda>r. reply_client r = None) (butlast rs)"

lemma answers_job_find:
  assumes "answers_job rs (u, t)"
  obtains st b where "find good_reply (take 3 (rs @ rest)) = Some (Reply st b)"
    and "decode_struct create_resp (decode_first b) = Some (u, t)"
    and "after_good (rs @ rest) = rest"
proof -
  let ?r = "last rs" and ?bad = "butlast rs"
  have rs: "rs = ?bad @ [?r]" and len: "length rs \<le> 3" and bad: "\<forall>r\<in>set ?bad. \<not> good_reply r"
    and good: "reply_client ?r = Some (u, t)"
    using assms by (simp_all add: answers_job_def good_reply_client list_all_iff)
  from good obtain st b where r: "?r = Reply st b" "decode_struct create_resp (decode_first b) = Some (u, t)"
    by (auto simp: reply_client_def split: reply.splits if_splits)
  have g: "good_reply ?r" using good by (simp add: good_reply_client)
  have skip: "find good_reply (bs @ ?r # q) = Some ?r \<and> dropWhile (\<lambda>r. \<not> good_reply r) (bs @ ?r # q) = ?r # q"
    if "\<forall>r\<in>set bs. \<not> good_reply r" for bs q
    using that g by (induction bs) auto
  have split: "rs @ rest = ?bad @ ?r # rest" by (subst rs) simp
  have "3 - length ?bad = Suc (2 - length ?bad)" using len by simp
  then have tk: "take 3 (rs @ rest) = ?bad @ ?r # take (2 - length ?bad) rest"
    unfolding split using len by (simp add: take_append)
  show thesis
  proof (rule that [OF _ r(2)])
    show "find good_reply (take 3 (rs @ rest)) = Some (Reply st b)"
      unfolding tk using skip [OF bad] r(1) by simp
    show "after_good (rs @ rest) = rest"
      unfolding after_good_def split using skip [OF bad] by simp
  qed
qed

section \<open>One tick of many\<close>

lemma reachable_run:
  assumes "sys_run C pass url_ok s s'" and "reachable C pass url_ok s"
  shows "reachable C pass url_ok s'"
  using assms by (induction rule: rtranclp_induct) (auto intro: reachable.step)

text \<open>The vendor has an active panel with a valid address; so has the vendor of every waiting job.\<close>

definition panel_ready :: "(string \<Rightarrow> bool) \<Rightarrow> db \<Rightarrow> int \<Rightarrow> bool" where
  "panel_ready url_ok d v \<longleftrightarrow>
     (case select_first (\<lambda>r. live_panel v r \<and> x_is_active r) (order_by x_id (panels d)) of
        Inl _ \<Rightarrow> False | Inr x \<Rightarrow> url_ok (x_url x @ ''/api/clients''))"

definition panels_ready :: "(string \<Rightarrow> bool) \<Rightarrow> db \<Rightarrow> bool" where
  "panels_ready url_ok d \<longleftrightarrow> (\<forall>j\<in>set (backlog d). panel_ready url_ok d (j_vendor_id j))"

lemma tick_serves_next:
  assumes "reachable C pass url_ok (w, ts)" and "aead_ok C" and "w_faults w = []"
    and "backlog (w_db w) = j # js" and "panels_ready url_ok (w_db w)"
    and "w_replies w = rs @ rest" and "answers_job rs (u, t)"
    and "\<forall>q\<in>set (proxies (w_db w)). p_deleted_at q = None \<longrightarrow> p_uuid q \<noteq> u"
    and "fits_ts (t * 1000000)"
  obtains w' ord c url where "worker_tick C pass (multi_provision url_ok) w = (Inr (), w')"
    and "reachable C pass url_ok (w', ts)"
    and "ord \<in> set (orders (w_db w))" and "o_id ord = j_order_id j" and "o_vendor_id ord = j_vendor_id j"
    and "c \<in> set (catalog_items (w_db w))" and "c_id c = o_catalog_id ord"
    and "w_faults w' = []" and "w_now w' = w_now w" and "w_replies w' = rest"
    and "w_seq w' = (w_seq w)(TProxies := w_seq w TProxies + 1)"
    and "w_db w' = served_db j (j_vendor_id j) url ord c u t (w_seq w TProxies + 1) (w_now w) (w_db w)"
proof -
  let ?P = "\<lambda>r. live_panel (j_vendor_id j) r \<and> x_is_active r"
  from assms(4,5) obtain x where x: "select_first ?P (order_by x_id (panels (w_db w))) = Inr x"
    "url_ok (x_url x @ ''/api/clients'')" by (auto simp: panels_ready_def panel_ready_def split: sum.splits)
  have v: "x_vendor_id x = j_vendor_id j" using select_first_InrD [OF x(1)] by simp
  from answers_job_find [OF assms(7), of rest] obtain st b where
    a: "find good_reply (take 3 (w_replies w)) = Some (Reply st b)"
      "decode_struct create_resp (decode_first b) = Some (u, t)" "after_good (w_replies w) = rest"
    unfolding assms(6) by blast
  from tick_serves_stored [OF reachable_store [OF assms(1)] assms(2,3) assms(4) [unfolded backlog_def]
      x(1) _ a(1,2) assms(8,9), where url_ok = url_ok] x(2) obtain w' ord c where
    t: "worker_tick C pass (multi_provision url_ok) w = (Inr (), w')" and
    rest: "ord \<in> set (orders (w_db w))" "o_id ord = j_order_id j" "o_vendor_id ord = j_vendor_id j"
      "c \<in> set (catalog_items (w_db w))" "c_id c = o_catalog_id ord"
      "w_faults w' = []" "w_now w' = w_now w" "w_replies w' = rest"
      "w_seq w' = (w_seq w)(TProxies := w_seq w TProxies + 1)"
      "w_db w' = served_db j (j_vendor_id j) (x_url x) ord c u t (w_seq w TProxies + 1) (w_now w) (w_db w)"
    unfolding v a(3) by blast
  have "reachable C pass url_ok (w', ts)"
    using reachable_run [OF tick_runs [OF t, of ts] assms(1)] by simp
  with t rest show thesis by (intro that)
qed

section \<open>Until none waits\<close>

text \<open>
  \<open>drained\<close>: the tables after the jobs \<open>js\<close> were served, with \<open>new\<close> the services stored
  for them. Every waiting job is done, and the order of the \<open>n\<close>th is linked to the \<open>n\<close>th service
  after number \<open>i\<close>. Nothing else changes.
\<close>

definition service_ids :: "int \<Rightarrow> job_row list \<Rightarrow> (int \<times> int) list" where
  "service_ids i js = zip (map j_order_id js) [i + 1..i + int (length js)]"

definition linked :: "int \<Rightarrow> int \<Rightarrow> job_row list \<Rightarrow> order_row \<Rightarrow> order_row" where
  "linked i now js ord =
     (case map_of (service_ids i js) (o_id ord) of
        None \<Rightarrow> ord
      | Some k \<Rightarrow> ord\<lparr>o_service_id := Some k, o_updated_at := now\<rparr>)"

definition drained :: "int \<Rightarrow> int \<Rightarrow> job_row list \<Rightarrow> proxy_row list \<Rightarrow> db \<Rightarrow> db" where
  "drained i now js new d = d\<lparr>
     jobs := map (\<lambda>j. if claimable j then finished now j else j) (jobs d),
     orders := map (linked i now js) (orders d), proxies := proxies d @ new\<rparr>"

text \<open>The \<open>n\<close>th new service: its number, its order, its vendor, and what the panel answered.\<close>

definition service_view :: "proxy_row \<Rightarrow> int \<times> int option \<times> int \<times> string \<times> int option \<times> string" where
  "service_view q = (p_id q, p_order_id q, p_vendor_id q, p_uuid q, p_expires_at q, p_status q)"

definition service_views ::
  "int \<Rightarrow> job_row list \<Rightarrow> (string \<times> int) list \<Rightarrow> (int \<times> int option \<times> int \<times> string \<times> int option \<times> string) list"
where
  "service_views i js uts = map (\<lambda>(k, j, u, t).
     (k, Some (j_order_id j), j_vendor_id j, u, Some (t * 1000000), ''active''))
     (zip [i + 1..i + int (length js)] (zip js uts))"

text \<open>A live service that gives the user of its order what the item of the order promises.\<close>

definition as_ordered :: "db \<Rightarrow> proxy_row \<Rightarrow> bool" where
  "as_ordered d q \<longleftrightarrow> p_deleted_at q = None \<and> (\<exists>ord\<in>set (orders d). \<exists>c\<in>set (catalog_items d).
     p_order_id q = Some (o_id ord) \<and> p_vendor_id q = o_vendor_id ord \<and> p_user_id q = o_user_id ord \<and>
     c_id c = o_catalog_id ord \<and> p_protocol q = c_protocol c \<and>
     p_traffic_limit_gb q = c_traffic_limit_gb c \<and> p_duration_days q = c_duration_days c)"

lemma drained_none: "backlog d = [] \<Longrightarrow> drained i now [] [] d = d"
  by (simp add: drained_def linked_def service_ids_def backlog_def filter_empty_conv map_idI)

lemma backlog_drained [simp]: "backlog (drained i now js new d) = []"
  by (auto simp: backlog_def drained_def filter_empty_conv)

lemma drained_step:
  assumes "distinct (map j_id (jobs d))" and "backlog d = j # js" and "o_id ord = j_order_id j"
    and "j_order_id j \<notin> j_order_id ` set js"
  shows "drained (i + 1) now js new (served_db j v url ord c u t (i + 1) now d) =
     drained i now (j # js) (last (proxies (served_db j v url ord c u t (i + 1) now d)) # new) d"
proof -
  have j: "j \<in> set (jobs d)" "claimable j" using assms(2) in_backlog [of j d] by simp_all
  have "map (\<lambda>j. if claimable j then finished now j else j)
      (update_where (\<lambda>x. j_id x = j_id j) (finished now) (jobs d)) =
    map (\<lambda>j. if claimable j then finished now j else j) (jobs d)"
    using distinct_map_eqD [OF assms(1) j(1)] j(2) by (fastforce simp: update_where_def)
  moreover have "[i + 1..i + int (length (j # js))] = (i + 1) # [i + 1 + 1..i + 1 + int (length js)]"
    by (simp add: upto_rec1 algebra_simps)
  then have ids: "service_ids i (j # js) = (j_order_id j, i + 1) # service_ids (i + 1) js"
    by (simp only: service_ids_def list.map zip_Cons_Cons)
  have "map_of (service_ids (i + 1) js) (j_order_id j) = None"
    using assms(4) by (auto simp: service_ids_def map_of_eq_None_iff dest: set_zip_leftD)
  then have "map (linked (i + 1) now js) (update_where (\<lambda>r. o_id r = o_id ord)
      (\<lambda>r. r\<lparr>o_service_id := Some (i + 1), o_updated_at := now\<rparr>) (orders d)) =
    map (linked i now (j # js)) (orders d)"
    by (simp add: update_where_def linked_def ids assms(3))
  ultimately show ?thesis by (simp add: drained_def served_db_def)
qed

lemma service_views_Cons:
  "service_views i (j # js) ((u, t) # uts) =
     (i + 1, Some (j_order_id j), j_vendor_id j, u, Some (t * 1000000), ''active'') #
     service_views (i + 1) js uts"
proof -
  have "[i + 1..i + int (length (j # js))] = (i + 1) # [i + 1 + 1..i + 1 + int (length js)]"
    by (simp add: upto_rec1 algebra_simps)
  then show ?thesis by (simp only: service_views_def zip_Cons_Cons) simp
qed

lemma backlog_orders:
  assumes "shop_inv s d"
  shows "distinct (map j_order_id (backlog d))"
proof -
  from assms have "map (\<lambda>j. (j_vendor_id j, j_order_id j)) (jobs d) = map (\<lambda>r. (o_vendor_id r, o_id r)) (orders d)"
    by (simp add: shop_inv_def)
  then have "map snd (map (\<lambda>j. (j_vendor_id j, j_order_id j)) (jobs d)) = map snd (map (\<lambda>r. (o_vendor_id r, o_id r)) (orders d))"
    by (rule arg_cong)
  then have "map j_order_id (jobs d) = map o_id (orders d)" by (simp add: comp_def)
  then have "distinct (map j_order_id (jobs d))"
    using assms by (auto simp: shop_inv_def dest: ids_ok_distinct)
  then show ?thesis
    unfolding backlog_def order_by_def by (simp add: distinct_map inj_on_def)
qed

lemma panels_ready_tick:
  assumes "panels_ready url_ok d" and "backlog d = j # js" and "backlog d' = js" and "panels d' = panels d"
  shows "panels_ready url_ok d'"
  using assms by (simp add: panels_ready_def panel_ready_def)

lemma as_ordered_served:
  assumes "as_ordered (served_db j v url ord c u t i now d) q"
  shows "as_ordered d q"
proof -
  from assms obtain o1 c1 where o1: "o1 \<in> set (orders (served_db j v url ord c u t i now d))"
    "c1 \<in> set (catalog_items d)" "p_order_id q = Some (o_id o1)" "p_vendor_id q = o_vendor_id o1"
    "p_user_id q = o_user_id o1" "c_id c1 = o_catalog_id o1" "p_protocol q = c_protocol c1"
    "p_traffic_limit_gb q = c_traffic_limit_gb c1" "p_duration_days q = c_duration_days c1"
    "p_deleted_at q = None"
    by (auto simp: as_ordered_def served_db_def)
  from o1(1) obtain x where x: "x \<in> set (orders d)" "o_id o1 = o_id x" "o_vendor_id o1 = o_vendor_id x"
    "o_user_id o1 = o_user_id x" "o_catalog_id o1 = o_catalog_id x"
    by (auto simp: served_db_def set_update_where)
  from o1(2-) show ?thesis
    unfolding as_ordered_def x(2-) by (intro conjI bexI [OF _ x(1)] bexI [OF _ o1(2)])
qed

lemma worker_loop_drains:
  assumes "reachable C pass url_ok (w, ts)" and "aead_ok C" and "w_faults w = []"
    and "backlog (w_db w) = js" and "panels_ready url_ok (w_db w)"
    and "w_replies w = concat rss @ rest" and "list_all2 answers_job rss uts" and "length uts = length js"
    and "distinct (map fst uts)" and "\<forall>(u, t)\<in>set uts. fits_ts (t * 1000000)"
    and "\<forall>q\<in>set (proxies (w_db w)). p_deleted_at q = None \<longrightarrow> p_uuid q \<notin> fst ` set uts"
  shows "\<exists>w' new. worker_loop C pass (multi_provision url_ok) (length js) w = (Inr (), w') \<and>
     w_db w' = drained (w_seq w TProxies) (w_now w) js new (w_db w) \<and>
     map service_view new = service_views (w_seq w TProxies) js uts \<and>
     list_all (as_ordered (w_db w)) new \<and> w_faults w' = []"
  using assms
proof (induction js arbitrary: w rss uts)
  case Nil
  then show ?case by (auto simp: ret_def drained_none service_views_def)
next
  case (Cons j js)
  let ?d = "w_db w" and ?i = "w_seq w TProxies"
  from Cons.prems(7,8) obtain rs rss' u t uts' where
    l: "rss = rs # rss'" "uts = (u, t) # uts'" "answers_job rs (u, t)" "list_all2 answers_job rss' uts'"
    by (cases uts) (auto simp: list_all2_Cons2)
  have r: "w_replies w = rs @ (concat rss' @ rest)" using Cons.prems(6) l(1) by simp
  have fresh: "\<forall>q\<in>set (proxies ?d). p_deleted_at q = None \<longrightarrow> p_uuid q \<noteq> u" and ft: "fits_ts (t * 1000000)"
    using Cons.prems(10,11) by (auto simp: l(2))
  from tick_serves_next [OF Cons.prems(1-5) r l(3) fresh ft] obtain w1 ord c url where
    t1: "worker_tick C pass (multi_provision url_ok) w = (Inr (), w1)" and
    r1: "reachable C pass url_ok (w1, ts)" and
    ord: "ord \<in> set (orders ?d)" "o_id ord = j_order_id j" "o_vendor_id ord = j_vendor_id j"
      "c \<in> set (catalog_items ?d)" "c_id c = o_catalog_id ord" and
    w1: "w_faults w1 = []" "w_now w1 = w_now w" "w_replies w1 = concat rss' @ rest"
      "w_seq w1 = (w_seq w)(TProxies := ?i + 1)" and
    d1: "w_db w1 = served_db j (j_vendor_id j) url ord c u t (?i + 1) (w_now w) ?d" .
  have inv: "shop_inv (w_seq w) ?d"
    using reachable_store [OF Cons.prems(1)] by (simp add: store_inv_def)
  have dist: "distinct (map j_id (jobs ?d))"
    using inv by (auto simp: shop_inv_def dest: ids_ok_distinct)
  have b1: "backlog (w_db w1) = js"
    by (rule backlog_tick [OF dist Cons.prems(4)]) (simp add: d1 served_db_def)
  have p1: "panels_ready url_ok (w_db w1)"
    by (rule panels_ready_tick [OF Cons.prems(5,4) b1]) (simp add: d1 served_db_def)
  let ?new = "last (proxies (w_db w1))"
  have "\<forall>q\<in>set (proxies (w_db w1)). p_deleted_at q = None \<longrightarrow> p_uuid q \<notin> fst ` set uts'"
    using Cons.prems(9,11) by (auto simp: d1 served_db_def l(2))
  with Cons.IH [OF r1 Cons.prems(2) w1(1) b1 p1 w1(3) l(4)] Cons.prems(8,9,10) obtain w' new where
    t2: "worker_loop C pass (multi_provision url_ok) (length js) w1 = (Inr (), w')" and
    d2: "w_db w' = drained (?i + 1) (w_now w) js new (w_db w1)" and
    v2: "map service_view new = service_views (?i + 1) js uts'" and
    a2: "list_all (as_ordered (w_db w1)) new" and r2: "w_faults w' = []"
    by (auto simp: l(2) w1)
  have "j_order_id j \<notin> j_order_id ` set js"
    using backlog_orders [OF inv] by (simp add: Cons.prems(4))
  from drained_step [OF dist Cons.prems(4) ord(2) this] have
    "w_db w' = drained ?i (w_now w) (j # js) (?new # new) ?d" by (simp add: d2 d1)
  moreover have "map service_view (?new # new) = service_views ?i (j # js) uts"
    by (simp add: v2 l(2) service_views_Cons) (simp add: d1 served_db_def service_view_def ord(2))
  moreover have "as_ordered ?d ?new"
    unfolding as_ordered_def using ord
    by (intro conjI bexI [OF _ ord(1)] bexI [OF _ ord(4)]) (simp_all add: d1 served_db_def)
  then have "list_all (as_ordered ?d) (?new # new)"
    using a2 by (auto simp: d1 list_all_iff dest: as_ordered_served)
  ultimately show ?case using t1 t2 r2 by (auto simp: andThen_def)
qed

end
