(* ===== verification/Delivery.thy ===== *)
theory Delivery
  imports Backlog
begin

text \<open>
  From an order to the service: an order placed in a reachable state, the worker's loop over
  what waits, and the list in which the user then finds the service.
\<close>

section \<open>What an order leaves for the worker\<close>

text \<open>The replies of the panels stay where they are, and no fault comes by itself.\<close>

definition net_rel :: "world \<Rightarrow> world \<Rightarrow> bool" where
  "net_rel w w' \<longleftrightarrow> w_replies w' = w_replies w \<and> w_now w' = w_now w"

interpretation net: frame_relation net_rel
  by unfold_locales (auto simp: net_rel_def)

lemma create_net: "via net_rel (order_create req)"
proof -
  have "via net_rel (notifyAct t p)" for t p by (simp add: via_def net_rel_def notifyAct_def)
  then show ?thesis
    unfolding order_create_def idem_resolve_def orders_by_id_def create_validate_def catalog_price_get_def
      create_commit_def create_body_def idem_reserve_tx_def deduct_tx_def orders_create_tx_def
      idem_link_order_tx_def jobs_enqueue_tx_def
    by (intro net.via_intros)
qed

lemma backlog_filter:
  assumes "shop_inv s d"
  shows "backlog d = filter claimable (jobs d)"
proof -
  have "sorted (map j_id (jobs d))" using assms by (simp add: shop_inv_def ids_ok_def strict_sorted_iff)
  then show ?thesis
    unfolding backlog_def order_by_def by (intro sort_key_id_if_sorted sorted_filter)
qed

text \<open>The job of the new order is the last in the queue.\<close>

definition new_job :: "int \<Rightarrow> int \<Rightarrow> int \<Rightarrow> int \<Rightarrow> job_row" where
  "new_job i v oi now = \<lparr>j_id = i, j_vendor_id = v, j_order_id = oi, j_status = ''pending'',
     j_retries = 0, j_last_error = None, j_dead_letter = False, j_updated_at = now,
     j_deleted_at = None\<rparr>"

lemma backlog_placed:
  assumes "shop_inv s d" and "shop_inv (placed_seq s) (placed r v u c p k s now d)"
  shows "backlog (placed r v u c p k s now d) = backlog d @ [new_job (s TJobs + 1) v (s TOrders + 1) now]"
  unfolding backlog_filter [OF assms(1)] backlog_filter [OF assms(2)]
  by (simp add: placed_def new_job_def claimable_def)

lemma last_service_views:
  assumes "length uts = length js"
  shows "last (service_views i (js @ [j]) (uts @ [(u, t)])) =
     (i + int (length js) + 1, Some (j_order_id j), j_vendor_id j, u, Some (t * 1000000), ''active'')"
  using assms
proof (induction uts js arbitrary: i rule: list_induct2)
  case Nil
  then show ?case by (simp add: service_views_def)
next
  case (Cons x xs y ys)
  have "service_views (i + 1) (ys @ [j]) (xs @ [(u, t)]) \<noteq> []"
    using Cons.hyps by (simp add: service_views_def)
  with Cons.IH [of "i + 1"] show ?case by (cases x) (simp add: service_views_Cons algebra_simps)
qed

section \<open>From the order to the service\<close>

lemma panel_ready_placed [simp]:
  "panel_ready url_ok (placed r v u c p k s now d) x = panel_ready url_ok d x"
  by (simp add: panel_ready_def placed_def)

lemma list_by_user_complete:
  assumes "w_faults w = []" and "q \<in> set (proxies (w_db w))" and "p_vendor_id q = v" and "p_user_id q = u"
    and "p_deleted_at q = None"
  shows "\<exists>svcs. proxy_list_by_user v u w = (Inr svcs, w) \<and> record_of_row q \<in> set svcs"
  using assms
  by (simp add: proxy_list_by_user_def list_proxies_def nofault_query [OF assms(1)])

text \<open>The new order is the only one of its number, and its item the only one of its own.\<close>

lemma new_order_service:
  assumes "store_inv C pass s' (placed r v u c p k s now d)" and "item \<in> set (catalog_items d)" and "c_id item = c"
    and "as_ordered (placed r v u c p k s now d) q" and "p_order_id q = Some (s TOrders + 1)"
  shows "p_user_id q = u \<and> p_protocol q = c_protocol item \<and> p_deleted_at q = None \<and>
     p_traffic_limit_gb q = c_traffic_limit_gb item \<and> p_duration_days q = c_duration_days item"
proof -
  let ?d = "placed r v u c p k s now d"
  have inv: "shop_inv s' ?d" "catalog_inv s' ?d" using assms(1) by (simp_all add: store_inv_def)
  from inv have dist: "distinct (map o_id (orders ?d))" "distinct (map c_id (catalog_items ?d))"
    by (auto simp: shop_inv_def catalog_inv_def dest: ids_ok_distinct)
  from assms(4) obtain ord c1 where o: "ord \<in> set (orders ?d)" "c1 \<in> set (catalog_items ?d)"
    "p_order_id q = Some (o_id ord)" "p_user_id q = o_user_id ord" "c_id c1 = o_catalog_id ord"
    "p_protocol q = c_protocol c1" "p_traffic_limit_gb q = c_traffic_limit_gb c1"
    "p_duration_days q = c_duration_days c1" "p_deleted_at q = None"
    by (auto simp: as_ordered_def)
  have l: "last (orders ?d) \<in> set (orders ?d)" "o_id (last (orders ?d)) = s TOrders + 1"
    "o_user_id (last (orders ?d)) = u" "o_catalog_id (last (orders ?d)) = c"
    by (simp_all add: placed_def)
  have "ord = last (orders ?d)"
    using distinct_map_eqD [OF dist(1) o(1) l(1)] l(2) o(3) assms(5) by simp
  moreover from this have "c1 = item"
    using distinct_map_eqD [OF dist(2) o(2), of item] o(5) l(4) assms(2,3) by (simp add: placed_def)
  ultimately show ?thesis using o l by simp
qed

lemma wallet_view_wallets: "wallets d' = wallets d \<Longrightarrow> wallet_view d' = wallet_view d"
  by (simp add: wallet_view_def fun_eq_iff)

lemma wallet_view_placed:
  assumes "one_wallet d" and "can_place r v u c p k d"
  shows "wallet_view (placed r v u c p k s now d) = (wallet_view d)(u \<mapsto> wa_balance r - p)"
proof -
  have r: "r \<in> set (wallets d)" "wa_user_id r = u"
    using assms(2) by (auto simp: can_place_def dest!: select_first_InrD)
  have "wallet_view (placed r v u c p k s now d) =
      wallet_view (post_wallet (wa_id r) u (- p) (wrap64 (- p)) ''order_debit'' (s TWalletTxs + 1) now d)"
    by (rule wallet_view_wallets) (simp add: placed_def)
  then show ?thesis using wallet_view_post [OF assms(1) r(1)] r(2) by simp
qed

text \<open>Placing the order: what the worker then finds.\<close>

lemma order_queued:
  assumes "reachable C pass url_ok (w, ts)" and "w_faults w = []" and "R_IdempotencyKey req \<noteq> []"
    and "select_first (live_item (R_VendorID req) (R_CatalogID req)) (catalog_items (w_db w)) = Inr item"
    and "c_is_active item"
    and "can_place r (R_VendorID req) (R_UserID req) (R_CatalogID req) (c_price_toman item)
        (R_IdempotencyKey req) (w_db w)"
    and "panels_ready url_ok (w_db w)" and "panel_ready url_ok (w_db w) (R_VendorID req)"
  obtains w1 where "order_create req w = (Inr (approved_response (w_seq w TOrders + 1)), w1)"
    and "reachable C pass url_ok (w1, ts)" and "w_faults w1 = []" and "w_replies w1 = w_replies w"
    and "w_db w1 = placed r (R_VendorID req) (R_UserID req) (R_CatalogID req) (c_price_toman item)
        (R_IdempotencyKey req) (w_seq w) (w_now w) (w_db w)"
    and "backlog (w_db w1) = backlog (w_db w) @
        [new_job (w_seq w TJobs + 1) (R_VendorID req) (w_seq w TOrders + 1) (w_now w)]"
    and "panels_ready url_ok (w_db w1)"
proof -
  have "store_inv C pass (w_seq w) (w_db w)" using assms(1) by (rule reachable_store)
  then have dist: "distinct (map wa_id (wallets (w_db w)))" and shop: "shop_inv (w_seq w) (w_db w)"
    by (auto simp: store_inv_def ledger_inv_def dest: ids_ok_distinct)
  from order_create_complete [OF assms(2) dist assms(3-6)] obtain w1 where
    c: "order_create req w = (Inr (approved_response (w_seq w TOrders + 1)), w1)" and
    w1: "w_faults w1 = []" "w_seq w1 = placed_seq (w_seq w)" and
    d1: "w_db w1 = placed r (R_VendorID req) (R_UserID req) (R_CatalogID req) (c_price_toman item)
        (R_IdempotencyKey req) (w_seq w) (w_now w) (w_db w)" by blast
  have n1: "w_replies w1 = w_replies w" using viaD [OF create_net c] by (simp add: net_rel_def)
  have r1: "reachable C pass url_ok (w1, ts)"
    using reachable_run [OF create_runs [of C pass url_ok w ts req] assms(1)] by (simp add: c)
  then have "shop_inv (placed_seq (w_seq w)) (w_db w1)"
    using reachable_store by (fastforce simp: store_inv_def simp flip: w1(2))
  from backlog_placed [OF shop this [unfolded d1]] have
    b1: "backlog (w_db w1) = backlog (w_db w) @
      [new_job (w_seq w TJobs + 1) (R_VendorID req) (w_seq w TOrders + 1) (w_now w)]"
    by (simp add: d1)
  have "panels_ready url_ok (w_db w1)"
    using assms(7,8) unfolding panels_ready_def b1 by (simp add: d1 new_job_def)
  with c r1 w1(1) n1 d1 b1 show thesis by (rule that)
qed

lemma order_delivered:
  assumes "reachable C pass url_ok (w, ts)" and "aead_ok C" and "w_faults w = []"
    and "R_IdempotencyKey req \<noteq> []"
    and "select_first (live_item (R_VendorID req) (R_CatalogID req)) (catalog_items (w_db w)) = Inr item"
    and "c_is_active item"
    and "can_place r (R_VendorID req) (R_UserID req) (R_CatalogID req) (c_price_toman item)
        (R_IdempotencyKey req) (w_db w)"
    and "panels_ready url_ok (w_db w)" and "panel_ready url_ok (w_db w) (R_VendorID req)"
    and "w_replies w = concat rss @ rest" and "list_all2 answers_job rss (uts @ [(u, t)])"
    and "length uts = length (backlog (w_db w))" and "distinct (map fst (uts @ [(u, t)]))"
    and "\<forall>(u, t)\<in>set (uts @ [(u, t)]). fits_ts (t * 1000000)"
    and "\<forall>q\<in>set (proxies (w_db w)). p_deleted_at q = None \<longrightarrow> p_uuid q \<notin> fst ` set (uts @ [(u, t)])"
  shows "\<exists>w1 w2 svcs svc.
     order_create req w = (Inr (approved_response (w_seq w TOrders + 1)), w1) \<and>
     worker_loop C pass (multi_provision url_ok) (length uts + 1) w1 = (Inr (), w2) \<and>
     backlog (w_db w2) = [] \<and>
     wallet_view (w_db w2) = (wallet_view (w_db w))(R_UserID req \<mapsto> wa_balance r - c_price_toman item) \<and>
     proxy_list_by_user (R_VendorID req) (R_UserID req) w2 = (Inr svcs, w2) \<and> svc \<in> set svcs \<and>
     PS_OrderID svc = Some (w_seq w TOrders + 1) \<and> PS_Status svc = ''active'' \<and> PS_UUID svc = u \<and>
     PS_ExpiresAt svc = Some (go_time (t * 1000000)) \<and> PS_Protocol svc = c_protocol item \<and>
     PS_TrafficLimitGB svc = c_traffic_limit_gb item \<and> PS_DurationDays svc = c_duration_days item"
proof -
  let ?s = "w_seq w" and ?d = "w_db w" and ?v = "R_VendorID req"
  from order_queued [OF assms(1,3-9)] obtain w1 where
    c: "order_create req w = (Inr (approved_response (?s TOrders + 1)), w1)" and
    r1: "reachable C pass url_ok (w1, ts)" and f1: "w_faults w1 = []" and n1: "w_replies w1 = w_replies w" and
    d1: "w_db w1 = placed r ?v (R_UserID req) (R_CatalogID req) (c_price_toman item)
        (R_IdempotencyKey req) ?s (w_now w) ?d" and
    b1: "backlog (w_db w1) = backlog ?d @ [new_job (?s TJobs + 1) ?v (?s TOrders + 1) (w_now w)]" and
    p1: "panels_ready url_ok (w_db w1)" .
  have inv1: "store_inv C pass (w_seq w1) (w_db w1)" using r1 by (rule reachable_store)
  have len: "length (uts @ [(u, t)]) = length (backlog (w_db w1))" using assms(12) by (simp add: b1)
  have "proxies (w_db w1) = proxies ?d" by (simp add: d1 placed_def)
  with worker_loop_drains [OF r1 assms(2) f1 refl p1 n1 [unfolded assms(10)] assms(11) len assms(13,14)] assms(15) obtain w2 new where
    t2: "worker_loop C pass (multi_provision url_ok) (length (backlog (w_db w1))) w1 = (Inr (), w2)" and
    d2: "w_db w2 = drained (w_seq w1 TProxies) (w_now w1) (backlog (w_db w1)) new (w_db w1)" and
    v2: "map service_view new = service_views (w_seq w1 TProxies) (backlog (w_db w1)) (uts @ [(u, t)])" and
    a2: "list_all (as_ordered (w_db w1)) new" and f2: "w_faults w2 = []" by auto
  let ?q = "last new"
  have ne: "new \<noteq> []" using arg_cong [OF v2, of length] by (auto simp: b1 service_views_def assms(12))
  have "service_view ?q = last (map service_view new)" using ne by (simp add: last_map)
  then have q: "p_order_id ?q = Some (?s TOrders + 1)" "p_vendor_id ?q = ?v" "p_uuid ?q = u"
    "p_expires_at ?q = Some (t * 1000000)" "p_status ?q = ''active''"
    unfolding v2 b1 last_service_views [OF assms(12)] by (simp_all add: service_view_def new_job_def)
  have "as_ordered (w_db w1) ?q" using a2 ne by (simp add: list_all_iff)
  from new_order_service [OF inv1 [unfolded d1] _ _ this [unfolded d1] q(1)] select_first_InrD [OF assms(5)]
  have k: "p_user_id ?q = R_UserID req" "p_protocol ?q = c_protocol item" "p_deleted_at ?q = None"
    "p_traffic_limit_gb ?q = c_traffic_limit_gb item" "p_duration_days ?q = c_duration_days item" by auto
  have "?q \<in> set (proxies (w_db w2))" using ne by (simp add: d2 drained_def)
  from list_by_user_complete [OF f2 this q(2) k(1,3)] obtain svcs where
    "proxy_list_by_user ?v (R_UserID req) w2 = (Inr svcs, w2)" "record_of_row ?q \<in> set svcs" by blast
  moreover have "one_wallet ?d"
    using reachable_store [OF assms(1)] by (simp add: store_inv_def accounts_inv_def)
  then have "wallet_view (w_db w2) = (wallet_view ?d)(R_UserID req \<mapsto> wa_balance r - c_price_toman item)"
    using wallet_view_placed [OF _ assms(7)] wallet_view_wallets [of "w_db w2" "w_db w1"]
    by (simp add: d1 d2 drained_def)
  moreover have "backlog (w_db w2) = []" by (simp add: d2)
  moreover have "length (backlog (w_db w1)) = length uts + 1" using len by simp
  ultimately show ?thesis
    using c t2 d1 q k by (intro exI [of _ w1] exI [of _ w2] exI [of _ svcs] exI [of _ "record_of_row ?q"])
      (simp add: record_of_row_def)
qed

end
