(* ===== verification/SystemProps.thy ===== *)
theory SystemProps
  imports Delivery Demo
begin

text \<open>
  What holds in every reachable state of the running system, under any interleaving of
  requests and worker, any faults, and any crash; and that whole operations are runs of
  its steps. A demonstration run provides the witnesses.
\<close>

section \<open>A run\<close>

text \<open>
  From empty tables (one row is in \<open>service_catalog\<close>): a vendor and a user register, an
  item, a panel and money are added, the user orders, the worker serves the order.
\<close>

definition run0 :: world where
  "run0 = (demo_world [] [])
     \<lparr>w_db := empty_db\<lparr>service_catalog := [\<lparr>sc_id = 1, sc_vendor_id = 1, sc_name = ''s'',
       sc_protocol = ''vless'', sc_duration_days = 30, sc_traffic_gb = 100, sc_price = 200\<rparr>]\<rparr>,
      w_seq := (\<lambda>_. 0)\<rparr>"

definition run1 :: world where
  "run1 = snd (ensure_for_user 2 (snd (user_create ''u'' ''x'' ''user''
     (snd (user_create ''v'' ''x'' ''vendor'' run0)))))"

definition run2 :: world where
  "run2 = snd (apply_transaction 2 500 ''admin_topup''
     (snd (panel_create toy_crypto ''key'' \<lparr>XP_ID = 0, XP_VendorID = 1, XP_Name = ''p'',
         XP_URL = ''http://p'', XP_Token = ''token'', XP_InboundID = 7, XP_IsActive = True,
         XP_Health = ''unknown'', XP_LastChecked = None\<rparr>
     (snd (catalog_create (item_of_row demo_item)
     (snd (vendor_create 1 ''Demo'' ''demo'' run1)))))))"

definition run_price :: CatalogPrice where
  "run_price = price_of_row demo_item"

definition run3 :: world where
  "run3 = snd (create_commit demo_req run_price (snd (create_start demo_req run2)))"

lemma run_reaches1: "reachable C pass url_ok (run1, [TEnsure 1])"
proof -
  let ?w1 = "snd (user_create ''v'' ''x'' ''vendor'' run0)"
  let ?w2 = "snd (user_create ''u'' ''x'' ''user'' ?w1)"
  have 0: "reachable C pass url_ok (run0, [])"
    by (rule reachable.start) (simp_all add: run0_def)
  have "user_create ''v'' ''x'' ''vendor'' run0 = (Inr 1, ?w1)"
    by (rule prod_eqI) (simp, code_simp, simp)
  from sy_user [OF this, of C pass url_ok "[]"]
  have 1: "reachable C pass url_ok (?w1, [TEnsure 1])" using 0 by (auto intro: reachable.step)
  have "user_create ''u'' ''x'' ''user'' ?w1 = (Inr 2, ?w2)"
    by (rule prod_eqI) (simp, code_simp, simp)
  from sy_user [OF this, of C pass url_ok "[TEnsure 1]"]
  have 2: "reachable C pass url_ok (?w2, [TEnsure 2, TEnsure 1])" using 1 by (auto intro: reachable.step)
  have "ensure_for_user 2 ?w2 = (fst (ensure_for_user 2 ?w2), run1)"
    by (simp add: run1_def)
  from sy_ensure [OF this, of C pass url_ok "[]" "[TEnsure 1]"]
  show ?thesis using 2 by (auto intro: reachable.step)
qed

lemma step_snd:
  assumes "reachable C pass url_ok (w, ts)"
  shows "reachable C pass url_ok (snd (vendor_create i nm sl w), ts)"
    and "reachable C pass url_ok (snd (catalog_create it w), ts)"
    and "reachable C pass url_ok (snd (panel_create C pass rp w), ts)"
    and "t \<noteq> ''order_debit'' \<Longrightarrow> reachable C pass url_ok (snd (apply_transaction u a t w), ts)"
proof -
  note st = reachable.step [OF assms]
  show "reachable C pass url_ok (snd (vendor_create i nm sl w), ts)"
    by (rule st) (rule sy_vendor, rule prod.collapse [symmetric])
  show "reachable C pass url_ok (snd (catalog_create it w), ts)"
    by (rule st) (rule sy_item, rule prod.collapse [symmetric])
  show "reachable C pass url_ok (snd (panel_create C pass rp w), ts)"
    by (rule st) (rule sy_panel, rule prod.collapse [symmetric])
  show "reachable C pass url_ok (snd (apply_transaction u a t w), ts)" if "t \<noteq> ''order_debit''"
    by (rule st) (rule sy_topup, rule prod.collapse [symmetric], rule that)
qed

lemma run_reaches2: "reachable toy_crypto ''key'' url_ok (run2, [TEnsure 1])"
  unfolding run2_def by (intro step_snd run_reaches1) simp

lemma run_reaches3: "reachable toy_crypto ''key'' url_ok (run3, [TEnsure 1])"
proof -
  let ?w = "snd (create_start demo_req run2)"
  have "create_start demo_req run2 = (Inr (Inr run_price), ?w)"
    by (rule prod_eqI) (simp, code_simp, simp)
  from sy_create [OF this, of toy_crypto "''key''" url_ok "[TEnsure 1]"]
  have 1: "reachable toy_crypto ''key'' url_ok (?w, [TCommit demo_req run_price, TEnsure 1])"
    by (rule reachable.step [OF run_reaches2])
  have "create_commit demo_req run_price ?w = (fst (create_commit demo_req run_price ?w), run3)"
    by (simp add: run3_def)
  from sy_commit [OF this, of toy_crypto "''key''" url_ok "[]" "[TEnsure 1]"]
  show ?thesis using 1 by (auto intro: reachable.step)
qed

text \<open>What the order has left in the tables.\<close>

lemma run3_placed:
  "w_db run3 = placed (hd (wallets (w_db run2))) 1 2 1 200 ''k'' (w_seq run2) (w_now run2) (w_db run2) \<and>
   w_faults run3 = []"
proof -
  let ?w = "snd (create_start demo_req run2)" and ?q = "hd (wallets (w_db run2))"
  have f: "w_faults ?w = []" by code_simp
  have w: "w_db ?w = w_db run2" "w_seq ?w = w_seq run2" "w_now ?w = w_now run2"
    using create_start_quiet [of demo_req] by (simp_all add: via_def quiet_rel_def)
  have d: "distinct (map wa_id (wallets (w_db run2)))"
    "can_place ?q 1 2 1 200 ''k'' (w_db run2)" by code_simp+
  have r: "R_VendorID demo_req = 1" "R_UserID demo_req = 2" "R_CatalogID demo_req = 1"
    "R_IdempotencyKey demo_req = ''k''" "CP_Price run_price = 200"
    by (simp_all add: demo_req_def run_price_def price_of_row_def demo_item_def)
  from create_commit_complete [OF f, of ?q demo_req run_price] d obtain w1 resp where
    c: "create_commit demo_req run_price ?w = (Inr resp, w1)" "w_faults w1 = []"
    by (auto simp: w r)
  from create_commit_outcomes [OF c(1)] obtain q where
    "can_place q 1 2 1 200 ''k'' (w_db run2)"
    "w_db w1 = placed q 1 2 1 200 ''k'' (w_seq run2) (w_now run2) (w_db run2)"
    by (auto simp: order_effect_def w r)
  moreover from this(1) d(2) have "q = ?q" by (simp add: can_place_def)
  ultimately show ?thesis using c by (simp add: run3_def)
qed

lemmas run3_db = run3_placed [THEN conjunct1]
lemmas run3_faults = run3_placed [THEN conjunct2]

text \<open>The worker's part of the run.\<close>

definition run4 :: world where
  "run4 = snd (jobs_claim_next run3)"

lemma run_reaches4: "reachable toy_crypto ''key'' url_ok (run4, [TJob 1 1 1, TEnsure 1])"
proof -
  have "map_sum id fst (sql_claim n (w_db run3)) = Inr (1, 1, 1)" for n
    unfolding run3_db by code_simp
  from this [of "w_now run3"] have "fst (jobs_claim_next run3) = Inr (1, 1, 1)"
    by (auto simp: jobs_claim_next_def nofault_exec_returning [OF run3_faults] map_sum_Inr_iff
        split: sum.split)
  then have "jobs_claim_next run3 = (Inr (1, 1, 1), run4)"
    by (simp add: run4_def prod_eq_iff)
  from sy_claim [OF this, of toy_crypto "''key''" url_ok "[TEnsure 1]"]
  show ?thesis using reachable.step [OF run_reaches3] by simp
qed

section \<open>Money\<close>

text \<open>
  C9. The books balance. In every reachable state the balance of every wallet is the sum,
  in 64 bits, of its ledger entries.
\<close>

theorem reachable_books_balance:
  assumes "reachable C pass url_ok (w, ts)"
  shows "list_all (\<lambda>r. wa_balance r = wrap64 (ledger_sum (w_db w) (wa_id r))) (wallets (w_db w))"
  using reachable_store [OF assms] by (simp add: store_inv_def ledger_inv_def list_all_iff)

theorem reachable_books_balance_witness:
  "list_all (\<lambda>r. wa_balance r = wrap64 (ledger_sum (w_db run3) (wa_id r))) (wallets (w_db run3)) \<and>
   map wa_balance (wallets (w_db run3)) = [300]"
proof
  show "map wa_balance (wallets (w_db run3)) = [300]" unfolding run3_db by code_simp
qed (rule reachable_books_balance [OF run_reaches3])

text \<open>
  C10. Exactly once. In every reachable state orders, idempotency keys, provisioning jobs
  and the debits of the ledger correspond one to one, in the order of their creation:
  each order has its own key, one job, and one debit of its amount, and no key of a user
  at a vendor occurs twice.
\<close>

theorem reachable_exactly_once:
  assumes "reachable C pass url_ok (w, ts)"
  shows "map key_view (idem_keys (w_db w)) = map order_key (orders (w_db w)) \<and>
    map (\<lambda>j. (j_vendor_id j, j_order_id j)) (jobs (w_db w)) =
      map (\<lambda>r. (o_vendor_id r, o_id r)) (orders (w_db w)) \<and>
    order_debits (w_db w) = map (\<lambda>r. (o_user_id r, wrap64 (- o_amount r))) (orders (w_db w)) \<and>
    distinct (map o_id (orders (w_db w))) \<and>
    distinct (map (\<lambda>k. (k_vendor_id k, k_user_id k, k_key k)) (idem_keys (w_db w)))"
  using reachable_store [OF assms] by (auto simp: store_inv_def shop_inv_def dest: ids_ok_distinct)

theorem reachable_exactly_once_witness:
  "order_debits (w_db run3) = map (\<lambda>r. (o_user_id r, wrap64 (- o_amount r))) (orders (w_db run3)) \<and>
   order_debits (w_db run3) = [(2, - 200)]"
proof
  show "order_debits (w_db run3) = [(2, - 200)]" unfolding run3_db by code_simp
qed (use reachable_exactly_once [OF run_reaches3] in blast)

text \<open>
  C11. No order is mispriced. In every reachable state each order costs what the catalogue
  item it names costs, and that item belongs to the vendor of the order.
\<close>

theorem reachable_prices:
  assumes "reachable C pass url_ok (w, ts)"
  shows "list_all (\<lambda>r. list_ex (\<lambda>c. c_id c = o_catalog_id r \<and> c_vendor_id c = o_vendor_id r \<and>
      o_amount r = c_price_toman c) (catalog_items (w_db w))) (orders (w_db w))"
  using reachable_store [OF assms] by (auto simp: store_inv_def charged_inv_def list_all_iff list_ex_iff)

theorem reachable_prices_witness:
  "list_all (\<lambda>r. list_ex (\<lambda>c. c_id c = o_catalog_id r \<and> c_vendor_id c = o_vendor_id r \<and>
      o_amount r = c_price_toman c) (catalog_items (w_db run3))) (orders (w_db run3))"
  by (rule reachable_prices [OF run_reaches3])

section \<open>Accounts\<close>

text \<open>
  C12. Accounts are sound. In every reachable state no two users share an email, no two
  vendors a slug, every wallet belongs to a user, and no user has two wallets (although
  the unique constraint of the table does not rule that out).
\<close>

theorem reachable_accounts:
  assumes "reachable C pass url_ok (w, ts)"
  shows "distinct (map u_email (users (w_db w))) \<and> distinct (map v_slug (vendors (w_db w))) \<and>
    distinct (map wa_user_id (wallets (w_db w))) \<and>
    set (map wa_user_id (wallets (w_db w))) \<subseteq> set (map u_id (users (w_db w)))"
  using reachable_store [OF assms]
  unfolding store_inv_def accounts_inv_def one_wallet_def by blast

theorem reachable_accounts_witness:
  "distinct (map u_email (users (w_db run3))) \<and> distinct (map wa_user_id (wallets (w_db run3)))"
  using reachable_accounts [OF run_reaches3] by blast

section \<open>Orders and jobs\<close>

text \<open>
  C13. What becomes of an order. In every reachable state every order is approved and, for
  ever, pending: nothing moves its lifecycle on, only its service is linked. A linked
  service exists and is that user's service of that order at that vendor.
\<close>

theorem reachable_orders:
  assumes "reachable C pass url_ok (w, ts)"
  shows "list_all (\<lambda>r. o_status r = ''approved'' \<and> o_lifecycle_state r = ''pending'' \<and>
      (case o_service_id r of None \<Rightarrow> True
       | Some i \<Rightarrow> list_ex (\<lambda>p. p_id p = i \<and> service_of r p) (proxies (w_db w)))) (orders (w_db w))"
  using reachable_store [OF assms]
  by (auto simp: store_inv_def orders_inv_def list_all_iff list_ex_iff split: option.splits)

theorem reachable_orders_witness:
  "list_all (\<lambda>r. o_status r = ''approved'' \<and> o_lifecycle_state r = ''pending'' \<and>
      (case o_service_id r of None \<Rightarrow> True
       | Some i \<Rightarrow> list_ex (\<lambda>p. p_id p = i \<and> service_of r p) (proxies (w_db run3)))) (orders (w_db run3))"
  by (rule reachable_orders [OF run_reaches3])

text \<open>
  C14. What becomes of a job. In every reachable state a job is pending, provisioning or
  done and has never failed, or it failed exactly once and stays failed: the limit of five
  retries is never reached and no job is ever a dead letter. A job that is done has a
  service of its order.
\<close>

theorem reachable_jobs:
  assumes "reachable C pass url_ok (w, ts)"
  shows "list_all (\<lambda>j. \<not> j_dead_letter j \<and>
      (j_status j \<in> {''pending'', ''provisioning'', ''done''} \<and> j_retries j = 0 \<or>
       j_status j = ''failed'' \<and> j_retries j = 1) \<and>
      (if j_status j = ''done''
       then list_ex (\<lambda>p. p_order_id p = Some (j_order_id j)) (proxies (w_db w)) else True))
    (jobs (w_db w))"
  using reachable_store [OF assms]
  by (auto simp: store_inv_def jobs_inv_def job_ok_def list_all_iff list_ex_iff)

theorem reachable_jobs_witness:
  "list_all (\<lambda>j. \<not> j_dead_letter j) (jobs (w_db run4)) \<and>
   map j_status (jobs (w_db run4)) = [''provisioning'']"
proof
  show "list_all (\<lambda>j. \<not> j_dead_letter j) (jobs (w_db run4))"
    using reachable_jobs [OF run_reaches4] by (auto simp: list_all_iff)
  have "case sql_claim n (w_db run3) of Inl _ \<Rightarrow> False
      | Inr (_, d) \<Rightarrow> map j_status (jobs d) = [''provisioning'']" for n
    unfolding run3_db by code_simp
  from this [of "w_now run3"] show "map j_status (jobs (w_db run4)) = [''provisioning'']"
    by (auto simp: run4_def jobs_claim_next_def nofault_exec_returning [OF run3_faults]
        split: sum.splits prod.splits)
qed

text \<open>
  C15. No job is worked on twice at a time. In every reachable state the tasks in flight
  hold different jobs, and each job so held is in the table and marked as being
  provisioned.
\<close>

theorem reachable_exclusive:
  assumes "reachable C pass url_ok (w, ts)"
  shows "distinct (task_keys ts) \<and>
    list_all (\<lambda>k. case k of Inl _ \<Rightarrow> True | Inr j \<Rightarrow>
      list_ex (\<lambda>x. j_id x = j \<and> j_status x = ''provisioning'') (jobs (w_db w))) (task_keys ts)"
proof -
  have held: "list_ex (\<lambda>x. j_id x = j \<and> j_status x = ''provisioning'') (jobs (w_db w))"
    if "Inr j \<in> set (task_keys ts)" for j
  proof -
    from that obtain t where t: "t \<in> set ts" "Inr j \<in> set (task_key t)"
      by (auto simp: task_keys_def)
    from sys_okD(2) [OF reachable_ok [OF assms] t(1)] t(2) have "\<exists>i. job_held (w_db w) j i"
      by (cases "(w_db w, t)" rule: task_ok.cases) auto
    then show ?thesis by (auto simp: job_held_def list_ex_iff)
  qed
  then show ?thesis
    using reachable_ok [OF assms] by (auto simp: sys_ok_def list_all_iff split: sum.split)
qed

theorem reachable_exclusive_witness:
  "task_keys [TJob 1 1 1, TEnsure 1] = [Inr 1, Inl 1] \<and>
   list_ex (\<lambda>x. j_id x = 1 \<and> j_status x = ''provisioning'') (jobs (w_db run4))"
  using reachable_exclusive [OF run_reaches4] by simp

text \<open>
  C16. No order without a \<open>service_catalog\<close> row. An order's catalogue number refers to the
  table \<open>service_catalog\<close>, which nothing in the program writes; while it is empty there is
  no order, no key, no job and no debit, whatever the catalogue offers.
\<close>

theorem reachable_no_orders:
  assumes "reachable C pass url_ok (w, ts)" and "service_catalog (w_db w) = []"
  shows "orders (w_db w) = [] \<and> idem_keys (w_db w) = [] \<and> jobs (w_db w) = [] \<and>
    order_debits (w_db w) = []"
proof -
  have s: "store_inv C pass (w_seq w) (w_db w)" using assms(1) by (rule reachable_store)
  then have "orders (w_db w) = []"
    using assms(2) by (cases "orders (w_db w)") (auto simp: store_inv_def orders_inv_def)
  with s show ?thesis by (auto simp: store_inv_def shop_inv_def)
qed

theorem reachable_no_orders_witness:
  "orders (w_db (run0\<lparr>w_db := empty_db\<rparr>)) = []"
proof -
  have "reachable toy_crypto ''key'' (\<lambda>_. True) (run0\<lparr>w_db := empty_db\<rparr>, [])"
    by (rule reachable.start [where sc = "[]"]) (simp_all add: run0_def empty_db_def)
  then show ?thesis by (rule reachable_no_orders [THEN conjunct1]) (simp add: empty_db_def)
qed

section \<open>Panels\<close>

text \<open>
  C17. Panels stay readable. With an AEAD that opens what it sealed, in every reachable
  state every stored token decrypts under the server's passphrase, so that listing a
  vendor's panels fails only if the query does, and lists every one of them.
\<close>

theorem reachable_panels:
  assumes "aead_ok C" and "reachable C pass url_ok (w, ts)" and "next_fault w = FOk"
  shows "\<exists>ps. panel_list_by_vendor C pass v w = (Inr ps, pop w) \<and>
     map XP_ID ps = map x_id (order_by x_id (filter (live_panel v) (panels (w_db w))))"
  using assms(1) _ assms(3)
  by (rule panel_list_total)
     (use reachable_store [OF assms(2)] in \<open>simp add: holds_def store_inv_def\<close>)

theorem reachable_panels_witness:
  "\<exists>ps. panel_list_by_vendor toy_crypto ''key'' 1 run2 = (Inr ps, pop run2) \<and> map XP_ID ps = [1]"
proof -
  have n: "next_fault run2 = FOk" by code_simp
  have "map x_id (order_by x_id (filter (live_panel 1) (panels (w_db run2)))) = [1]" by code_simp
  with reachable_panels [OF toy_aead run_reaches2 n, of 1] show ?thesis by simp
qed

section \<open>A paid order is served\<close>

text \<open>
  A paid order is served. In every reachable state in which a job waits: if its vendor
  has an active panel with a valid address, if one of the panel's next three replies is good,
  with a UUID that no live service has and a time the tables can hold, and if the database
  answers, then one tick of the worker takes the oldest waiting job, stores an active service
  for its order with the UUID and expiry of the first good reply and what the catalogue item
  promises, links the order to it, marks the job done, changes nothing else in the tables,
  and notifies the clients.
\<close>

theorem tick_serves_order:
  assumes "reachable C pass url_ok (w, ts)" and "aead_ok C" and "w_faults w = []"
    and "order_by j_id (filter claimable (jobs (w_db w))) = j # js"
    and "select_first (\<lambda>r. live_panel (j_vendor_id j) r \<and> x_is_active r) (order_by x_id (panels (w_db w))) = Inr x"
    and "url_ok (x_url x @ ''/api/clients'')"
    and "find good_reply (take 3 (w_replies w)) = Some (Reply st b)"
    and "decode_struct create_resp (decode_first b) = Some (u, t)"
    and "\<forall>q\<in>set (proxies (w_db w)). p_deleted_at q = None \<longrightarrow> p_uuid q \<noteq> u"
    and "fits_ts (t * 1000000)"
  shows "\<exists>w' ord c. worker_tick C pass (multi_provision url_ok) w = (Inr (), w') \<and>
     ord \<in> set (orders (w_db w)) \<and> o_id ord = j_order_id j \<and> o_vendor_id ord = j_vendor_id j \<and>
     c \<in> set (catalog_items (w_db w)) \<and> c_id c = o_catalog_id ord \<and>
     w_db w' = served_db j (x_vendor_id x) (x_url x) ord c u t (w_seq w TProxies + 1) (w_now w) (w_db w) \<and>
     w_hub w' = notify ''service.provisioned''
       [(''order_id'', JInt (o_id ord)), (''service_id'', JInt (w_seq w TProxies + 1))] (w_hub w)"
  using tick_serves_stored [OF reachable_store [OF assms(1)] assms(2-5) _ assms(7-10), where url_ok = url_ok]
    assms(6) by blast

text \<open>The order of the run, served at the first reply.\<close>

definition run5 :: world where
  "run5 = run3\<lparr>w_replies := [demo_reply]\<rparr>"

theorem tick_serves_order_witness:
  "map p_uuid (proxies (w_db (snd (worker_tick toy_crypto ''key'' (multi_provision (\<lambda>_. True)) run5)))) =
     [''uuid-1''] \<and>
   map j_status (jobs (w_db (snd (worker_tick toy_crypto ''key'' (multi_provision (\<lambda>_. True)) run5)))) =
     [''done'']"
proof -
  have r: "reachable toy_crypto ''key'' (\<lambda>_. True) (run5, [TEnsure 1])"
    using reachable.step [OF run_reaches3 sy_env, of run5] by (simp add: run5_def)
  let ?j = "hd (jobs (w_db run3))" and ?x = "hd (panels (w_db run3))"
  have d: "w_db run5 = w_db run3" and rs: "w_replies run5 = [demo_reply]" and f: "w_faults run5 = []"
    by (simp_all add: run5_def run3_faults)
  have j: "order_by j_id (filter claimable (jobs (w_db run5))) = ?j # []" unfolding d run3_db by code_simp
  have x: "select_first (\<lambda>r. live_panel (j_vendor_id ?j) r \<and> x_is_active r) (order_by x_id (panels (w_db run5))) = Inr ?x"
    unfolding d run3_db by code_simp
  have b: "decode_struct create_resp
      (decode_first ''{\"id\": 5, \"expires_at\": 2592001, \"uuid\": \"uuid-1\"}'') = Some (''uuid-1'', 2592001)"
    by code_simp
  then have g: "find good_reply (take 3 (w_replies run5)) =
      Some (Reply 200 ''{\"id\": 5, \"expires_at\": 2592001, \"uuid\": \"uuid-1\"}'')"
    by (simp add: rs demo_reply_def good_reply_def)
  have q: "proxies (w_db run5) = []" "map j_id (jobs (w_db run5)) = [1]" "j_id ?j = 1"
    unfolding d run3_db by code_simp+
  have "fits_ts (2592001 * 1000000)" by (simp add: fits_ts_def)
  from tick_serves_order [OF r toy_aead f j x _ g b _ this] q(1) obtain w' ord c where
    "worker_tick toy_crypto ''key'' (multi_provision (\<lambda>_. True)) run5 = (Inr (), w')"
    "w_db w' = served_db ?j (x_vendor_id ?x) (x_url ?x) ord c ''uuid-1'' 2592001
       (w_seq run5 TProxies + 1) (w_now run5) (w_db run5)" by auto
  moreover obtain k where "jobs (w_db run5) = [k]" "j_id k = 1"
    using q(2) by (cases "jobs (w_db run5)") auto
  ultimately show ?thesis using q(1,3) by (simp add: served_db_def update_where_def)
qed

text \<open>
  C5. The backlog drains, in order. In every reachable state: if the vendor of every waiting
  job has an active panel with a valid address, if the panels bring, job by job, a client
  within three replies, with UUIDs that are new and times the tables can hold, and if the
  database answers, then as many rounds of the worker's loop as jobs wait leave none
  waiting. The jobs are served in the order in which they were enqueued: the services stored
  are exactly one for each, in that order, active, with the vendor of the job, the UUID
  and expiry the panel brought, and for the user of the order what its catalogue item
  promises; each order is linked to its own service; and no other row of any table changes.
\<close>

theorem backlog_drains:
  assumes "reachable C pass url_ok (w, ts)" and "aead_ok C" and "w_faults w = []"
    and "panels_ready url_ok (w_db w)"
    and "w_replies w = concat rss @ rest" and "list_all2 answers_job rss uts"
    and "length uts = length (backlog (w_db w))"
    and "distinct (map fst uts)" and "\<forall>(u, t)\<in>set uts. fits_ts (t * 1000000)"
    and "\<forall>q\<in>set (proxies (w_db w)). p_deleted_at q = None \<longrightarrow> p_uuid q \<notin> fst ` set uts"
  shows "\<exists>w' new.
     worker_loop C pass (multi_provision url_ok) (length (backlog (w_db w))) w = (Inr (), w') \<and>
     backlog (w_db w') = [] \<and>
     w_db w' = drained (w_seq w TProxies) (w_now w) (backlog (w_db w)) new (w_db w) \<and>
     map service_view new = service_views (w_seq w TProxies) (backlog (w_db w)) uts \<and>
     list_all (as_ordered (w_db w)) new"
  using worker_loop_drains [OF assms(1-3) refl assms(4-10)] by (auto simp: backlog_drained)

text \<open>The order of the run, served at the second reply.\<close>

definition run6 :: world where
  "run6 = run3\<lparr>w_replies := [NoReply, demo_reply]\<rparr>"

theorem backlog_drains_witness:
  "length (backlog (w_db run6)) = 1 \<and>
   (\<exists>w'. worker_loop toy_crypto ''key'' (multi_provision (\<lambda>_. True)) 1 run6 = (Inr (), w') \<and>
      backlog (w_db w') = [] \<and> map p_uuid (proxies (w_db w')) = [''uuid-1''])"
proof -
  have r: "reachable toy_crypto ''key'' (\<lambda>_. True) (run6, [TEnsure 1])"
    using reachable.step [OF run_reaches3 sy_env, of run6] by (simp add: run6_def)
  have d: "w_db run6 = w_db run3" and rs: "w_replies run6 = concat [[NoReply, demo_reply]] @ []"
    and f: "w_faults run6 = []"
    by (simp_all add: run6_def run3_faults)
  have l: "length (backlog (w_db run6)) = 1" unfolding d run3_db by code_simp
  have p: "panels_ready (\<lambda>_. True) (w_db run6)" unfolding d run3_db by code_simp
  have a: "list_all2 answers_job [[NoReply, demo_reply]] [(''uuid-1'', 2592001)]" by code_simp
  have q: "proxies (w_db run6) = []" unfolding d run3_db by code_simp
  have "fits_ts (2592001 * 1000000)" by (simp add: fits_ts_def)
  with backlog_drains [OF r toy_aead f p rs a] l q obtain w' new where
    "worker_loop toy_crypto ''key'' (multi_provision (\<lambda>_. True)) 1 run6 = (Inr (), w')"
    "backlog (w_db w') = []" and
    w': "w_db w' = drained (w_seq run6 TProxies) (w_now run6) (backlog (w_db run6)) new (w_db run6)" and
    new: "map service_view new = service_views (w_seq run6 TProxies) (backlog (w_db run6)) [(''uuid-1'', 2592001)]"
    by auto
  moreover obtain j where "backlog (w_db run6) = [j]" using l by (cases "backlog (w_db run6)") auto
  then have "map p_uuid new = [''uuid-1'']"
    using new by (auto simp: service_views_Cons service_view_def) (auto simp: service_views_def)
  ultimately show ?thesis using l q by (auto simp: drained_def)
qed

text \<open>
  C4. An order is delivered. In every reachable state in which an order meets the conditions of
  \<open>Create\<close>, the panels answer as above for what waits and for this order, and the database
  answers: the order is accepted, and once the worker's loop has run as many rounds as jobs
  wait, the list of the user's services under the vendor has an active service for that very
  order, with the UUID and expiry the panel brought and with protocol, traffic and days of
  the item that was ordered; no job waits any more; and the user, and nobody else, has paid,
  exactly the price of the item.
\<close>

theorem order_is_delivered:
  assumes "reachable C pass url_ok (w, ts)" and "aead_ok C" and "w_faults w = []"
    and "R_IdempotencyKey req \<noteq> []"
    and "select_first (live_item (R_VendorID req) (R_CatalogID req)) (catalog_items (w_db w)) = Inr item"
    and "c_is_active item"
    and "can_place r (R_VendorID req) (R_UserID req) (R_CatalogID req) (c_price_toman item)
        (R_IdempotencyKey req) (w_db w)"
    and "panels_ready url_ok (w_db w)" and "panel_ready url_ok (w_db w) (R_VendorID req)"
    and "w_replies w = concat rss @ rest" and "list_all2 answers_job rss (uts @ [(u, t)])"
    and "length uts = length (backlog (w_db w))" and "distinct (map fst (uts @ [(u, t)]))"
    and "\<forall>(u, t)\<in>set (uts @ [(u, t)]). fits_ts (t * 1000000)"
    and "\<forall>q\<in>set (proxies (w_db w)). p_deleted_at q = None \<longrightarrow> p_uuid q \<notin> fst ` set (uts @ [(u, t)])"
  shows "\<exists>w1 w2 svcs svc.
     order_create req w = (Inr (approved_response (w_seq w TOrders + 1)), w1) \<and>
     worker_loop C pass (multi_provision url_ok) (length uts + 1) w1 = (Inr (), w2) \<and>
     backlog (w_db w2) = [] \<and>
     wallet_view (w_db w2) = (wallet_view (w_db w))(R_UserID req \<mapsto> wa_balance r - c_price_toman item) \<and>
     proxy_list_by_user (R_VendorID req) (R_UserID req) w2 = (Inr svcs, w2) \<and> svc \<in> set svcs \<and>
     PS_OrderID svc = Some (w_seq w TOrders + 1) \<and> PS_Status svc = ''active'' \<and> PS_UUID svc = u \<and>
     PS_ExpiresAt svc = Some (go_time (t * 1000000)) \<and> PS_Protocol svc = c_protocol item \<and>
     PS_TrafficLimitGB svc = c_traffic_limit_gb item \<and> PS_DurationDays svc = c_duration_days item"
  using assms by (rule order_delivered)

text \<open>The order of the run, from the shop before it.\<close>

definition run7 :: world where
  "run7 = run2\<lparr>w_replies := [NoReply, demo_reply]\<rparr>"

theorem order_is_delivered_witness:
  "fst (order_create demo_req run7) = Inr (approved_response 1) \<and>
   (\<exists>w2 svcs svc. worker_loop toy_crypto ''key'' (multi_provision (\<lambda>_. True)) 1
        (snd (order_create demo_req run7)) = (Inr (), w2) \<and>
      proxy_list_by_user 1 2 w2 = (Inr svcs, w2) \<and> svc \<in> set svcs \<and> PS_OrderID svc = Some 1 \<and>
      PS_UUID svc = ''uuid-1'' \<and> PS_Status svc = ''active'' \<and> wallet_view (w_db w2) 2 = Some 300)"
proof -
  let ?q = "hd (wallets (w_db run2))"
  have r: "reachable toy_crypto ''key'' (\<lambda>_. True) (run7, [TEnsure 1])"
    using reachable.step [OF run_reaches2 sy_env, of run7] by (simp add: run7_def)
  have d: "w_db run7 = w_db run2" "w_seq run7 = w_seq run2" and f: "w_faults run7 = []"
    and rs: "w_replies run7 = concat [[NoReply, demo_reply]] @ []"
    by (simp_all add: run7_def) code_simp
  have k: "R_IdempotencyKey demo_req \<noteq> []" and act: "c_is_active demo_item" by code_simp+
  have item: "select_first (live_item (R_VendorID demo_req) (R_CatalogID demo_req)) (catalog_items (w_db run7)) =
      Inr demo_item" unfolding d by code_simp
  have p: "can_place ?q (R_VendorID demo_req) (R_UserID demo_req) (R_CatalogID demo_req)
      (c_price_toman demo_item) (R_IdempotencyKey demo_req) (w_db run7)" unfolding d by code_simp
  have b: "backlog (w_db run7) = []" unfolding d by code_simp
  have ready: "panels_ready (\<lambda>_. True) (w_db run7)" "panel_ready (\<lambda>_. True) (w_db run7) (R_VendorID demo_req)"
    unfolding d by code_simp+
  have a: "list_all2 answers_job [[NoReply, demo_reply]] ([] @ [(''uuid-1'', 2592001)])" by code_simp
  have q: "proxies (w_db run7) = []" "w_seq run7 TOrders = 0" "wa_balance ?q - c_price_toman demo_item = 300"
    unfolding d by code_simp+
  have id: "R_VendorID demo_req = 1" "R_UserID demo_req = 2" by code_simp+
  have "fits_ts (2592001 * 1000000)" by (simp add: fits_ts_def)
  with order_is_delivered [OF r toy_aead f k item act p ready rs a] b q id show ?thesis by force
qed

section \<open>Whole operations are runs of steps\<close>

text \<open>
  The steps are those of the operations. \<open>Create\<close>, \<open>Register\<close> and a tick of the
  worker, run on their own, are runs of the steps of the system from where they start to
  where they end; after a panic in a tick nothing else is left running. So whatever holds
  in all reachable states holds before and after each of them.
\<close>

theorem operations_refine_steps:
  "sys_run C pass url_ok (w, ts) (snd (order_create req w), ts) \<and>
   sys_run C pass url_ok (w, ts) (snd (auth_register C' salt email password w), ts) \<and>
   sys_run C pass url_ok (w, ts)
     (case worker_tick C pass (multi_provision url_ok) w of
        (Inl _, w') \<Rightarrow> (w', []) | (Inr _, w') \<Rightarrow> (w', ts))"
proof (intro conjI create_runs register_runs)
  obtain r w' where t: "worker_tick C pass (multi_provision url_ok) w = (r, w')" by fastforce
  from tick_runs [OF t, of ts] show "sys_run C pass url_ok (w, ts)
     (case worker_tick C pass (multi_provision url_ok) w of
        (Inl _, w') \<Rightarrow> (w', []) | (Inr _, w') \<Rightarrow> (w', ts))"
    by (simp add: t split: sum.splits)
qed

end
