(* ===== verification/ServiceProps.thy ===== *)
theory ServiceProps
  imports Demo
begin

text \<open>The properties of the worker, the panel client and the proxy services.\<close>

section \<open>Jobs\<close>

text \<open>
  C19. A job is all or nothing. If \<open>handleJob\<close> succeeds, one service, made of the order,
  an active panel of its vendor and its catalogue item, is stored under a UUID no live
  service has, and the order is linked to it. If it fails, no notification is sent and no
  table has changed, unless the answer to the commit was lost.
\<close>

theorem job_all_or_nothing:
  "case handle_job C pass (multi_provision url_ok) jobID orderID vendorID w of
     (Inr _, w') \<Rightarrow> job_effect C pass orderID vendorID w w'
   | (Inl e, w') \<Rightarrow> w_hub w' = w_hub w \<and>
       (w_db w' = w_db w \<or> e = ErrDriver \<and> job_effect C pass orderID vendorID w w')"
  using multi.handle_job_outcomes [of C pass url_ok jobID orderID vendorID w
      "fst (handle_job C pass (multi_provision url_ok) jobID orderID vendorID w)"
      "snd (handle_job C pass (multi_provision url_ok) jobID orderID vendorID w)"]
  by (auto split: prod.splits sum.splits)

lemma sql_claim_order:
  assumes "sql_claim n d = Inr ((i, oi, v), d')"
  shows "list_ex (\<lambda>j. claimable j \<and> j_id j = i \<and> j_order_id j = oi \<and> j_vendor_id j = v) (jobs d) \<and>
    list_all (\<lambda>k. i \<le> j_id k) (filter claimable (jobs d)) \<and>
    d' = d\<lparr>jobs := update_where (\<lambda>x. j_id x = i)
       (\<lambda>x. x\<lparr>j_status := ''provisioning'', j_updated_at := n\<rparr>) (jobs d)\<rparr>"
proof -
  from assms obtain j js where o: "order_by j_id (filter claimable (jobs d)) = j # js" and
    d': "i = j_id j" "oi = j_order_id j" "v = j_vendor_id j"
    "d' = d\<lparr>jobs := update_where (\<lambda>x. j_id x = j_id j)
            (\<lambda>x. x\<lparr>j_status := ''provisioning'', j_updated_at := n\<rparr>) (jobs d)\<rparr>"
    by (auto simp: sql_claim_def split: list.splits)
  from order_by_ConsD [OF o] d' show ?thesis by (auto simp: list_all_iff list_ex_iff)
qed

text \<open>
  Jobs are claimed first in, first out. A claim that succeeds takes a claimable job
  with the least number of all claimable ones, hands out its order and vendor, and marks
  only that job; one that fails leaves all jobs as they are, unless its answer was lost.
\<close>

theorem claim_takes_oldest:
  "case jobs_claim_next w of
     (Inr (i, oi, v), w') \<Rightarrow>
       list_ex (\<lambda>j. claimable j \<and> j_id j = i \<and> j_order_id j = oi \<and> j_vendor_id j = v)
         (jobs (w_db w)) \<and>
       list_all (\<lambda>k. i \<le> j_id k) (filter claimable (jobs (w_db w))) \<and>
       w_db w' = (w_db w)\<lparr>jobs := update_where (\<lambda>x. j_id x = i)
         (\<lambda>x. x\<lparr>j_status := ''provisioning'', j_updated_at := w_now w\<rparr>) (jobs (w_db w))\<rparr>
   | (Inl e, w') \<Rightarrow> w_db w' = w_db w \<or> e = ErrDriver"
proof -
  obtain r w' where c: "jobs_claim_next w = (r, w')" by fastforce
  show ?thesis
  proof (cases r)
    case (Inl e)
    with c show ?thesis
      by (auto simp: jobs_claim_next_def exec_returning_def roundtrip_def
          split: fault.splits sum.splits prod.splits)
  next
    case (Inr x)
    obtain i oi v where x: "x = (i, oi, v)" by (cases x)
    have "sql_claim (w_now w) (w_db w) = Inr ((i, oi, v), w_db w')"
      using c unfolding Inr x
      by (auto simp: jobs_claim_next_def exec_returning_def roundtrip_def
          split: fault.splits sum.splits prod.splits)
    from sql_claim_order [OF this] show ?thesis by (simp add: c Inr x)
  qed
qed

section \<open>The panel client\<close>

text \<open>
  C20. Retries. \<open>Provision\<close> sends at most three requests, all alike, to the panel it was
  given, and it succeeds exactly when one of the panel's next three replies is good: a
  status below 300 with a body that decodes.
\<close>

theorem provision_retries:
  assumes "url_ok (X_URL p @ ''/api/clients'')"
  shows "(\<exists>out. fst (multi_provision url_ok p q w) = Inr out) = list_ex good_reply (take 3 (w_replies w)) \<and>
     (\<exists>k. k \<le> 3 \<and> w_sent (snd (multi_provision url_ok p q w)) =
        replicate k \<lparr>CQ_URL = X_URL p @ ''/api/clients'',
          CQ_Authorization = ''Bearer '' @ X_Token p, CQ_InboundID = X_InboundID p,
          CQ_Email = XQ_Email q, CQ_UUID = XQ_UUID q,
          CQ_ExpiryUnix = unix (w_nano w + duration_days (XQ_DurationDays q)),
          CQ_TrafficGB = XQ_TrafficGB q\<rparr> @ w_sent w)"
  unfolding multi_provision_def
  using provision_loop_Inr [where url_ok = url_ok and p = p, OF assms] provision_loop_sent [of url_ok p q _ 3 _ w]
  by (simp add: list_ex_iff prod_eq_iff)

definition demo_panel :: Panel where
  "demo_panel = \<lparr>X_VendorID = 1, X_Name = ''p'', X_URL = ''http://p'', X_Token = ''t'', X_InboundID = 7\<rparr>"

definition demo_prov :: ProvisionRequest where
  "demo_prov = \<lparr>XQ_VendorID = 1, XQ_UserID = 2, XQ_Email = ''user'', XQ_Protocol = ''vless'',
     XQ_UUID = ''u'', XQ_DurationDays = 30, XQ_TrafficGB = 100\<rparr>"

theorem provision_retries_witness:
  "(\<exists>out. fst (multi_provision (\<lambda>_. True) demo_panel demo_prov
      (demo_world [] [NoReply, Reply 500 [], demo_reply])) = Inr out) \<and>
   (\<nexists>out. fst (multi_provision (\<lambda>_. True) demo_panel demo_prov
      (demo_world [] [NoReply, Reply 500 [], Reply 200 ''<html>'', demo_reply])) = Inr out)"
proof -
  have "decode_struct create_resp (decode_first ''<html>'') = None" by code_simp
  moreover have "decode_struct create_resp (decode_first
      ''{\"id\": 5, \"expires_at\": 2592001, \"uuid\": \"uuid-1\"}'') \<noteq> None" by code_simp
  ultimately show ?thesis
    unfolding provision_retries [where url_ok = "\<lambda>_. True", OF TrueI, THEN conjunct1]
    by (auto simp: demo_world_def demo_reply_def good_reply_def numeral_3_eq_3)
qed

section \<open>The status of a service\<close>

text \<open>
  C21. The status machine. \<open>Suspend\<close>, \<open>Resume\<close> and the expiry job, whatever they report,
  only move the status of existing services along its transitions and change nothing else
  about them that identifies them: suspension from any other state, resumption of a
  suspended service, expiry of an active one.
\<close>

theorem status_refines_machine:
  assumes "holds proxy_inv w"
  shows "services_move (w_db w) (w_db (snd (service_suspend v i w))) \<and>
     services_move (w_db w) (w_db (snd (service_resume v i w))) \<and>
     services_move (w_db w) (w_db (snd (run_expiry_job w)))"
  using service_suspend_moves [OF assms] service_resume_moves [OF assms] run_expiry_job_moves
  by (metis prod.collapse)

theorem status_refines_machine_witness:
  "services_move (w_db (service_world ''active'' 7)) (w_db (snd (run_expiry_job (service_world ''active'' 7)))) \<and>
   map p_status (proxies (w_db (snd (run_expiry_job (service_world ''active'' 7))))) = [''expired'']"
proof
  show "map p_status (proxies (w_db (snd (run_expiry_job (service_world ''active'' 7))))) = [''expired'']"
    by code_simp
qed (use status_refines_machine [OF service_world_inv] in blast)

text \<open>
  C22. The expiry job expires what is past its time and nothing else. With every statement
  getting through it succeeds. Row by row, an active service that is not deleted and whose
  expiry lies before the present becomes expired, with only its status and time of change
  written; a service whose expiry is still to come, or has come this very moment, or that
  has none, that is not active, or that is deleted is left as it is; so is everything else in the
  world. Running it again changes nothing, and a run that is missed does no harm: a later
  one leaves every status as if the earlier one had taken place.
\<close>

theorem expiry_job_complete:
  assumes "w_faults w = []"
  shows "\<exists>w'. run_expiry_job w = (Inr (), w') \<and>
     w' = w\<lparr>w_db := (w_db w)\<lparr>proxies := proxies (w_db w')\<rparr>\<rparr> \<and>
     list_all2 (\<lambda>r q. case p_expires_at r of
         None \<Rightarrow> q = r
       | Some t \<Rightarrow>
           if w_now w \<le> t \<or> p_status r \<noteq> ''active'' \<or> p_deleted_at r \<noteq> None then q = r
           else q = r\<lparr>p_status := ''expired'', p_updated_at := w_now w\<rparr>)
       (proxies (w_db w)) (proxies (w_db w')) \<and>
     run_expiry_job w' = (Inr (), w') \<and>
     (\<forall>n. w_now w \<le> n \<longrightarrow>
        map p_status (proxies (w_db (snd (run_expiry_job (w'\<lparr>w_now := n\<rparr>))))) =
        map p_status (proxies (w_db (snd (run_expiry_job (w\<lparr>w_now := n\<rparr>))))))"
proof -
  let ?w' = "expired_at w"
  have f: "w_faults ?w' = []" using assms by (simp add: expired_at_def)
  have "list_all2 (\<lambda>r q. case p_expires_at r of
         None \<Rightarrow> q = r
       | Some t \<Rightarrow>
           if w_now w \<le> t \<or> p_status r \<noteq> ''active'' \<or> p_deleted_at r \<noteq> None then q = r
           else q = r\<lparr>p_status := ''expired'', p_updated_at := w_now w\<rparr>)
       (proxies (w_db w)) (proxies (w_db ?w'))"
    by (auto simp: expired_at_def update_where_def list_all2_map2 overdue_def
        intro!: list.rel_refl_strong split: option.splits)
  moreover have "run_expiry_job ?w' = (Inr (), ?w')"
    using run_expiry_job_at [OF f] expired_at_twice by simp
  moreover have "map p_status (proxies (w_db (snd (run_expiry_job (?w'\<lparr>w_now := n\<rparr>))))) =
      map p_status (proxies (w_db (snd (run_expiry_job (w\<lparr>w_now := n\<rparr>)))))" if "w_now w \<le> n" for n
    using that assms f by (simp add: run_expiry_job_at expired_at_later)
  ultimately show ?thesis
    using run_expiry_job_at [OF assms] by (intro exI [of _ ?w']) (simp add: expired_at_def)
qed

text \<open>A service past its time, one whose time is now, one that is suspended, one without an end.\<close>

definition expiry_world :: world where
  "expiry_world = (let w = service_world ''active'' 7; r = hd (proxies (w_db w)) in
     w\<lparr>w_db := (w_db w)\<lparr>proxies := [r, r\<lparr>p_expires_at := Some 1000000\<rparr>,
       r\<lparr>p_status := ''suspended''\<rparr>, r\<lparr>p_expires_at := None\<rparr>]\<rparr>\<rparr>)"

theorem expiry_job_complete_witness:
  "map p_status (proxies (w_db (snd (run_expiry_job expiry_world)))) =
     [''expired'', ''active'', ''suspended'', ''active'']"
proof -
  have f: "w_faults expiry_world = []" by code_simp
  have n: "w_now expiry_world = 1000000" by code_simp
  obtain r where r: "proxies (w_db expiry_world) = [r, r\<lparr>p_expires_at := Some 1000000\<rparr>,
       r\<lparr>p_status := ''suspended''\<rparr>, r\<lparr>p_expires_at := None\<rparr>]"
    and d: "p_expires_at r = Some 7" "p_status r = ''active''" "p_deleted_at r = None"
    by (simp add: expiry_world_def service_world_def Let_def)
  from expiry_job_complete [OF f] show ?thesis
    unfolding r n by (auto simp: d list_all2_Cons1)
qed

lemma select_service:
  assumes "holds proxy_inv w" and "r \<in> set (proxies (w_db w))" and "p_deleted_at r = None"
  shows "select_first (\<lambda>q. (p_id q = p_id r \<and> p_vendor_id q = p_vendor_id r) \<and> p_deleted_at q = None)
     (proxies (w_db w)) = Inr r"
proof (rule select_first_unique)
  have "distinct (map p_id (proxies (w_db w)))"
    using assms(1) by (auto simp: holds_def proxy_inv_def dest: ids_ok_distinct)
  then show "q = r" if "q \<in> set (proxies (w_db w))" "(p_id q = p_id r \<and> p_vendor_id q = p_vendor_id r) \<and> p_deleted_at q = None" for q
    using that assms(2) by (auto intro: distinct_map_eqD)
qed (use assms in auto)

text \<open>
  C23. Suspend and resume. With every statement getting through, a service that is not
  suspended is suspended, suspending it again is refused with nothing changed, and
  resuming it makes it active, whatever it was before: also an expired or failed service
  becomes active that way.
\<close>

theorem suspend_then_resume:
  assumes "w_faults w = []" and "holds proxy_inv w" and "r \<in> set (proxies (w_db w))"
    and "p_deleted_at r = None" and "p_status r \<noteq> ''suspended''"
  shows "\<exists>w1 w2. service_suspend (p_vendor_id r) (p_id r) w = (Inr (), w1) \<and>
     service_suspend (p_vendor_id r) (p_id r) w1 = (Inl (ErrNew ''service already suspended''), w1) \<and>
     service_resume (p_vendor_id r) (p_id r) w1 = (Inr (), w2) \<and>
     proxies (w_db w2) = update_where (\<lambda>q. p_id q = p_id r \<and> p_vendor_id q = p_vendor_id r)
       (\<lambda>q. q\<lparr>p_status := ''active'', p_updated_at := w_now w\<rparr>) (proxies (w_db w))"
proof -
  let ?v = "p_vendor_id r" and ?i = "p_id r"
  let ?q = "\<lambda>q. p_id q = ?i \<and> p_vendor_id q = ?v"
  let ?set = "\<lambda>st w. w\<lparr>w_db := (w_db w)\<lparr>proxies := update_where ?q
     (\<lambda>q. q\<lparr>p_status := st, p_updated_at := w_now w\<rparr>) (proxies (w_db w))\<rparr>\<rparr>"
  have upd: "proxy_update_status ?v ?i st u = (Inr (), ?set st u)" if "w_faults u = []" for st u
    using that by (simp add: proxy_update_status_def nofault_simps sql_proxy_status_def)
  have read: "proxy_by_id ?v ?i u = (Inr (record_of_row r'), u)"
    if "w_faults u = []" "select_first (\<lambda>q. ?q q \<and> p_deleted_at q = None) (proxies (w_db u)) = Inr r'" for u r'
    using that by (simp add: proxy_by_id_def select_proxy_def nofault_simps)
  have sel: "select_first (\<lambda>q. ?q q \<and> p_deleted_at q = None) (proxies (w_db w)) = Inr r"
    using assms(2-4) by (rule select_service)
  let ?w1 = "(?set ''suspended'' w)\<lparr>w_hub := notify ''service.suspended''
     [(''service_id'', JInt ?i), (''vendor_id'', JInt ?v)] (w_hub w)\<rparr>"
  let ?r1 = "r\<lparr>p_status := ''suspended'', p_updated_at := w_now w\<rparr>"
  have 1: "service_suspend ?v ?i w = (Inr (), ?w1)"
    using assms(5) by (simp add: service_suspend_def andThen_def onErr_def read [OF assms(1) sel]
        proxy_suspend_def upd [OF assms(1)] notifyAct_def record_of_row_def)
  have inv1: "holds proxy_inv ?w1"
    using proxy_inv_update [of "w_seq w" "w_db w" "\<lambda>q. q\<lparr>p_status := ''suspended'', p_updated_at := w_now w\<rparr>" ?q]
      assms(2) by (simp add: holds_def)
  have "?r1 \<in> set (proxies (w_db ?w1))"
    using assms(3) by (auto simp: set_update_where)
  from select_service [OF inv1 this] assms(4)
  have sel1: "select_first (\<lambda>q. ?q q \<and> p_deleted_at q = None) (proxies (w_db ?w1)) = Inr ?r1"
    by simp
  have f1: "w_faults ?w1 = []" using assms(1) by simp
  have st1: "(PS_Status (record_of_row ?r1) = ''suspended'') = True"
    by (simp add: record_of_row_def)
  have 2: "service_suspend ?v ?i ?w1 = (Inl (ErrNew ''service already suspended''), ?w1)"
    by (simp only: service_suspend_def andThen_def onErr_def read [OF f1 sel1] prod.case sum.case
        st1 if_True fail_def)
  let ?w2 = "(?set ''active'' ?w1)\<lparr>w_hub := notify ''service.resumed''
     [(''service_id'', JInt ?i), (''vendor_id'', JInt ?v)] (w_hub ?w1)\<rparr>"
  have 3: "service_resume ?v ?i ?w1 = (Inr (), ?w2)"
    by (simp only: service_resume_def andThen_def onErr_def read [OF f1 sel1] proxy_resume_def
        upd [OF f1] prod.case sum.case st1 notifyAct_def not_True_eq_False if_False) simp
  have "proxies (w_db ?w2) = update_where ?q
       (\<lambda>q. q\<lparr>p_status := ''active'', p_updated_at := w_now w\<rparr>) (proxies (w_db w))"
    by (simp add: update_where_def)
  with 1 2 3 show ?thesis by blast
qed

theorem suspend_then_resume_witness:
  "\<exists>w1 w2. service_suspend 1 1 (service_world ''expired'' 7) = (Inr (), w1) \<and>
     service_resume 1 1 w1 = (Inr (), w2) \<and> map p_status (proxies (w_db w2)) = [''active'']"
proof -
  let ?w = "service_world ''expired'' 7"
  let ?r = "hd (proxies (w_db ?w))"
  have f: "w_faults ?w = []" by code_simp
  have r: "?r \<in> set (proxies (w_db ?w))" "p_deleted_at ?r = None" "p_status ?r \<noteq> ''suspended''"
    "p_vendor_id ?r = 1" "p_id ?r = 1"
    by (simp_all add: service_world_def)
  from suspend_then_resume [OF f service_world_inv r(1-3), unfolded r(4,5)] obtain w1 w2 where
    w: "service_suspend 1 1 ?w = (Inr (), w1)" "service_resume 1 1 w1 = (Inr (), w2)"
      "proxies (w_db w2) = update_where (\<lambda>q. p_id q = 1 \<and> p_vendor_id q = 1)
       (\<lambda>q. q\<lparr>p_status := ''active'', p_updated_at := w_now ?w\<rparr>) (proxies (w_db ?w))"
    by blast
  have "map p_status (proxies (w_db w2)) = [''active'']"
    unfolding w(3) by (simp add: service_world_def update_where_def)
  then show ?thesis by (intro exI [of _ w1] exI [of _ w2] conjI w(1,2))
qed

section \<open>Provisioning by hand\<close>

text \<open>
  One service was added, for what was asked and on the panel \<open>x\<close>: the row in full, all but
  its two times of change.
\<close>

definition service_added :: "string \<Rightarrow> ServiceRequest \<Rightarrow> panel_row \<Rightarrow> string \<Rightarrow> int \<Rightarrow> world \<Rightarrow> world \<Rightarrow> bool" where
  "service_added st req x uuid ex w w' \<longleftrightarrow>
     (\<exists>r. w_db w' = (w_db w)\<lparr>proxies := proxies (w_db w) @ [r]\<rparr> \<and>
        p_id r = w_seq w TProxies + 1 \<and> p_vendor_id r = SQ_VendorID req \<and>
        p_user_id r = SQ_UserID req \<and> p_order_id r = SQ_OrderID req \<and> p_panel_id r = Some (x_id x) \<and>
        p_uuid r = uuid \<and> p_protocol r = SQ_Protocol req \<and>
        p_subscription_url r = x_url x @ ''/sub/'' @ uuid \<and> p_qr_payload r = x_url x @ ''/sub/'' @ uuid \<and>
        p_config_payload r = [] \<and> p_status r = st \<and> p_expires_at r = Some (ex div 1000) \<and>
        p_traffic_used_gb r = 0 \<and> p_traffic_limit_gb r = SQ_TrafficLimitGB req \<and>
        p_duration_days r = SQ_DurationDays req \<and> p_deleted_at r = None)"

lemma stored_added:
  assumes "panel_of_row C pass x = Inr panel" and "stored_as st (provision_record panel req uuid ex) w w'"
  shows "service_added st req x uuid ex w w'"
proof -
  have "XP_ID panel = x_id x" "XP_URL panel = x_url x"
    using assms(1) by (auto simp: panel_of_row_def map_sum_Inr_iff)
  with assms(2) show ?thesis
    by (auto simp: stored_as_def service_added_def provision_record_def build_subscription_url_def Let_def db_time_def)
qed

text \<open>
  C24. \<open>Provision\<close> reports success only for a service that is stored, for an active panel of
  the vendor, under the number, UUID, address and expiry it returns, and it is stored as
  active or still as being provisioned (the error of the last update is dropped). If it
  reports an error the tables are as before, or the service is stored, for such a panel, as
  failed or as being provisioned. Either way it is the one row that is new, and it holds the
  user, order, protocol, traffic and days that were asked for.
\<close>

theorem provision_outcome:
  assumes "holds proxy_inv w"
  shows "case proxy_provision C pass url_ok rnd req w of
       (Inr resp, w') \<Rightarrow> (\<exists>x panel. x \<in> set (panels (w_db w)) \<and> x_vendor_id x = SQ_VendorID req \<and>
          x_is_active x \<and> panel_of_row C pass x = Inr panel \<and>
          resp = \<lparr>SR_ServiceID = w_seq w TProxies + 1, SR_UUID = generate_uuid rnd,
            SR_SubscriptionURL = x_url x @ ''/sub/'' @ generate_uuid rnd,
            SR_ExpiresAt = w_nano w + duration_days (SQ_DurationDays req), SR_Status = ''active''\<rparr> \<and>
          (\<exists>st\<in>{''active'', ''provisioning''}. service_added st req x (generate_uuid rnd)
             (w_nano w + duration_days (SQ_DurationDays req)) w w'))
     | (Inl e, w') \<Rightarrow> w_db w' = w_db w \<or>
          (\<exists>x panel. x \<in> set (panels (w_db w)) \<and> x_vendor_id x = SQ_VendorID req \<and>
             x_is_active x \<and> panel_of_row C pass x = Inr panel \<and>
             (\<exists>st\<in>{''failed'', ''provisioning''}. service_added st req x (generate_uuid rnd)
               (w_nano w + duration_days (SQ_DurationDays req)) w w'))"
proof -
  obtain r w' where p: "proxy_provision C pass url_ok rnd req w = (r, w')" by fastforce
  note out = proxy_provision_outcomes [OF p assms]
  show ?thesis
  proof (cases r)
    case (Inl e)
    with out show ?thesis unfolding p by (auto dest: stored_added)
  next
    case (Inr resp)
    with out obtain x panel st where x: "x \<in> set (panels (w_db w))" "x_vendor_id x = SQ_VendorID req"
      "x_is_active x" "panel_of_row C pass x = Inr panel" "st \<in> {''active'', ''provisioning''}"
      "stored_as st (provision_record panel req
         (generate_uuid rnd) (w_nano w + duration_days (SQ_DurationDays req))) w w'"
      "resp = \<lparr>SR_ServiceID = w_seq w TProxies + 1, SR_UUID = generate_uuid rnd,
            SR_SubscriptionURL = build_subscription_url (XP_URL panel) (generate_uuid rnd),
            SR_ExpiresAt = w_nano w + duration_days (SQ_DurationDays req), SR_Status = ''active''\<rparr>"
      by auto
    have "XP_URL panel = x_url x" using x(4) by (auto simp: panel_of_row_def map_sum_Inr_iff)
    with x(1-5,7) stored_added [OF x(4,6)] Inr show ?thesis
      unfolding p by (auto simp: build_subscription_url_def)
  qed
qed

definition demo_service :: ServiceRequest where
  "demo_service = \<lparr>SQ_VendorID = 1, SQ_UserID = 2, SQ_OrderID = None, SQ_Protocol = ''vless'',
     SQ_TrafficLimitGB = 100, SQ_DurationDays = 30\<rparr>"

text \<open>The panel accepts at once; the panel never answers.\<close>

theorem provision_outcome_witness:
  "map (\<lambda>q. (p_uuid q, p_subscription_url q, p_duration_days q)) (proxies (w_db (snd (proxy_provision toy_crypto ''key'' (\<lambda>_. True)
       (replicate 16 0) demo_service (demo_world [] [demo_reply]))))) =
     [(generate_uuid (replicate 16 0), ''http://p/sub/'' @ generate_uuid (replicate 16 0), 30)] \<and>
   (\<exists>q. proxies (w_db (snd (proxy_provision toy_crypto ''key'' (\<lambda>_. True)
       (replicate 16 0) demo_service (demo_world [] [])))) = [q] \<and> p_status q \<in> {''failed'', ''provisioning''})"
proof
  let ?p = "\<lambda>rs. proxy_provision toy_crypto ''key'' (\<lambda>_. True) (replicate 16 0) demo_service (demo_world [] rs)"
  have inv: "holds proxy_inv (demo_world [] rs)" for rs
    by (simp add: holds_def proxy_inv_def demo_world_def demo_db_def demo_seq_def empty_db_def)
  have d: "proxies (w_db (demo_world [] rs)) = []" "\<forall>x\<in>set (panels (w_db (demo_world [] rs))). x_url x = ''http://p''"
    "SQ_DurationDays demo_service = 30" for rs
    by (simp_all add: demo_world_def demo_db_def empty_db_def demo_service_def)
  note out = provision_outcome [OF inv, where C = toy_crypto and pass = "''key''" and
        url_ok = "\<lambda>_. True" and rnd = "replicate 16 0" and req = demo_service]
  have "case fst (?p [demo_reply]) of Inl e \<Rightarrow> False | Inr _ \<Rightarrow> True" by code_simp
  then obtain resp w1 where "?p [demo_reply] = (Inr resp, w1)"
    by (cases "?p [demo_reply]") (auto split: sum.splits)
  with out [of "[demo_reply]"] d show "map (\<lambda>q. (p_uuid q, p_subscription_url q, p_duration_days q)) (proxies (w_db (snd (?p [demo_reply])))) =
     [(generate_uuid (replicate 16 0), ''http://p/sub/'' @ generate_uuid (replicate 16 0), 30)]"
    by (auto simp: service_added_def)
  have "case fst (?p []) of Inl e \<Rightarrow> True | Inr _ \<Rightarrow> False" "length (proxies (w_db (snd (?p [])))) = 1" by code_simp+
  then obtain e w2 where "?p [] = (Inl e, w2)" "length (proxies (w_db w2)) = 1"
    by (cases "?p []") (auto split: sum.splits)
  with out [of "[]"] d show "\<exists>q. proxies (w_db (snd (?p []))) = [q] \<and> p_status q \<in> {''failed'', ''provisioning''}"
    by (auto simp: service_added_def)
qed



section \<open>Vendors\<close>

text \<open>
  C26. Vendors do not see each other's data. What \<open>GetByID\<close>, the order lookup, the price
  lookup, \<open>FirstActive\<close> and the listing of a user's services return belongs to the vendor
  they were asked for.
\<close>

theorem vendor_isolation:
  "(case service_get_by_id v i w of (Inl _, _) \<Rightarrow> True
      | (Inr rc, _) \<Rightarrow> PS_VendorID rc = v \<and> PS_ID rc = i) \<and>
   (case orders_by_id v i w of (Inl _, _) \<Rightarrow> True | (Inr ord, _) \<Rightarrow> O_VendorID ord = v \<and> O_ID ord = i) \<and>
   (case catalog_price_get v i w of (Inl _, _) \<Rightarrow> True | (Inr cat, _) \<Rightarrow> CP_VendorID cat = v) \<and>
   (case panel_first_active C pass v w of (Inl _, _) \<Rightarrow> True
      | (Inr p, _) \<Rightarrow> XP_VendorID p = v \<and> XP_IsActive p) \<and>
   (case service_list_by_user v u w of (Inl _, _) \<Rightarrow> True
      | (Inr rcs, _) \<Rightarrow> list_all (\<lambda>rc. PS_VendorID rc = v \<and> PS_UserID rc = u) rcs)"
proof (intro conjI)
  show "case service_get_by_id v i w of (Inl _, _) \<Rightarrow> True
      | (Inr rc, _) \<Rightarrow> PS_VendorID rc = v \<and> PS_ID rc = i"
    unfolding service_get_by_id_def proxy_by_id_def
    by (auto simp: record_of_row_def split: prod.splits sum.splits elim!: select_proxy_InrE)
  show "case orders_by_id v i w of (Inl _, _) \<Rightarrow> True | (Inr ord, _) \<Rightarrow> O_VendorID ord = v \<and> O_ID ord = i"
    by (auto simp: order_of_row_def split: prod.splits sum.splits dest!: order_read)
  show "case catalog_price_get v i w of (Inl _, _) \<Rightarrow> True | (Inr cat, _) \<Rightarrow> CP_VendorID cat = v"
    by (auto simp: catalog_price_get_Inr price_of_row_def split: prod.splits sum.splits
        dest!: select_first_InrD)
  show "case panel_first_active C pass v w of (Inl _, _) \<Rightarrow> True
      | (Inr p, _) \<Rightarrow> XP_VendorID p = v \<and> XP_IsActive p"
    by (auto simp: panel_of_row_def split: prod.splits sum.splits dest!: panel_read)
       (auto simp: map_sum_Inr_iff)
  show "case service_list_by_user v u w of (Inl _, _) \<Rightarrow> True
      | (Inr rcs, _) \<Rightarrow> list_all (\<lambda>rc. PS_VendorID rc = v \<and> PS_UserID rc = u) rcs"
    by (auto simp: service_list_by_user_def proxy_list_by_user_def list_proxies_def query_Inr
        record_of_row_def list_all_iff split: prod.splits sum.splits)
qed

end
