(* ===== verification/RateLimit.thy ===== *)
theory RateLimit
  imports Prelude
begin

text \<open>
  The rate limiter of \<open>internal/middleware/ratelimit.go\<close> and the client address it limits
  by. Its comment calls it a sliding window; the code keeps one counter per key that
  restarts when its window has passed. Times are nanoseconds.
\<close>

record bucket =
  cnt :: int
  windowEnd :: int

record limiter =
  buckets :: "string \<rightharpoonup> bucket"
  limit :: int
  window :: int

definition new_rate_limiter :: "int \<Rightarrow> int \<Rightarrow> limiter" where
  "new_rate_limiter l wd = \<lparr>buckets = Map.empty, limit = l, window = wd\<rparr>"

definition allow :: "int \<Rightarrow> string \<Rightarrow> limiter \<Rightarrow> bool \<times> limiter" where
  "allow now key rl =
     (let reset = (True, rl\<lparr>buckets := (buckets rl)
            (key \<mapsto> \<lparr>cnt = 1, windowEnd = now + window rl\<rparr>)\<rparr>) in
      case buckets rl key of
        None \<Rightarrow> reset
      | Some b \<Rightarrow>
          if windowEnd b < now then reset
          else if limit rl \<le> cnt b then (False, rl)
          else (True, rl\<lparr>buckets := (buckets rl)(key \<mapsto> b\<lparr>cnt := cnt b + 1\<rparr>)\<rparr>))"

definition cleanup :: "int \<Rightarrow> limiter \<Rightarrow> limiter" where
  "cleanup now rl = rl\<lparr>buckets := (\<lambda>k. case buckets rl k of
       None \<Rightarrow> None
     | Some b \<Rightarrow> if windowEnd b < now then None else Some b)\<rparr>"

text \<open>The text before the first comma, and the text before the last colon.\<close>

definition before_comma :: "string \<Rightarrow> string" where
  "before_comma s = takeWhile (\<lambda>c. c \<noteq> CHR '','') s"

definition strip_port :: "string \<Rightarrow> string" where
  "strip_port addr =
     (if CHR '':'' \<in> set addr then rev (tl (dropWhile (\<lambda>c. c \<noteq> CHR '':'') (rev addr)))
      else addr)"

definition real_ip :: "string \<Rightarrow> string \<Rightarrow> string \<Rightarrow> string" where
  "real_ip xff xri remoteAddr =
     (if xff \<noteq> [] then before_comma xff
      else if xri \<noteq> [] then xri
      else strip_port remoteAddr)"

section \<open>Runs\<close>

text \<open>A run of requests \<open>(time, key)\<close>: the decisions and the limiter afterwards.\<close>

fun allows :: "(int \<times> string) list \<Rightarrow> limiter \<Rightarrow> bool list \<times> limiter" where
  "allows [] rl = ([], rl)"
| "allows ((t, k) # rs) rl =
     (let (ok, rl1) = allow t k rl; (oks, rl2) = allows rs rl1 in (ok # oks, rl2))"

definition granted :: "int \<Rightarrow> string \<Rightarrow> limiter \<Rightarrow> int" where
  "granted now key rl =
     (case buckets rl key of None \<Rightarrow> 0 | Some b \<Rightarrow> if windowEnd b < now then 0 else cnt b)"

lemma allow_limit [simp]: "limit (snd (allow t k rl)) = limit rl" "window (snd (allow t k rl)) = window rl"
  by (auto simp: allow_def Let_def split: option.splits)

lemma allow_other: "k' \<noteq> k \<Longrightarrow> buckets (snd (allow t k rl)) k' = buckets rl k'"
  by (auto simp: allow_def Let_def split: option.splits)

text \<open>A decision depends on what the current window of the key has granted so far.\<close>

lemma allow_granted:
  assumes "0 < limit rl" and "0 \<le> window rl"
  shows "fst (allow t k rl) \<longleftrightarrow> granted t k rl < limit rl"
    and "granted t k (snd (allow t k rl)) =
      (if granted t k rl < limit rl then granted t k rl + 1 else granted t k rl)"
  using assms by (auto simp: allow_def granted_def Let_def split: option.splits)

text \<open>The bound is never exceeded.\<close>

definition limiter_ok :: "limiter \<Rightarrow> bool" where
  "limiter_ok rl \<longleftrightarrow> 0 < limit rl \<and> 0 \<le> window rl \<and>
     (\<forall>k b. buckets rl k = Some b \<longrightarrow> 1 \<le> cnt b \<and> cnt b \<le> limit rl)"

lemma limiter_ok_new: "0 < l \<Longrightarrow> 0 \<le> wd \<Longrightarrow> limiter_ok (new_rate_limiter l wd)"
  by (simp add: limiter_ok_def new_rate_limiter_def)

lemma limiter_ok_allow:
  assumes "limiter_ok rl"
  shows "limiter_ok (snd (allow t k rl))"
proof (cases "buckets rl k")
  case None
  with assms show ?thesis by (auto simp: limiter_ok_def allow_def Let_def)
next
  case (Some b)
  with assms show ?thesis by (fastforce simp: limiter_ok_def allow_def Let_def)
qed

lemma limiter_ok_cleanup: "limiter_ok rl \<Longrightarrow> limiter_ok (cleanup t rl)"
  by (auto simp: limiter_ok_def cleanup_def split: option.splits if_splits)

text \<open>Cleaning up never changes a later decision.\<close>

lemma allow_cleanup:
  assumes "s \<le> t"
  shows "fst (allow t k (cleanup s rl)) = fst (allow t k rl)"
    and "buckets (snd (allow t k (cleanup s rl))) k = buckets (snd (allow t k rl)) k"
  using assms by (auto simp: allow_def cleanup_def Let_def split: option.splits if_splits)

section \<open>One window\<close>

text \<open>
  Requests of one key, none later than the window its first one opens: the first
  \<open>limit\<close> of them are allowed, the others refused.
\<close>

lemma allows_in_window:
  assumes "buckets rl k = Some b" and "\<forall>t\<in>set ts. t \<le> windowEnd b" and "cnt b \<le> limit rl"
  shows "fst (allows (map (\<lambda>t. (t, k)) ts) rl) =
     map (\<lambda>i. int i < limit rl - cnt b) [0..<length ts]"
  using assms
proof (induction ts arbitrary: rl b)
  case (Cons t ts)
  show ?case
  proof (cases "cnt b < limit rl")
    case True
    let ?rl = "rl\<lparr>buckets := (buckets rl)(k \<mapsto> b\<lparr>cnt := cnt b + 1\<rparr>)\<rparr>"
    have a: "allow t k rl = (True, ?rl)"
      using Cons.prems True by (simp add: allow_def Let_def)
    have "fst (allows (map (\<lambda>t. (t, k)) ts) ?rl) =
        map (\<lambda>i. int i < limit ?rl - (cnt b + 1)) [0..<length ts]"
      using Cons.prems True by (subst Cons.IH [of ?rl "b\<lparr>cnt := cnt b + 1\<rparr>"]) auto
    with a True show ?thesis
      by (simp add: case_prod_unfold Let_def map_upt_Suc algebra_simps del: upt_Suc)
  next
    case False
    have a: "allow t k rl = (False, rl)"
      using Cons.prems False by (simp add: allow_def Let_def)
    with Cons.IH [OF Cons.prems(1) _ Cons.prems(3)] Cons.prems(2) False show ?thesis
      by (auto simp: case_prod_unfold Let_def map_upt_Suc simp del: upt_Suc)
  qed
qed simp

lemma allows_fresh_key:
  assumes "buckets rl k = None" and "0 < limit rl" and "\<forall>t\<in>set ts. t \<le> t0 + window rl"
  shows "fst (allows (map (\<lambda>t. (t, k)) (t0 # ts)) rl) =
     map (\<lambda>i. int i < limit rl) [0..<length (t0 # ts)]"
proof -
  let ?b = "\<lparr>cnt = 1, windowEnd = t0 + window rl\<rparr>"
  let ?rl = "rl\<lparr>buckets := (buckets rl)(k \<mapsto> ?b)\<rparr>"
  have a: "allow t0 k rl = (True, ?rl)" using assms by (simp add: allow_def Let_def)
  have "fst (allows (map (\<lambda>t. (t, k)) ts) ?rl) =
      map (\<lambda>i. int i < limit ?rl - 1) [0..<length ts]"
    using assms by (subst allows_in_window [of ?rl k ?b]) auto
  with a assms(2) show ?thesis
    by (simp add: case_prod_unfold Let_def map_upt_Suc algebra_simps del: upt_Suc)
qed

section \<open>Client addresses\<close>

lemma strip_port_host: "CHR '':'' \<notin> set port \<Longrightarrow> strip_port (host @ CHR '':'' # port) = host"
  by (simp add: strip_port_def dropWhile_append3 dropWhile_append)

lemma real_ip_forwarded:
  "xff \<noteq> [] \<Longrightarrow> CHR '','' \<notin> set a \<Longrightarrow> a \<noteq> [] \<Longrightarrow> real_ip (a @ CHR '','' # b) xri ra = a"
  by (auto simp: real_ip_def before_comma_def takeWhile_tail)

end
