(* ===== verification/AccessProps.thy ===== *)
theory AccessProps
  imports Demo Accounts MemoryStore RateLimit
begin

text \<open>
  The properties of passwords, tokens, accounts, the rate limiter, the notification hub and
  the payment service.
\<close>

section \<open>Passwords and tokens\<close>

text \<open>
  A password hash admits exactly the passwords with its digest. \<open>HashPassword\<close> refuses
  only the empty password; \<open>ComparePassword\<close> accepts another password for the hash it made
  exactly when the salted digests agree, in particular the password itself.
\<close>

theorem password_check:
  "case hash_password C salt pw of
     Inl _ \<Rightarrow> pw = []
   | Inr h \<Rightarrow> pw \<noteq> [] \<and>
       compare_password C h pw' = (sha256 C (salt @ pw') = sha256 C (salt @ pw))"
proof (cases "hash_password C salt pw")
  case (Inl e)
  then show ?thesis by (simp add: hash_password_def split: if_splits)
next
  case (Inr h)
  then have "pw \<noteq> []" by (simp add: hash_password_def split: if_splits)
  with compare_hash [OF Inr] Inr show ?thesis by simp
qed

text \<open>
  C27. Tokens round trip. The token \<open>SignJWT\<close> makes for a 64-bit user number is accepted by
  \<open>ValidateJWT\<close> and by the middleware under the same secret, and the middleware reads back
  the subject and role it was made for, through HMAC, base64 and JSON (a role that is not
  UTF-8 with U+FFFD in the places that are not); the vendor it reads is zero.
\<close>

theorem token_roundtrip:
  assumes "fits64 sub"
  shows "validate_jwt T secret (sign_jwt T secret sub role nano) \<and>
     parse_jwt T secret (sign_jwt T secret sub role nano) =
       Some \<lparr>Sub = sub, Role = (if valid_utf8 role then role else repair role), VendorID = 0\<rparr>"
  using parse_sign_jwt [OF assms] by (auto simp: repair_valid intro: parse_validates)

theorem token_roundtrip_witness:
  "parse_jwt toy_tokens ''s'' (sign_jwt toy_tokens ''s'' 3 ''admin'' 0) =
     Some \<lparr>Sub = 3, Role = ''admin'', VendorID = 0\<rparr>"
proof -
  have "valid_utf8 ''admin''" by code_simp
  with token_roundtrip [of 3 toy_tokens "''s''" "''admin''" 0] show ?thesis by (simp add: fits64_def)
qed

text \<open>
  C28. No claims without the secret. Whatever token the middleware accepts has three parts,
  the third of which is the encoded HMAC, under the server's secret, of the first two as
  they stand, and the claims it yields are those decoded from the second part.
\<close>

theorem token_authentic:
  "case parse_jwt T secret token of
     None \<Rightarrow> True
   | Some c \<Rightarrow> (\<exists>h p payload.
       token = h @ ''.'' @ p @ ''.'' @ b64_encode url_alphabet (hmac T secret (h @ ''.'' @ p)) \<and>
       b64_decode url_alphabet p = Some payload \<and> unmarshal_claims payload = Some c)"
proof (cases "parse_jwt T secret token")
  case (Some c)
  from parse_jwt_Some [OF Some] show ?thesis unfolding Some option.case by simp blast
qed simp

section \<open>Accounts\<close>

text \<open>
  C29. Registration. \<open>Register\<close> leaves the tables as they are, or adds exactly one user with
  a new email and the password's hash, together with an empty wallet of that user or, when
  the second statement failed, without one. It reports success only when both are there.
\<close>

theorem register_outcome:
  assumes "holds accounts_inv w"
  shows "case auth_register C salt email password w of (r, w') \<Rightarrow>
     w_db w' = w_db w \<and> r \<noteq> Inr () \<or>
     (\<exists>h. hash_password C salt password = Inr h \<and>
        \<not> list_ex (\<lambda>u. u_email u = email) (users (w_db w)) \<and>
        (w_db w' = (w_db w)\<lparr>users := users (w_db w) @
            [new_user_row email h (w_seq w TUsers + 1) (w_now w)]\<rparr> \<and> r \<noteq> Inr () \<or>
         w_db w' = (w_db w)\<lparr>users := users (w_db w) @
            [new_user_row email h (w_seq w TUsers + 1) (w_now w)],
          wallets := wallets (w_db w) @
            [new_wallet_row (w_seq w TWallets + 1) (w_seq w TUsers + 1) (w_now w)]\<rparr>))"
proof -
  obtain r w' where reg: "auth_register C salt email password w = (r, w')" by fastforce
  from assms reg show ?thesis
    by (cases rule: auth_register_outcomes) (simp_all add: reg list_ex_iff)
qed

theorem register_outcome_witness:
  "length (users (w_db (snd (auth_register toy_crypto ''salt'' ''new'' ''pw'' (demo_world [] []))))) = 3"
proof -
  let ?w = "demo_world [] []"
  have inv: "holds accounts_inv ?w"
    by (simp add: holds_def accounts_inv_def demo_world_def demo_db_def demo_seq_def empty_db_def
        one_wallet_def ids_ok_def)
  have d: "length (users (w_db ?w)) = 2" by (simp add: demo_world_def demo_db_def)
  have "fst (auth_register toy_crypto ''salt'' ''new'' ''pw'' ?w) = Inr ()" by code_simp
  with register_outcome [OF inv, where C = toy_crypto and salt = "''salt''" and
      email = "''new''" and password = "''pw''"] d show ?thesis
    by (auto split: prod.splits)
qed

context account_store
begin

lemma create_fails_iff:
  assumes "ok s"
  shows "isl (fst (create e h r s)) \<longleftrightarrow> lookup e s \<noteq> None"
proof (cases "lookup e s")
  case None
  with create_new [OF assms, of e h r] show ?thesis by auto
next
  case (Some x)
  with create_dup [OF assms, of e h r] show ?thesis by auto
qed

end

text \<open>
  C30. The memory store is a faithful stand-in for the database. On stores with the same
  emails, creating an account fails on the one exactly when it fails on the other, and when
  it succeeds both then show the account under its email with an empty wallet.
\<close>

theorem stores_agree:
  assumes "account_ok w" and "memory_ok m" and "(account_lookup e w = None) = (memory_lookup e m = None)"
  shows "isl (fst (account_create e h r w)) = isl (fst (create_user now e h r m)) \<and>
     (case (account_create e h r w, create_user now e h r m) of
        ((Inr i, w'), (Inr j, m')) \<Rightarrow>
          account_lookup e w' = Some (i, h, r) \<and> memory_lookup e m' = Some (j, h, r) \<and>
          account_funds i w' = Some 0 \<and> memory_funds j m' = Some 0
      | _ \<Rightarrow> True)"
proof -
  have f: "isl (fst (account_create e h r w)) = isl (fst (create_user now e h r m))"
    using sql_accounts.create_fails_iff [OF assms(1)] memory.create_fails_iff [OF assms(2)] assms(3)
    by blast
  moreover have "case (account_create e h r w, create_user now e h r m) of
        ((Inr i, w'), (Inr j, m')) \<Rightarrow>
          account_lookup e w' = Some (i, h, r) \<and> memory_lookup e m' = Some (j, h, r) \<and>
          account_funds i w' = Some 0 \<and> memory_funds j m' = Some 0
      | _ \<Rightarrow> True"
    using account_create_effect [OF assms(1)] memory_create_effect [OF assms(2)]
    by (auto split: prod.split sum.split)
  ultimately show ?thesis ..
qed

theorem stores_agree_witness:
  "\<not> isl (fst (account_create ''a'' ''h'' ''user'' (demo_world [] []))) \<and>
   \<not> isl (fst (create_user 0 ''a'' ''h'' ''user'' new_memory))"
proof -
  have ok: "account_ok (demo_world [] [])"
    by (simp add: account_ok_def holds_def accounts_inv_def demo_world_def demo_db_def demo_seq_def
        empty_db_def one_wallet_def ids_ok_def)
  have l: "(account_lookup ''a'' (demo_world [] []) = None) = (memory_lookup ''a'' new_memory = None)"
    by (simp add: account_lookup_def memory_lookup_def get_user_by_email_def demo_world_def
        demo_db_def new_memory_def)
  have "\<not> isl (fst (create_user 0 ''a'' ''h'' ''user'' new_memory))"
    by (simp add: create_user_def new_memory_def Let_def)
  with stores_agree [OF ok memory_ok_new l, of "''h''" "''user''" 0] show ?thesis by blast
qed

section \<open>The rate limiter\<close>

text \<open>
  C31. One window. When a key without a bucket makes its first request at \<open>t0\<close>, then of this
  and the following requests up to the end of that window exactly the first \<open>limit\<close> are
  allowed.
\<close>

theorem limiter_window:
  assumes "buckets rl k = None" and "0 < limit rl" and "\<forall>t\<in>set ts. t \<le> t0 + window rl"
  shows "fst (allows (map (\<lambda>t. (t, k)) (t0 # ts)) rl) =
     map (\<lambda>i. int i < limit rl) [0..<length (t0 # ts)]"
  using assms by (rule allows_fresh_key)

theorem limiter_window_witness:
  "fst (allows (map (\<lambda>t. (t, ''ip'')) (0 # [1, 2, 60])) (new_rate_limiter 2 60)) =
     [True, True, False, False]"
  by (subst limiter_window) (simp_all add: new_rate_limiter_def upt_rec)

section \<open>Notifications\<close>

text \<open>
  Notifying never blocks and never reorders. Through any run of notifications the hub
  stays within its bounds, and a client that reads nothing has, after what it held before,
  the texts of the oldest of the new messages, as many as its sixteen slots had room for.
\<close>

theorem notify_bounded:
  assumes "hub_ok h"
  shows "hub_ok (fold (\<lambda>(t, p) h. notify t p h) ms h) \<and>
     map_of (clients (fold (\<lambda>(t, p) h. notify t p h) ms h)) c =
       map_option (\<lambda>q. q @ take (16 - length q) (map (\<lambda>(t, p). message_text t p) ms))
         (map_of (clients h) c)"
proof
  show "hub_ok (fold (\<lambda>(t, p) h. notify t p h) ms h)"
    using assms by (induction ms arbitrary: h) (auto intro: hub_ok_notify)
  have "length q \<le> 16" if "map_of (clients h) c = Some q" for q
    using assms map_of_SomeD [OF that] by (auto simp: hub_ok_def)
  then show "map_of (clients (fold (\<lambda>(t, p) h. notify t p h) ms h)) c =
       map_option (\<lambda>q. q @ take (16 - length q) (map (\<lambda>(t, p). message_text t p) ms))
         (map_of (clients h) c)"
    unfolding clients_fold_notify
    by (cases "map_of (clients h) c") (simp_all add: hub_channel.fold_send)
qed

theorem notify_bounded_witness:
  "map_of (clients (fold (\<lambda>(t, p) h. notify t p h) (replicate 20 (''t'', [])) (ws_open 1 (new_hub bus_new)))) 1 =
     Some (replicate 16 ''{\"payload\":{},\"topic\":\"t\"}'')"
proof -
  have "hub_ok (ws_open 1 (new_hub bus_new))"
    by (rule hub_ok_open [OF hub_ok_new [OF bus_ok_new]]) (simp add: new_hub_def)
  moreover have "message_text ''t'' [] = ''{\"payload\":{},\"topic\":\"t\"}''" by code_simp
  ultimately show ?thesis
    using notify_bounded [of "ws_open 1 (new_hub bus_new)" "replicate 20 (''t'', [])" 1]
    by (simp only:) (simp add: ws_open_def new_hub_def)
qed

section \<open>Payments\<close>

text \<open>
  A deduction is exact. When the payment service reports a deduction, the balance read
  next is the balance read before less the amount, and no other user's wallet has changed.
\<close>

theorem payment_exact:
  assumes "one_wallet (w_db w)" and "payment_deduct apply_transaction u a w = (Inr x, w1)"
    and "wallet_balance u w = (Inr b, w0)" and "wallet_balance u w1 = (Inr c, w2)"
    and "fits64 a" and "a \<noteq> - (2 ^ 63)"
  shows "c = b - a \<and> (if v \<noteq> u then wallet_view (w_db w1) v = wallet_view (w_db w) v else True)"
  using sql_wallets.deduct_then_balance [OF assms(1,2,4,3,5,6)] sql_wallets.deduct_others [OF assms(1,2)]
  by simp

theorem payment_exact_witness:
  "fst (wallet_balance 2 (snd (payment_deduct apply_transaction 2 120 (demo_world [] [])))) = Inr 380"
proof -
  let ?w = "demo_world [] []"
  let ?w1 = "snd (payment_deduct apply_transaction 2 120 ?w)"
  have o: "one_wallet (w_db ?w)"
    by (simp add: one_wallet_def demo_world_def demo_db_def)
  have "fst (payment_deduct apply_transaction 2 120 ?w) = Inr ()" by code_simp
  then have d: "payment_deduct apply_transaction 2 120 ?w = (Inr (), ?w1)" by (simp add: prod_eq_iff)
  have "fst (wallet_balance 2 ?w) = Inr 500" by code_simp
  then have b: "wallet_balance 2 ?w = (Inr 500, snd (wallet_balance 2 ?w))" by (simp add: prod_eq_iff)
  have "\<not> isl (fst (wallet_balance 2 ?w1))" by code_simp
  then obtain c where c: "wallet_balance 2 ?w1 = (Inr c, snd (wallet_balance 2 ?w1))"
    by (metis isl_def prod.collapse sum.exhaust_disc sum.collapse(2))
  from payment_exact [OF o d b c] have "c = 380" by (simp add: fits64_def)
  with c show ?thesis by (metis fst_conv)
qed

end
