(* ===== verification/Slug.thy ===== *)
theory Slug
  imports AuthService
begin

text \<open>
  Slugs, the names in storefront URLs: the regular expression of
  \<open>internal/storefront/service.go\<close> and what \<open>regexp\<close> makes of it. \<open>matches\<close> is the
  language of an expression; \<open>match_string\<close> decides it with derivatives.
\<close>

section \<open>Regular expressions\<close>

text \<open>A character class is a list of ranges.\<close>

datatype rexp =
    Zero
  | Eps
  | Cls "(char \<times> char) list"
  | Seq rexp rexp
  | Alt rexp rexp
  | Star rexp

definition in_class :: "(char \<times> char) list \<Rightarrow> char \<Rightarrow> bool" where
  "in_class rs c \<longleftrightarrow>
     list_ex (\<lambda>(a, b). (of_char a :: nat) \<le> of_char c \<and> (of_char c :: nat) \<le> of_char b) rs"

inductive matches :: "rexp \<Rightarrow> string \<Rightarrow> bool" where
  m_eps: "matches Eps []"
| m_cls: "in_class rs c \<Longrightarrow> matches (Cls rs) [c]"
| m_seq: "matches r x \<Longrightarrow> matches s y \<Longrightarrow> matches (Seq r s) (x @ y)"
| m_altL: "matches r x \<Longrightarrow> matches (Alt r s) x"
| m_altR: "matches s x \<Longrightarrow> matches (Alt r s) x"
| m_star0: "matches (Star r) []"
| m_star: "matches r x \<Longrightarrow> matches (Star r) y \<Longrightarrow> matches (Star r) (x @ y)"

inductive_cases matches_ZeroE [elim!]: "matches Zero x"
inductive_cases matches_EpsE [elim!]: "matches Eps x"
inductive_cases matches_ClsE [elim!]: "matches (Cls rs) x"
inductive_cases matches_SeqE [elim!]: "matches (Seq r s) x"
inductive_cases matches_AltE [elim!]: "matches (Alt r s) x"

text \<open>\<open>x+\<close>, and the pattern \<open>^[a-z0-9]+(?:-[a-z0-9]+)*$\<close>.\<close>

definition Plus :: "rexp \<Rightarrow> rexp" where
  "Plus r = Seq r (Star r)"

definition slug_class :: "(char \<times> char) list" where
  "slug_class = [(CHR ''a'', CHR ''z''), (CHR ''0'', CHR ''9'')]"

definition slug_re :: rexp where
  "slug_re = Seq (Plus (Cls slug_class))
     (Star (Seq (Cls [(CHR ''-'', CHR ''-'')]) (Plus (Cls slug_class))))"

fun nullable :: "rexp \<Rightarrow> bool" where
  "nullable Zero = False"
| "nullable Eps = True"
| "nullable (Cls rs) = False"
| "nullable (Seq r s) = (nullable r \<and> nullable s)"
| "nullable (Alt r s) = (nullable r \<or> nullable s)"
| "nullable (Star r) = True"

fun deriv :: "char \<Rightarrow> rexp \<Rightarrow> rexp" where
  "deriv c Zero = Zero"
| "deriv c Eps = Zero"
| "deriv c (Cls rs) = (if in_class rs c then Eps else Zero)"
| "deriv c (Seq r s) =
     (if nullable r then Alt (Seq (deriv c r) s) (deriv c s) else Seq (deriv c r) s)"
| "deriv c (Alt r s) = Alt (deriv c r) (deriv c s)"
| "deriv c (Star r) = Seq (deriv c r) (Star r)"

fun match_string :: "rexp \<Rightarrow> string \<Rightarrow> bool" where
  "match_string r [] = nullable r"
| "match_string r (c # s) = match_string (deriv c r) s"

definition validate_slug :: "string \<Rightarrow> err option" where
  "validate_slug slug =
     (if \<not> match_string slug_re slug then Some (ErrNew ''invalid slug'') else None)"

section \<open>The matcher decides the language\<close>

lemma nullable_iff: "nullable r \<longleftrightarrow> matches r []"
proof (induction r)
  case (Seq r s)
  then show ?case using m_seq [of r "[]" s "[]"] by auto
qed (auto intro: matches.intros)

lemma star_Cons:
  assumes "matches (Star r) w" and "w = c # s"
  shows "\<exists>x y. s = x @ y \<and> matches r (c # x) \<and> matches (Star r) y"
  using assms
proof (induction "Star r" w arbitrary: s rule: matches.induct)
  case (m_star x y)
  then show ?case by (cases x) auto
qed simp

lemma deriv_iff: "matches (deriv c r) s \<longleftrightarrow> matches r (c # s)"
proof (induction r arbitrary: s)
  case (Cls rs)
  then show ?case by (auto intro: m_eps m_cls)
next
  case (Seq r t)
  have "matches (Seq r t) (c # s) \<longleftrightarrow>
      (\<exists>x y. s = x @ y \<and> matches r (c # x) \<and> matches t y) \<or> (matches r [] \<and> matches t (c # s))"
  proof
    assume "matches (Seq r t) (c # s)"
    then obtain x y where "c # s = x @ y" "matches r x" "matches t y" by auto
    then show "(\<exists>x y. s = x @ y \<and> matches r (c # x) \<and> matches t y) \<or> (matches r [] \<and> matches t (c # s))"
      by (cases x) auto
  next
    assume "(\<exists>x y. s = x @ y \<and> matches r (c # x) \<and> matches t y) \<or> (matches r [] \<and> matches t (c # s))"
    then show "matches (Seq r t) (c # s)"
    proof (elim disjE exE conjE)
      fix x y assume "s = x @ y" "matches r (c # x)" "matches t y"
      then show "matches (Seq r t) (c # s)" using m_seq [of r "c # x" t y] by simp
    next
      assume "matches r []" "matches t (c # s)"
      then show "matches (Seq r t) (c # s)" using m_seq [of r "[]" t "c # s"] by simp
    qed
  qed
  with Seq.IH show ?case by (auto simp: nullable_iff intro: m_altL m_altR m_seq)
next
  case (Alt r t)
  then show ?case by (auto intro: m_altL m_altR)
next
  case (Star r)
  show ?case
  proof
    assume "matches (deriv c (Star r)) s"
    then obtain x y where "s = x @ y" "matches (deriv c r) x" "matches (Star r) y" by auto
    with Star.IH [of x] m_star [of r "c # x" y] show "matches (Star r) (c # s)" by simp
  next
    assume "matches (Star r) (c # s)"
    from star_Cons [OF this refl] Star.IH show "matches (deriv c (Star r)) s"
      by (auto intro: m_seq)
  qed
qed auto

lemma match_string_iff: "match_string r s \<longleftrightarrow> matches r s"
  by (induction s arbitrary: r) (auto simp: nullable_iff deriv_iff)

section \<open>What a slug is\<close>

definition slug_part :: "string \<Rightarrow> bool" where
  "slug_part p \<longleftrightarrow> p \<noteq> [] \<and> list_all (in_class slug_class) p"

lemma dash_not_slug: "\<not> in_class slug_class CHR ''-''"
  by (simp add: in_class_def slug_class_def)

lemma dash_class: "in_class [(CHR ''-'', CHR ''-'')] c \<longleftrightarrow> c = CHR ''-''"
proof -
  have "in_class [(CHR ''-'', CHR ''-'')] c \<longleftrightarrow> (of_char c :: nat) = of_char CHR ''-''"
    by (auto simp: in_class_def)
  then show ?thesis by (simp only: of_char_eq_iff)
qed

lemma matches_star_cls: "matches (Star (Cls rs)) w \<longleftrightarrow> list_all (in_class rs) w"
proof
  show "list_all (in_class rs) w" if "matches (Star (Cls rs)) w"
    using that by (induction "Star (Cls rs)" w rule: matches.induct) auto
  show "matches (Star (Cls rs)) w" if "list_all (in_class rs) w"
    using that
  proof (induction w)
    case (Cons c w)
    then show ?case using m_star [OF m_cls [of rs c], of w] by simp
  qed (rule m_star0)
qed

lemma matches_plus: "matches (Plus (Cls slug_class)) w \<longleftrightarrow> slug_part w"
proof (cases w)
  case (Cons c v)
  then show ?thesis
    using m_seq [OF m_cls [of slug_class c], of "Star (Cls slug_class)" v]
    by (auto simp: Plus_def slug_part_def matches_star_cls)
qed (auto simp: Plus_def slug_part_def)

lemma matches_tail:
  "matches (Star (Seq (Cls [(CHR ''-'', CHR ''-'')]) (Plus (Cls slug_class)))) w \<longleftrightarrow>
     (\<exists>ps. w = concat (map (Cons CHR ''-'') ps) \<and> list_all slug_part ps)"
  (is "matches (Star ?r) w \<longleftrightarrow> ?P w")
proof
  have r: "matches ?r x \<longleftrightarrow> (\<exists>p. x = CHR ''-'' # p \<and> slug_part p)" for x
    using m_seq [OF m_cls, of "[(CHR ''-'', CHR ''-'')]" "CHR ''-''"]
    by (auto simp: matches_plus [symmetric] dash_class)
  show "?P w" if "matches (Star ?r) w"
    using that
  proof (induction "Star ?r" w rule: matches.induct)
    case m_star0
    show ?case by (rule exI [of _ "[]"]) simp
  next
    case (m_star x y)
    then obtain p ps where "x = CHR ''-'' # p" "slug_part p"
      "y = concat (map (Cons CHR ''-'') ps)" "list_all slug_part ps"
      unfolding r by auto
    then show ?case by (intro exI [of _ "p # ps"]) simp
  qed
  have "matches (Star ?r) (concat (map (Cons CHR ''-'') ps))" if "list_all slug_part ps" for ps
    using that
  proof (induction ps)
    case (Cons p ps)
    then have "matches ?r (CHR ''-'' # p)" by (auto simp: r)
    from m_star [OF this] Cons show ?case by simp
  qed (simp add: m_star0)
  then show "matches (Star ?r) w" if "?P w" using that by blast
qed

lemma split_on_parts_join:
  assumes "CHR ''-'' \<notin> set p" and "\<forall>q\<in>set ps. CHR ''-'' \<notin> set q"
  shows "split_on CHR ''-'' (p @ concat (map (Cons CHR ''-'') ps)) = p # ps"
  using assms
proof (induction ps arbitrary: p)
  case (Cons q qs)
  then show ?case by (simp add: split_on_join)
qed (simp add: split_on_no)

lemma join_with_concat: "join_with c (p # ps) = p @ concat (map (Cons c) ps)"
  by (induction ps arbitrary: p) auto

lemma slug_part_no_dash: "slug_part p \<Longrightarrow> CHR ''-'' \<notin> set p"
  using dash_not_slug by (auto simp: slug_part_def list_all_iff)

lemma slug_parts: "matches slug_re w \<longleftrightarrow> list_all slug_part (split_on CHR ''-'' w)"
proof
  assume "matches slug_re w"
  then obtain p ps where "w = p @ concat (map (Cons CHR ''-'') ps)" "slug_part p" "list_all slug_part ps"
    by (auto simp: slug_re_def matches_plus matches_tail)
  moreover from this have "split_on CHR ''-'' w = p # ps"
    by (auto intro!: split_on_parts_join dest: slug_part_no_dash simp: list_all_iff)
  ultimately show "list_all slug_part (split_on CHR ''-'' w)" by simp
next
  assume p: "list_all slug_part (split_on CHR ''-'' w)"
  obtain q qs where q: "split_on CHR ''-'' w = q # qs" by (cases "split_on CHR ''-'' w") auto
  then have "w = q @ concat (map (Cons CHR ''-'') qs)"
    using join_split [of "CHR ''-''" w] by (simp add: join_with_concat)
  with p q show "matches slug_re w"
    unfolding slug_re_def
    by (auto intro!: m_seq simp: matches_plus matches_tail)
qed

lemma validate_slug_None: "validate_slug s = None \<longleftrightarrow> list_all slug_part (split_on CHR ''-'' s)"
  by (simp add: validate_slug_def match_string_iff slug_parts)

end
