(* ===== verification/Storefront.thy ===== *)
theory Storefront
  imports Slug CatalogRepo
begin

text \<open>
  The queries of the public storefront, \<open>internal/storefront/service.go\<close>, and the demo data
  a development server starts with.
\<close>

section \<open>Vendors and products\<close>

record StoreVendor =
  SV_ID :: int
  SV_Name :: string
  SV_Slug :: string
  SV_Status :: string

record Product =
  PR_ID :: int
  PR_VendorID :: int
  PR_Slug :: string
  PR_Title :: string
  PR_Description :: string
  PR_Protocol :: string
  PR_InboundID :: int
  PR_XUINodeID :: int
  PR_TrafficLimitGB :: int
  PR_DurationDays :: int
  PR_PriceToman :: int
  PR_IsActive :: bool
  PR_AutoProvision :: bool
  PR_RenewalEnabled :: bool
  PR_CountryCode :: string
  PR_StockStatus :: string

definition store_vendor_of_row :: "vendor_row \<Rightarrow> StoreVendor" where
  "store_vendor_of_row r =
     \<lparr>SV_ID = v_id r, SV_Name = v_name r, SV_Slug = v_slug r, SV_Status = v_status r\<rparr>"

definition product_of_row :: "catalog_row \<Rightarrow> Product" where
  "product_of_row r =
     \<lparr>PR_ID = c_id r, PR_VendorID = c_vendor_id r, PR_Slug = c_slug r, PR_Title = c_title r,
      PR_Description = c_description r, PR_Protocol = c_protocol r,
      PR_InboundID = c_inbound_id r, PR_XUINodeID = c_xui_node_id r,
      PR_TrafficLimitGB = c_traffic_limit_gb r, PR_DurationDays = c_duration_days r,
      PR_PriceToman = c_price_toman r, PR_IsActive = c_is_active r,
      PR_AutoProvision = c_auto_provision r, PR_RenewalEnabled = c_renewal_enabled r,
      PR_CountryCode = c_country_code r, PR_StockStatus = c_stock_status r\<rparr>"

definition get_vendor_by_slug :: "string \<Rightarrow> StoreVendor act" where
  "get_vendor_by_slug slug =
     (case validate_slug slug of
        Some e \<Rightarrow> fail e
      | None \<Rightarrow> query (\<lambda>d. map_sum id store_vendor_of_row
          (select_first (\<lambda>r. v_slug r = slug \<and> v_deleted_at r = None) (vendors d))))"

text \<open>\<open>ORDER BY id DESC\<close>\<close>

definition list_products :: "int \<Rightarrow> Product list act" where
  "list_products vendorID =
     query (\<lambda>d. Inr (map product_of_row (rev (order_by c_id
       (filter (\<lambda>r. c_vendor_id r = vendorID \<and> c_deleted_at r = None) (catalog_items d))))))"

definition get_product :: "int \<Rightarrow> string \<Rightarrow> Product act" where
  "get_product vendorID slug =
     (case validate_slug slug of
        Some e \<Rightarrow> fail e
      | None \<Rightarrow> query (\<lambda>d. map_sum id product_of_row
          (select_first (\<lambda>r. c_vendor_id r = vendorID \<and> c_slug r = slug \<and> c_deleted_at r = None)
             (catalog_items d))))"

section \<open>Demo data\<close>

definition seed_item ::
  "int \<Rightarrow> string \<Rightarrow> string \<Rightarrow> string \<Rightarrow> string \<Rightarrow> int \<Rightarrow> int \<Rightarrow> int \<Rightarrow> string \<Rightarrow> string \<Rightarrow> CatalogItemInput"
where
  "seed_item vendorID slug title descr protocol inbound traffic price country stock =
     \<lparr>CI_VendorID = vendorID, CI_Slug = slug, CI_Title = title, CI_Description = descr,
      CI_Protocol = protocol, CI_InboundID = inbound, CI_XUINodeID = 1,
      CI_TrafficLimitGB = traffic, CI_DurationDays = 30, CI_PriceToman = price,
      CI_IsActive = True, CI_AutoProvision = True, CI_RenewalEnabled = True,
      CI_CountryCode = country, CI_StockStatus = stock\<rparr>"

definition seed_items :: "int \<Rightarrow> CatalogItemInput \<times> CatalogItemInput" where
  "seed_items vendorID =
     (seed_item vendorID ''premium-vless'' ''Premium VLESS'' ''Fast stable route'' ''vless'' 1
        200 199000 ''DE'' ''in_stock'',
      seed_item vendorID ''starter-trojan'' ''Starter Trojan'' ''Budget route'' ''trojan'' 2
        100 99000 ''NL'' ''low_stock'')"

text \<open>
  One statement inserts both rows, and either both are there or none; each takes a number
  from the sequence.
\<close>

definition insert_two :: "CatalogItemInput \<times> CatalogItemInput \<Rightarrow> unit act" where
  "insert_two items = roundtrip (\<lambda>w.
     let i = w_seq w TCatalogItems + 1;
         w1 = w\<lparr>w_seq := (w_seq w)(TCatalogItems := i)\<rparr>;
         w2 = w\<lparr>w_seq := (w_seq w)(TCatalogItems := i + 1)\<rparr>
     in case sql_insert_catalog (fst items) i (w_now w) (w_db w) of
          Inl e \<Rightarrow> (Inl e, w1)
        | Inr d1 \<Rightarrow>
            (case sql_insert_catalog (snd items) (i + 1) (w_now w) d1 of
               Inl e \<Rightarrow> (Inl e, w2)
             | Inr d2 \<Rightarrow> (Inr (), w2\<lparr>w_db := d2\<rparr>)))"

text \<open>Every error ends the seeding, and none is reported.\<close>

definition seed_demo :: "unit act" where
  "seed_demo =
     andThen (orElse 0 (query (\<lambda>d. Inr (length (filter (\<lambda>r. v_slug r = ''demo'') (vendors d)))))) (\<lambda>c.
     if 0 < c then ret ()
     else attempt (user_create ''demo@garuda.local'' ''x'' ''vendor'') (\<lambda>_. ret ()) (\<lambda>uid.
     attempt (insert_returning TVendors (sql_insert_vendor uid ''Demo Vendor'' ''demo''))
       (\<lambda>_. ret ()) (\<lambda>vid.
     orElse () (insert_two (seed_items vid)))))"

section \<open>Reads\<close>

lemma store_quiet [quiet_intros]:
  "via quiet_rel (get_vendor_by_slug s)" "via quiet_rel (list_products v)"
  "via quiet_rel (get_product v s)"
  unfolding get_vendor_by_slug_def list_products_def get_product_def
  by (auto split: option.splits intro!: quiet_intros)

lemma get_vendor_Inr:
  "get_vendor_by_slug slug w = (Inr v, w') \<Longrightarrow>
     \<exists>r\<in>set (vendors (w_db w)). v_slug r = slug \<and> v_deleted_at r = None \<and> v = store_vendor_of_row r"
  by (auto simp: get_vendor_by_slug_def fail_Inr query_Inr map_sum_Inr_iff split: option.splits
      dest!: select_first_InrD)

lemma get_product_Inr:
  "get_product vendorID slug w = (Inr p, w') \<Longrightarrow>
     \<exists>r\<in>set (catalog_items (w_db w)). c_vendor_id r = vendorID \<and> c_slug r = slug \<and>
       c_deleted_at r = None \<and> p = product_of_row r"
  by (auto simp: get_product_def fail_Inr query_Inr map_sum_Inr_iff split: option.splits
      dest!: select_first_InrD)

lemma list_products_Inr:
  "list_products vendorID w = (Inr ps, w') \<Longrightarrow>
     set ps = product_of_row ` {r \<in> set (catalog_items (w_db w)). c_vendor_id r = vendorID \<and>
       c_deleted_at r = None}"
  by (auto simp: list_products_def query_Inr)

end
