(* ===== verification/Http.thy ===== *)
theory Http
  imports OrderService ProxyService Storefront RateLimit AuditLog
begin

text \<open>
  Requests, responses and what stands between the network and the handlers:
  \<open>internal/middleware/jwt.go\<close>, \<open>internal/middleware/rbac.go\<close>, \<open>internal/rbac/rbac.go\<close>, the
  wrapper of \<open>internal/middleware/ratelimit.go\<close>, and the decoding and encoding helpers of
  \<open>internal/http\<close>, \<open>internal/order/handler.go\<close> and \<open>internal/proxy/handler.go\<close>.

  A handler is an action whose value is the response. It returns no Go error: an action
  that ends with one stands for a panic on its way up to the recovery wrapper.
\<close>

section \<open>Requests\<close>

text \<open>The values the middleware stores in the request context.\<close>

record ctx =
  cx_user_id :: "int option"
  cx_role :: "string option"
  cx_vendor_id :: "int option"

record request =
  rq_method :: string
  rq_path :: string
  rq_query :: string
  rq_header :: "(string \<times> string) list"
  rq_remote :: string
  rq_body :: string
  rq_ctx :: ctx

text \<open>The first header of a name counts, and the empty string stands for an absent one.\<close>

definition header_get :: "string \<Rightarrow> request \<Rightarrow> string" where
  "header_get name r =
     (case find (\<lambda>(k, _). same_name k name) (rq_header r) of None \<Rightarrow> [] | Some (_, v) \<Rightarrow> v)"

text \<open>
  \<open>url.ParseQuery\<close>: pairs between ampersands; one that holds a semicolon or a broken escape
  is dropped. The first value of a name counts.
\<close>

fun query_unescape :: "string \<Rightarrow> string option" where
  "query_unescape [] = Some []"
| "query_unescape (c # s) =
     (if c = CHR ''%'' then
        (case s of
           a # b # t \<Rightarrow>
             (case (hex_value a, hex_value b) of
                (Some x, Some y) \<Rightarrow> map_option (Cons (char_of (16 * x + y))) (query_unescape t)
              | _ \<Rightarrow> None)
         | _ \<Rightarrow> None)
      else map_option (Cons (if c = CHR ''+'' then CHR '' '' else c)) (query_unescape s))"

definition query_pair :: "string \<Rightarrow> (string \<times> string) option" where
  "query_pair p =
     (if p = [] \<or> CHR '';'' \<in> set p then None
      else
        (case (query_unescape (takeWhile (\<lambda>c. c \<noteq> CHR ''='') p),
               query_unescape (drop 1 (dropWhile (\<lambda>c. c \<noteq> CHR ''='') p))) of
           (Some k, Some v) \<Rightarrow> Some (k, v)
         | _ \<Rightarrow> None))"

definition parse_query :: "string \<Rightarrow> (string \<times> string) list" where
  "parse_query q = List.map_filter query_pair (split_on CHR ''&'' q)"

definition query_get :: "string \<Rightarrow> request \<Rightarrow> string" where
  "query_get name r = (case map_of (parse_query (rq_query r)) name of None \<Rightarrow> [] | Some v \<Rightarrow> v)"

text \<open>\<open>x, _ := strconv.ParseInt(r.URL.Query().Get(name), 10, 64)\<close>\<close>

definition query_int :: "string \<Rightarrow> request \<Rightarrow> int" where
  "query_int name r = parse_int64 (query_get name r)"

section \<open>Bodies\<close>

text \<open>\<open>json.NewDecoder(r.Body).Decode(&body)\<close>\<close>

definition decode_body :: "((string \<times> json) list \<Rightarrow> 'a option) \<Rightarrow> request \<Rightarrow> 'a option" where
  "decode_body dec r = decode_struct dec (decode_first (rq_body r))"

section \<open>Responses\<close>

text \<open>
  What is written as the body: a value (\<open>Wire\<close> has its JSON text), a text, or a page, which
  is the name of its template and the data the template is given. A response also carries the audit
  records whose insertion the handler has left to a goroutine.
\<close>

datatype page_data =
    D_title string
  | D_message string
  | D_vendor StoreVendor
  | D_products StoreVendor "Product list"
  | D_product StoreVendor Product
  | D_checkout StoreVendor Product int bool
  | D_summary int "ProxyServiceRecord list" "Order list"
  | D_services "ProxyServiceRecord list"
  | D_service ProxyServiceRecord string
  | D_orders "Order list"
  | D_wallet int "wtx_row list"

datatype content =
    R_error string
  | R_err err
  | R_text string
  | R_status string
  | R_token string
  | R_balance int
  | R_created CreateResponse
  | R_order Order
  | R_provisioned ServiceResponse
  | R_service ProxyServiceRecord
  | R_services "ProxyServiceRecord list"
  | R_vendors "Vendor list"
  | R_items "Product list"
  | R_panel_id int
  | R_panels "XUIPanelRecord list"
  | R_health bool bool bool string
  | R_page string page_data
  | R_stream
  | R_file string
  | R_redirect string

record response =
  rs_code :: int
  rs_header :: "(string \<times> string) list"
  rs_content :: content
  rs_audit :: "Entry list"

text \<open>\<open>w.Header().Set\<close> replaces, and what an outer wrapper has set stays otherwise.\<close>

definition set_header :: "string \<Rightarrow> string \<Rightarrow> (string \<times> string) list \<Rightarrow> (string \<times> string) list" where
  "set_header k v hs = (k, v) # filter (\<lambda>(a, _). a \<noteq> k) hs"

definition write_json :: "int \<Rightarrow> content \<Rightarrow> response" where
  "write_json code v = \<lparr>rs_code = code, rs_header = [(''Content-Type'', ''application/json'')],
     rs_content = v, rs_audit = []\<rparr>"

definition http_error :: "int \<Rightarrow> string \<Rightarrow> response" where
  "http_error code msg = write_json code (R_error msg)"

text \<open>The middleware writes its messages between quotes as they are.\<close>

definition json_error :: "int \<Rightarrow> string \<Rightarrow> response" where
  "json_error code msg = \<lparr>rs_code = code, rs_header = [(''Content-Type'', ''application/json'')],
     rs_content = R_text (''{\"error\":\"'' @ msg @ ''\"}''), rs_audit = []\<rparr>"

text \<open>\<open>http.Error\<close> of the standard library answers with a line of plain text.\<close>

definition plain_error :: "int \<Rightarrow> string \<Rightarrow> response" where
  "plain_error code msg = \<lparr>rs_code = code,
     rs_header = [(''Content-Type'', ''text/plain; charset=utf-8''),
                  (''X-Content-Type-Options'', ''nosniff'')],
     rs_content = R_text (msg @ [CHR 0x0A]), rs_audit = []\<rparr>"

definition audited :: "Entry \<Rightarrow> response \<Rightarrow> response" where
  "audited e rs = rs\<lparr>rs_audit := rs_audit rs @ [e]\<rparr>"

section \<open>Handlers and middleware\<close>

type_synonym 's served = "request \<Rightarrow> 's \<Rightarrow> (err + response) \<times> 's"
type_synonym handler = "world served"

text \<open>\<open>x, err := m; if err != nil { write h(err); return }\<close>: a panic is not an error.\<close>

definition checked :: "'a act \<Rightarrow> (err \<Rightarrow> response) \<Rightarrow> ('a \<Rightarrow> response act) \<Rightarrow> response act" where
  "checked m h k = attempt m (\<lambda>e. if is_panic e then fail e else ret (h e)) k"

definition extract_bearer :: "request \<Rightarrow> string" where
  "extract_bearer r =
     (let h = header_get ''Authorization'' r in
      if take 7 h = ''Bearer '' then drop 7 h else [])"

definition jwt :: "token_lib \<Rightarrow> string \<Rightarrow> 's served \<Rightarrow> 's served" where
  "jwt T secret next r s =
     (let token = extract_bearer r in
      if token = [] then (Inr (json_error 401 ''missing token''), s)
      else case parse_jwt T secret token of
             None \<Rightarrow> (Inr (json_error 401 ''invalid token''), s)
           | Some c \<Rightarrow> next (r\<lparr>rq_ctx := \<lparr>cx_user_id = Some (Sub c), cx_role = Some (Role c),
               cx_vendor_id = Some (VendorID c)\<rparr>\<rparr>) s)"

definition user_id_from_ctx :: "request \<Rightarrow> int" where
  "user_id_from_ctx r = (case cx_user_id (rq_ctx r) of None \<Rightarrow> 0 | Some v \<Rightarrow> v)"

definition role_from_ctx :: "request \<Rightarrow> string" where
  "role_from_ctx r = (case cx_role (rq_ctx r) of None \<Rightarrow> [] | Some v \<Rightarrow> v)"

definition vendor_id_from_ctx :: "request \<Rightarrow> int" where
  "vendor_id_from_ctx r = (case cx_vendor_id (rq_ctx r) of None \<Rightarrow> 0 | Some v \<Rightarrow> v)"

definition require_role :: "string list \<Rightarrow> 's served \<Rightarrow> 's served" where
  "require_role roles next r s =
     (if role_from_ctx r \<notin> set roles then (Inr (json_error 403 ''forbidden''), s)
      else next r s)"

text \<open>The loop runs from the last middleware to the first.\<close>

definition chain :: "'s served \<Rightarrow> ('s served \<Rightarrow> 's served) list \<Rightarrow> 's served" where
  "chain h mws = fold (\<lambda>mw g. mw g) (rev mws) h"

fun enforce :: "string \<Rightarrow> string list \<Rightarrow> err option" where
  "enforce role [] = Some (ErrNew ''forbidden'')"
| "enforce role (a # as) = (if role = a then None else enforce role as)"

text \<open>\<open>strings.TrimSpace\<close> on the ASCII spaces.\<close>

definition is_space :: "char \<Rightarrow> bool" where
  "is_space c \<longleftrightarrow> (of_char c :: nat) \<in> {9, 10, 11, 12, 13, 32}"

definition trim_space :: "string \<Rightarrow> string" where
  "trim_space s = rev (dropWhile is_space (rev (dropWhile is_space s)))"

definition rbac :: "string list \<Rightarrow> 's served \<Rightarrow> 's served" where
  "rbac roles next r s =
     (case enforce (trim_space (header_get ''X-Role'' r)) roles of
        Some _ \<Rightarrow> (Inr (plain_error 403 ''forbidden''), s)
      | None \<Rightarrow> next r s)"

definition client_ip :: "request \<Rightarrow> string" where
  "client_ip r = real_ip (header_get ''X-Forwarded-For'' r) (header_get ''X-Real-IP'' r) (rq_remote r)"

definition limit_requests :: "int \<Rightarrow> 's served \<Rightarrow> (limiter \<times> 's) served" where
  "limit_requests now next r ls =
     (case ls of (rl, s) \<Rightarrow>
        let (ok, rl1) = allow now (client_ip r) rl in
        if \<not> ok then
          (let rs = plain_error 429 ''{\"error\":\"rate limit exceeded\"}'' in
           (Inr (rs\<lparr>rs_header := set_header ''Retry-After'' ''60'' (rs_header rs)\<rparr>), (rl1, s)))
        else (let (x, s1) = next r s in (x, (rl1, s1))))"

definition secure_header_list :: "(string \<times> string) list" where
  "secure_header_list =
     [(''X-Content-Type-Options'', ''nosniff''), (''X-Frame-Options'', ''DENY''),
      (''X-XSS-Protection'', ''1; mode=block''),
      (''Referrer-Policy'', ''strict-origin-when-cross-origin''),
      (''Content-Security-Policy'', ''default-src '' @ CHR 0x27 # ''self'' @ [CHR 0x27])]"

definition secure_headers :: "'s served \<Rightarrow> 's served" where
  "secure_headers next r s =
     (case next r s of
        (Inl e, s1) \<Rightarrow> (Inl e, s1)
      | (Inr rs, s1) \<Rightarrow>
          (Inr (rs\<lparr>rs_header := fold (\<lambda>(k, v). set_header k v) (rs_header rs) secure_header_list\<rparr>), s1))"

text \<open>The wrapper of \<open>internal/http/server.go\<close> that turns a panic into an answer.\<close>

definition recovery :: "'s served \<Rightarrow> 's served" where
  "recovery next r s =
     (case next r s of
        (Inl e, s1) \<Rightarrow> (Inr (http_error 500 ''internal server error''), s1)
      | (Inr rs, s1) \<Rightarrow> (Inr rs, s1))"

section \<open>Guards\<close>

text \<open>
  The contract of a middleware that decides on the request alone: it answers for itself,
  with nothing done, or passes the request on, perhaps with another context. Two guards in
  a chain are a guard again.
\<close>

locale guard =
  fixes mw :: "handler \<Rightarrow> handler"
    and admit :: "request \<Rightarrow> response + request"
  assumes guarded: "mw next r w =
    (case admit r of Inl rs \<Rightarrow> (Inr rs, w) | Inr r1 \<Rightarrow> next r1 w)"
begin

lemma refused: "admit r = Inl rs \<Longrightarrow> mw next r w = (Inr rs, w)"
  by (simp add: guarded)

lemma admitted: "admit r = Inr r1 \<Longrightarrow> mw next r w = next r1 w"
  by (simp add: guarded)

lemma guarded_rel:
  assumes "mw next r w = (x, w1)" and "P w w"
    and "\<And>r1. admit r = Inr r1 \<Longrightarrow> next r1 w = (x, w1) \<Longrightarrow> P w w1"
  shows "P w w1"
  using assms by (auto simp: guarded split: sum.splits)

end

lemma chain_simps [simp]: "chain h [] = h" "chain h (mw # mws) = mw (chain h mws)"
  by (simp_all add: chain_def)

locale two_guards = first: guard mw1 admit1 + second: guard mw2 admit2
  for mw1 admit1 mw2 admit2
begin

definition admit_both :: "request \<Rightarrow> response + request" where
  "admit_both r = (case admit1 r of Inl rs \<Rightarrow> Inl rs | Inr r1 \<Rightarrow> admit2 r1)"

end

sublocale two_guards \<subseteq> both: guard "\<lambda>h. chain h [mw1, mw2]" admit_both
  by unfold_locales (simp add: admit_both_def first.guarded second.guarded split: sum.splits)

definition jwt_admit :: "token_lib \<Rightarrow> string \<Rightarrow> request \<Rightarrow> response + request" where
  "jwt_admit T secret r =
     (if extract_bearer r = [] then Inl (json_error 401 ''missing token'')
      else case parse_jwt T secret (extract_bearer r) of
             None \<Rightarrow> Inl (json_error 401 ''invalid token'')
           | Some c \<Rightarrow> Inr (r\<lparr>rq_ctx := \<lparr>cx_user_id = Some (Sub c), cx_role = Some (Role c),
               cx_vendor_id = Some (VendorID c)\<rparr>\<rparr>))"

definition role_admit :: "string list \<Rightarrow> request \<Rightarrow> response + request" where
  "role_admit roles r =
     (if role_from_ctx r \<in> set roles then Inr r else Inl (json_error 403 ''forbidden''))"

definition rbac_admit :: "string list \<Rightarrow> request \<Rightarrow> response + request" where
  "rbac_admit roles r =
     (if trim_space (header_get ''X-Role'' r) \<in> set roles then Inr r
      else Inl (plain_error 403 ''forbidden''))"

lemma enforce_iff: "enforce role roles = None \<longleftrightarrow> role \<in> set roles"
  by (induction roles) auto

interpretation jwt_guard: guard "jwt T secret" "jwt_admit T secret" for T secret
  by unfold_locales (simp add: jwt_def jwt_admit_def Let_def split: option.splits)

interpretation role_guard: guard "require_role roles" "role_admit roles" for roles
  by unfold_locales (simp add: require_role_def role_admit_def)

interpretation rbac_guard: guard "rbac roles" "rbac_admit roles" for roles
  by unfold_locales (auto simp: rbac_def rbac_admit_def enforce_iff [symmetric] split: option.splits)

interpretation protected: two_guards "jwt T secret" "jwt_admit T secret"
    "require_role roles" "role_admit roles" for T secret roles
  by unfold_locales

text \<open>Whom the two guards of a protected route let through, and what the handler then sees.\<close>

lemma protected_admit:
  "protected.admit_both T secret roles r = Inr r1 \<longleftrightarrow>
     (\<exists>c. extract_bearer r \<noteq> [] \<and> parse_jwt T secret (extract_bearer r) = Some c \<and>
        Role c \<in> set roles \<and>
        r1 = r\<lparr>rq_ctx := \<lparr>cx_user_id = Some (Sub c), cx_role = Some (Role c),
               cx_vendor_id = Some (VendorID c)\<rparr>\<rparr>)"
  by (auto simp: protected.admit_both_def jwt_admit_def role_admit_def role_from_ctx_def
      split: sum.splits option.splits if_splits)

lemma protected_refuse:
  "protected.admit_both T secret roles r = Inl rs \<Longrightarrow> rs_code rs = 401 \<or> rs_code rs = 403"
  by (auto simp: protected.admit_both_def jwt_admit_def role_admit_def json_error_def
      split: sum.splits option.splits if_splits)

section \<open>Headers and limits\<close>

lemma map_of_set_header: "map_of (set_header k v hs) a = (if a = k then Some v else map_of hs a)"
  by (induction hs) (auto simp: set_header_def)

lemma map_of_fold_headers:
  "k \<notin> fst ` set xs \<Longrightarrow> map_of (fold (\<lambda>(k, v). set_header k v) xs hs) k = map_of hs k"
  by (induction xs arbitrary: hs) (auto simp: map_of_set_header)

lemma limit_requests_refused:
  assumes "\<not> fst (allow now (client_ip r) rl)"
  shows "\<exists>rs rl1. limit_requests now next r (rl, w) = (Inr rs, (rl1, w)) \<and> rs_code rs = 429"
  using assms
  by (auto simp: limit_requests_def plain_error_def Let_def split: prod.splits)

lemma limit_requests_passed:
  assumes "fst (allow now (client_ip r) rl)"
  shows "limit_requests now next r (rl, w) =
     (fst (next r w), (snd (allow now (client_ip r) rl), snd (next r w)))"
  using assms by (auto simp: limit_requests_def Let_def split: prod.splits)

lemma quiet_checked [quiet_intros]:
  assumes "via quiet_rel m" and "\<And>x. via quiet_rel (k x)"
  shows "via quiet_rel (checked m h k)"
  unfolding via_def
proof
  fix w
  obtain r w1 where m: "m w = (r, w1)" by (cases "m w")
  have "quiet_rel w w1" using assms(1) m by (rule viaD)
  moreover have "quiet_rel w1 (snd (k x w1))" for x using assms(2) by (simp add: via_def)
  ultimately show "quiet_rel w (snd (checked m h k w))"
    by (cases r) (auto simp: checked_def attempt_def m fail_def ret_def intro: quiet_rel_trans)
qed

lemma checked_cases:
  assumes "checked m h k w = (x, w1)"
  obtains (panic) e where "m w = (Inl e, w1)" "is_panic e" "x = Inl e"
  | (error) e where "m w = (Inl e, w1)" "\<not> is_panic e" "x = Inr (h e)"
  | (ok) y w2 where "m w = (Inr y, w2)" "k y w2 = (x, w1)"
proof (cases "m w")
  case (Pair z w2)
  with assms that show thesis
    by (cases z) (auto simp: checked_def attempt_def fail_def ret_def split: if_splits)
qed

end
