(* ===== verification/Pages.thy ===== *)
theory Pages
  imports Http
begin

text \<open>
  The two routers that render pages: the public storefront
  (\<open>internal/storefront/handler.go\<close>) and the dashboard of a signed-in user
  (\<open>internal/dashboard/handler.go\<close>). A page is the name of its template and the data.
\<close>

section \<open>Paths\<close>

text \<open>\<open>strings.TrimPrefix\<close> and \<open>strings.Trim\<close> with a one-character set.\<close>

definition trim_prefix :: "string \<Rightarrow> string \<Rightarrow> string" where
  "trim_prefix p s = (if take (length p) s = p then drop (length p) s else s)"

definition trim_char :: "char \<Rightarrow> string \<Rightarrow> string" where
  "trim_char c s = rev (dropWhile (\<lambda>x. x = c) (rev (dropWhile (\<lambda>x. x = c) s)))"

definition path_below :: "string \<Rightarrow> request \<Rightarrow> string" where
  "path_below prefix r = trim_char CHR ''/'' (trim_prefix prefix (rq_path r))"

section \<open>Storefront\<close>

text \<open>The pages set no content type themselves: the server sniffs HTML.\<close>

definition render :: "string \<Rightarrow> page_data \<Rightarrow> int \<Rightarrow> response" where
  "render name d code =
     \<lparr>rs_code = code, rs_header = [], rs_content = R_page name d, rs_audit = []\<rparr>"

definition not_found_page :: "string \<Rightarrow> response" where
  "not_found_page msg = render ''not_found.html'' (D_message msg) 404"

definition product_page ::
  "StoreVendor \<Rightarrow> string \<Rightarrow> (Product \<Rightarrow> response act) \<Rightarrow> response act" where
  "product_page vendor slug k =
     checked (get_product (SV_ID vendor) slug) (\<lambda>_. not_found_page ''product not found'') (\<lambda>pdt.
     if \<not> PR_IsActive pdt then ret (not_found_page ''product not found'') else k pdt)"

definition checkout_page :: "token_lib \<Rightarrow> string \<Rightarrow> request \<Rightarrow> StoreVendor \<Rightarrow> Product \<Rightarrow> response act" where
  "checkout_page T secret r vendor pdt =
     (let login = render ''checkout_login.html'' (D_product vendor pdt) 200;
          token = extract_bearer r
      in if token = [] then ret login
         else case parse_jwt T secret token of
                None \<Rightarrow> ret login
              | Some claims \<Rightarrow>
                  andThen (orElse 0 (wallet_service_balance (Sub claims))) (\<lambda>bal.
                  ret (render ''checkout.html''
                    (D_checkout vendor pdt bal (PR_PriceToman pdt \<le> bal)) 200)))"

definition vendor_page :: "StoreVendor \<Rightarrow> response act" where
  "vendor_page vendor =
     andThen (orElse [] (list_products (SV_ID vendor))) (\<lambda>prods.
     ret (render ''vendor.html'' (D_products vendor prods) 200))"

definition store_segments :: "token_lib \<Rightarrow> string \<Rightarrow> request \<Rightarrow> string list \<Rightarrow> StoreVendor \<Rightarrow> response act"
where
  "store_segments T secret r seg vendor =
     (if length seg = 1 \<or> (length seg = 2 \<and> seg ! 1 = []) then vendor_page vendor
      else if length seg = 2 \<and> seg ! 1 = ''products'' then vendor_page vendor
      else if length seg = 3 \<and> seg ! 1 = ''products'' then
        product_page vendor (seg ! 2)
          (\<lambda>pdt. ret (render ''product.html'' (D_product vendor pdt) 200))
      else if length seg = 4 \<and> seg ! 1 = ''products'' \<and> seg ! 3 = ''checkout'' then
        product_page vendor (seg ! 2) (checkout_page T secret r vendor)
      else if length seg = 2 \<and> seg ! 1 = ''purchase-success'' then
        ret (render ''purchase_success.html'' (D_vendor vendor) 200)
      else if length seg = 2 \<and> seg ! 1 = ''purchase-failed'' then
        ret (render ''purchase_failed.html'' (D_vendor vendor) 200)
      else ret (not_found_page ''page not found''))"

definition store_router :: "token_lib \<Rightarrow> string \<Rightarrow> handler" where
  "store_router T secret r =
     (let p = path_below ''/store'' r in
      if p = [] then ret (render ''index.html'' (D_title ''GarudaPanel'') 200)
      else
        let seg = split_on CHR ''/'' p in
        checked (get_vendor_by_slug (hd seg)) (\<lambda>_. not_found_page ''vendor not found'') (\<lambda>vendor.
        if SV_Status vendor \<noteq> ''active'' then ret (not_found_page ''vendor suspended'')
        else store_segments T secret r seg vendor))"

section \<open>Dashboard\<close>

text \<open>\<open>qr\<close> is the QR encoder with the base64 text around it, a third-party package.\<close>

definition dashboard_summary :: "int \<Rightarrow> response act" where
  "dashboard_summary userID =
     andThen (orElse 0 (wallet_service_balance userID)) (\<lambda>bal.
     andThen (orElse [] (proxy_list_all_by_user userID)) (\<lambda>svcs.
     andThen (orElse [] (orders_list_by_user userID 10)) (\<lambda>ords.
     ret (render ''dashboard_index.html'' (D_summary bal svcs ords) 200))))"

definition dashboard_services :: "(string \<Rightarrow> string) \<Rightarrow> int \<Rightarrow> string list \<Rightarrow> response act" where
  "dashboard_services qr userID seg =
     (if length seg = 1 then
        andThen (orElse [] (proxy_list_all_by_user userID)) (\<lambda>svcs.
        ret (render ''dashboard_services.html'' (D_services svcs) 200))
      else
        checked (proxy_by_id_for_user (parse_int64 (seg ! 1)) userID)
          (\<lambda>_. plain_error 404 ''not found'') (\<lambda>rc.
        ret (render ''dashboard_service_detail.html''
          (D_service rc (if PS_SubscriptionURL rc \<noteq> [] then qr (PS_SubscriptionURL rc) else [])) 200)))"

definition dashboard_router :: "(string \<Rightarrow> string) \<Rightarrow> handler" where
  "dashboard_router qr r =
     (let p = path_below ''/dashboard'' r; userID = user_id_from_ctx r in
      if p = [] then dashboard_summary userID
      else
        let seg = split_on CHR ''/'' p in
        if hd seg = ''services'' then dashboard_services qr userID seg
        else if hd seg = ''orders'' then
          andThen (orElse [] (orders_list_by_user userID 50)) (\<lambda>ords.
          ret (render ''dashboard_orders.html'' (D_orders ords) 200))
        else if hd seg = ''wallet'' then
          andThen (orElse 0 (wallet_service_balance userID)) (\<lambda>bal.
          andThen (orElse [] (list_transactions userID 20)) (\<lambda>txs.
          ret (render ''dashboard_wallet.html'' (D_wallet bal txs) 200)))
        else ret (plain_error 404 ''404 page not found''))"

section \<open>Pages only read\<close>

lemma store_pages_quiet:
  "via quiet_rel (vendor_page v)" "via quiet_rel (checkout_page T secret r v p)"
  "(\<And>p. via quiet_rel (k p)) \<Longrightarrow> via quiet_rel (product_page v s k)"
  unfolding vendor_page_def checkout_page_def product_page_def wallet_service_balance_def wallet_balance_def
  by (auto simp: Let_def split: option.splits intro!: quiet_intros)

lemma store_router_quiet [quiet_intros]: "via quiet_rel (store_router T secret r)"
proof -
  have "via quiet_rel (store_segments T secret r seg v)" for seg v
    unfolding store_segments_def by (intro quiet_intros store_pages_quiet)
  then show ?thesis
    unfolding store_router_def Let_def by (intro quiet_intros)
qed

lemma dashboard_quiet [quiet_intros]: "via quiet_rel (dashboard_router qr r)"
  unfolding dashboard_router_def dashboard_summary_def dashboard_services_def Let_def
    wallet_service_balance_def wallet_balance_def proxy_list_all_by_user_def list_proxies_def
    orders_list_by_user_def list_transactions_def proxy_by_id_for_user_def select_proxy_def
  by (intro quiet_intros)

end
