(* ===== verification/Handlers.thy ===== *)
theory Handlers
  imports Pages PanelRepo
begin

text \<open>
  The JSON endpoints: the closures of \<open>internal/http/server.go\<close>, the routers of
  \<open>internal/http/api/router.go\<close> and \<open>internal/proxy/handler.go\<close>, the order handler of
  \<open>internal/order/handler.go\<close> (which the server does not register), and the record the
  audit log is given for a request.
\<close>

section \<open>Audit records\<close>

definition audit_from_request :: "request \<Rightarrow> string \<Rightarrow> string \<Rightarrow> string \<Rightarrow> Entry" where
  "audit_from_request r action resource status =
     \<lparr>E_VendorID = None, E_UserID = None, E_ActorRole = [], E_Action = action,
      E_Resource = resource, E_ResourceID = None, E_IP = client_ip r,
      E_UserAgent = header_get ''User-Agent'' r, E_Status = status, E_Detail = []\<rparr>"

section \<open>What the server is configured with\<close>

text \<open>
  The secrets, the libraries outside the program, the probes of \<open>/health\<close>, and the random
  bytes the request draws.
\<close>

record server_env =
  sv_crypto :: crypto
  sv_tokens :: token_lib
  sv_jwt_secret :: string
  sv_panel_key :: string
  sv_url_ok :: "string \<Rightarrow> bool"
  sv_qr :: "string \<Rightarrow> string"
  sv_app_env :: string
  sv_redis :: string
  sv_minio :: string
  sv_dial :: "string \<Rightarrow> bool"
  sv_templates :: bool
  sv_files :: "string \<Rightarrow> response"
  sv_salt :: string
  sv_uuid :: "8 word list"

section \<open>Accounts\<close>

definition bad_request :: "response act" where
  "bad_request = ret (http_error 400 ''bad request'')"

definition post_only :: "request \<Rightarrow> response act \<Rightarrow> response act" where
  "post_only r k = (if rq_method r \<noteq> ''POST'' then ret (http_error 405 ''method not allowed'') else k)"

definition with_body ::
  "((string \<times> json) list \<Rightarrow> 'a option) \<Rightarrow> request \<Rightarrow> ('a \<Rightarrow> response act) \<Rightarrow> response act" where
  "with_body dec r k = (case decode_body dec r of None \<Rightarrow> bad_request | Some b \<Rightarrow> k b)"

definition err_400 :: "err \<Rightarrow> response" where
  "err_400 e = write_json 400 (R_err e)"

definition credentials :: "(string \<times> json) list \<Rightarrow> (string \<times> string) option" where
  "credentials ob =
     Option.bind (str_field ''Email'' ob) (\<lambda>email.
     Option.bind (str_field ''Password'' ob) (\<lambda>password.
     Some (email, password)))"

definition api_register :: "server_env \<Rightarrow> handler" where
  "api_register E r =
     with_body credentials r (\<lambda>(email, password).
     checked (auth_register (sv_crypto E) (sv_salt E) email password) err_400 (\<lambda>_.
     ret (write_json 201 (R_status ''registered''))))"

definition api_login :: "server_env \<Rightarrow> handler" where
  "api_login E r =
     with_body credentials r (\<lambda>(email, password).
     checked (auth_login (sv_crypto E) (sv_tokens E) (sv_jwt_secret E) email password)
       (\<lambda>_. http_error 401 ''unauthorized'') (\<lambda>t.
     ret (write_json 200 (R_token t))))"

definition vendor_fields :: "(string \<times> json) list \<Rightarrow> (int \<times> string \<times> string) option" where
  "vendor_fields ob =
     Option.bind (int_field ''owner_id'' ob) (\<lambda>owner.
     Option.bind (str_field ''Name'' ob) (\<lambda>name.
     Option.bind (str_field ''Slug'' ob) (\<lambda>slug.
     Some (owner, name, slug))))"

definition api_vendor_create :: handler where
  "api_vendor_create r =
     with_body vendor_fields r (\<lambda>(owner, name, slug).
     checked (vendor_service_create owner name slug) err_400 (\<lambda>_.
     ret (write_json 201 (R_status ''created''))))"

definition api_vendor_list :: handler where
  "api_vendor_list r =
     checked (vendor_service_list (query_int ''owner_id'' r)) err_400 (\<lambda>vs.
     ret (write_json 200 (R_vendors vs)))"

definition api_wallet_balance :: handler where
  "api_wallet_balance r =
     checked (wallet_service_balance (query_int ''user_id'' r))
       (\<lambda>_. http_error 404 ''wallet not found'') (\<lambda>bal.
     ret (write_json 200 (R_balance bal)))"

section \<open>Orders\<close>

definition order_fields :: "(string \<times> json) list \<Rightarrow> (int \<times> int \<times> string) option" where
  "order_fields ob =
     Option.bind (int_field ''vendor_id'' ob) (\<lambda>vendor.
     Option.bind (int_field ''catalog_id'' ob) (\<lambda>catalog.
     Option.bind (str_field ''idempotency_key'' ob) (\<lambda>key.
     Some (vendor, catalog, key))))"

definition server_order_create :: handler where
  "server_order_create r =
     post_only r (with_body order_fields r (\<lambda>(vendor, catalog, key).
     checked (order_create \<lparr>R_VendorID = vendor, R_UserID = user_id_from_ctx r,
         R_CatalogID = catalog, R_IdempotencyKey = key\<rparr>)
       (\<lambda>e. audited (audit_from_request r ''order.create'' ''order'' ''error'') (err_400 e)) (\<lambda>resp.
     ret (audited (audit_from_request r ''order.create'' ''order'' ''ok'')
       (write_json (if RS_Duplicate resp then 200 else 201) (R_created resp))))))"

definition server_order_renew :: handler where
  "server_order_renew r =
     post_only r (
     let sid = parse_int64 (trim_prefix ''/api/v1/order/renew/'' (rq_path r)) in
     if sid = 0 then ret (http_error 400 ''invalid service id'')
     else
       checked (order_renew (user_id_from_ctx r) sid)
         (\<lambda>e. audited (audit_from_request r ''order.renew'' ''order'' ''error'') (err_400 e)) (\<lambda>resp.
       ret (audited (audit_from_request r ''order.renew'' ''order'' ''ok'')
         (write_json 201 (R_created resp)))))"

definition server_order_get :: handler where
  "server_order_get r =
     checked (orders_by_id (query_int ''vendor_id'' r) (query_int ''order_id'' r))
       (\<lambda>_. http_error 404 ''not found'') (\<lambda>ord.
     if role_from_ctx r = ''user'' \<and> O_UserID ord \<noteq> user_id_from_ctx r
     then ret (http_error 403 ''forbidden'')
     else ret (write_json 200 (R_order ord)))"

text \<open>The handler of the order package takes the user from the body.\<close>

definition order_fields_user :: "(string \<times> json) list \<Rightarrow> (int \<times> int \<times> int \<times> string) option" where
  "order_fields_user ob =
     Option.bind (int_field ''vendor_id'' ob) (\<lambda>vendor.
     Option.bind (int_field ''user_id'' ob) (\<lambda>user.
     Option.bind (int_field ''catalog_id'' ob) (\<lambda>catalog.
     Option.bind (str_field ''idempotency_key'' ob) (\<lambda>key.
     Some (vendor, user, catalog, key)))))"

definition handler_create :: handler where
  "handler_create r =
     post_only r (with_body order_fields_user r (\<lambda>(vendor, user, catalog, key).
     checked (order_create \<lparr>R_VendorID = vendor, R_UserID = user, R_CatalogID = catalog,
         R_IdempotencyKey = key\<rparr>) err_400 (\<lambda>resp.
     ret (write_json (if RS_Duplicate resp then 200 else 201) (R_created resp)))))"

definition handler_get :: handler where
  "handler_get r =
     (let vendorID = query_int ''vendor_id'' r; orderID = query_int ''order_id'' r in
      if vendorID = 0 \<or> orderID = 0
      then ret (http_error 400 ''vendor_id and order_id required'')
      else
        checked (orders_by_id vendorID orderID) (\<lambda>_. http_error 404 ''order not found'') (\<lambda>ord.
        ret (write_json 200 (R_order ord))))"

section \<open>Proxy services\<close>

definition provision_fields ::
  "(string \<times> json) list \<Rightarrow> (int \<times> int \<times> int option \<times> string \<times> int \<times> int) option" where
  "provision_fields ob =
     Option.bind (int_field ''vendor_id'' ob) (\<lambda>vendor.
     Option.bind (int_field ''user_id'' ob) (\<lambda>user.
     Option.bind (int_ptr_field ''order_id'' ob) (\<lambda>orderID.
     Option.bind (str_field ''protocol'' ob) (\<lambda>protocol.
     Option.bind (int_field ''traffic_limit_gb'' ob) (\<lambda>traffic.
     Option.bind (int_field ''duration_days'' ob) (\<lambda>days.
     Some (vendor, user, orderID, protocol, traffic, days)))))))"

definition proxy_handler_provision :: "server_env \<Rightarrow> handler" where
  "proxy_handler_provision E r =
     post_only r (with_body provision_fields r (\<lambda>(vendor, user, orderID, protocol, traffic, days).
     checked (proxy_provision (sv_crypto E) (sv_panel_key E) (sv_url_ok E) (sv_uuid E)
         \<lparr>SQ_VendorID = vendor, SQ_UserID = user, SQ_OrderID = orderID,
          SQ_Protocol = (if protocol = [] then ''vless'' else protocol),
          SQ_TrafficLimitGB = (if traffic = 0 then 100 else traffic),
          SQ_DurationDays = (if days = 0 then 30 else days)\<rparr>) err_400 (\<lambda>resp.
     ret (write_json 201 (R_provisioned resp)))))"

definition proxy_handler_get :: handler where
  "proxy_handler_get r =
     (let vendorID = query_int ''vendor_id'' r; serviceID = query_int ''service_id'' r in
      if vendorID = 0 \<or> serviceID = 0
      then ret (http_error 400 ''vendor_id and service_id required'')
      else
        checked (service_get_by_id vendorID serviceID)
          (\<lambda>_. http_error 404 ''service not found'') (\<lambda>rc.
        ret (write_json 200 (R_service rc))))"

definition proxy_handler_list :: handler where
  "proxy_handler_list r =
     (let vendorID = query_int ''vendor_id'' r; userID = query_int ''user_id'' r in
      if vendorID = 0 \<or> userID = 0
      then ret (http_error 400 ''vendor_id and user_id required'')
      else
        checked (service_list_by_user vendorID userID)
          (\<lambda>_. http_error 500 ''failed to list services'') (\<lambda>rcs.
        ret (write_json 200 (R_services rcs))))"

definition service_fields :: "(string \<times> json) list \<Rightarrow> (int \<times> int) option" where
  "service_fields ob =
     Option.bind (int_field ''vendor_id'' ob) (\<lambda>vendor.
     Option.bind (int_field ''service_id'' ob) (\<lambda>service.
     Some (vendor, service)))"

definition proxy_handler_suspend :: handler where
  "proxy_handler_suspend r =
     post_only r (with_body service_fields r (\<lambda>(vendor, service).
     checked (service_suspend vendor service) err_400 (\<lambda>_.
     ret (write_json 200 (R_status ''suspended'')))))"

definition proxy_handler_resume :: handler where
  "proxy_handler_resume r =
     post_only r (with_body service_fields r (\<lambda>(vendor, service).
     checked (service_resume vendor service) err_400 (\<lambda>_.
     ret (write_json 200 (R_status ''active'')))))"

section \<open>Vendors and administrators\<close>

definition item_fields :: "(string \<times> json) list \<Rightarrow> CatalogItemInput option" where
  "item_fields ob =
     Option.bind (int_field ''vendor_id'' ob) (\<lambda>vendor.
     Option.bind (str_field ''slug'' ob) (\<lambda>slug.
     Option.bind (str_field ''title'' ob) (\<lambda>title.
     Option.bind (str_field ''description'' ob) (\<lambda>description.
     Option.bind (str_field ''protocol'' ob) (\<lambda>protocol.
     Option.bind (int_field ''inbound_id'' ob) (\<lambda>inbound.
     Option.bind (int_field ''xui_node_id'' ob) (\<lambda>node.
     Option.bind (int_field ''traffic_limit_gb'' ob) (\<lambda>traffic.
     Option.bind (int_field ''duration_days'' ob) (\<lambda>days.
     Option.bind (int_field ''price_toman'' ob) (\<lambda>price.
     Option.bind (bool_field ''is_active'' ob) (\<lambda>active.
     Option.bind (bool_field ''auto_provision'' ob) (\<lambda>auto.
     Option.bind (bool_field ''renewal_enabled'' ob) (\<lambda>renewal.
     Option.bind (str_field ''country_code'' ob) (\<lambda>country.
     Option.bind (str_field ''stock_status'' ob) (\<lambda>stock.
     Some \<lparr>CI_VendorID = vendor, CI_Slug = slug, CI_Title = title,
       CI_Description = description, CI_Protocol = protocol, CI_InboundID = inbound,
       CI_XUINodeID = node, CI_TrafficLimitGB = traffic, CI_DurationDays = days,
       CI_PriceToman = price, CI_IsActive = active, CI_AutoProvision = auto,
       CI_RenewalEnabled = renewal, CI_CountryCode = country, CI_StockStatus = stock\<rparr>)))))))))))))))"

definition server_catalog_create :: handler where
  "server_catalog_create r =
     post_only r (with_body item_fields r (\<lambda>item.
     checked (catalog_create item) err_400 (\<lambda>_.
     ret (audited (audit_from_request r ''catalog.create'' ''catalog_item'' ''ok'')
       (write_json 201 (R_status ''created''))))))"

text \<open>The query names no order; the model lists the rows as they are stored.\<close>

definition server_catalog_list :: handler where
  "server_catalog_list r =
     (let vid = query_int ''vendor_id'' r in
      checked (query (\<lambda>d. Inr (map product_of_row
          (filter (\<lambda>c. c_vendor_id c = vid \<and> c_deleted_at c = None) (catalog_items d))))) err_400 (\<lambda>items.
      ret (write_json 200 (R_items items))))"

definition panel_fields :: "(string \<times> json) list \<Rightarrow> (int \<times> string \<times> string \<times> string \<times> int) option" where
  "panel_fields ob =
     Option.bind (int_field ''vendor_id'' ob) (\<lambda>vendor.
     Option.bind (str_field ''name'' ob) (\<lambda>name.
     Option.bind (str_field ''url'' ob) (\<lambda>url.
     Option.bind (str_field ''token'' ob) (\<lambda>token.
     Option.bind (int_field ''inbound_id'' ob) (\<lambda>inbound.
     Some (vendor, name, url, token, inbound))))))"

definition server_panel_add :: "server_env \<Rightarrow> handler" where
  "server_panel_add E r =
     post_only r (with_body panel_fields r (\<lambda>(vendor, name, url, token, inbound).
     checked (panel_create (sv_crypto E) (sv_panel_key E)
         \<lparr>XP_ID = 0, XP_VendorID = vendor, XP_Name = name, XP_URL = url, XP_Token = token,
          XP_InboundID = inbound, XP_IsActive = True, XP_Health = [], XP_LastChecked = None\<rparr>)
       err_400 (\<lambda>i.
     ret (audited (audit_from_request r ''panel.add'' ''xui_panel'' ''ok'')
       (write_json 201 (R_panel_id i))))))"

definition server_panel_list :: "server_env \<Rightarrow> handler" where
  "server_panel_list E r =
     checked (panel_list_by_vendor (sv_crypto E) (sv_panel_key E) (query_int ''vendor_id'' r))
       err_400 (\<lambda>ps.
     ret (write_json 200 (R_panels ps)))"

definition topup_fields :: "(string \<times> json) list \<Rightarrow> (int \<times> int) option" where
  "topup_fields ob =
     Option.bind (int_field ''user_id'' ob) (\<lambda>user.
     Option.bind (int_field ''amount'' ob) (\<lambda>amount.
     Some (user, amount)))"

definition server_topup :: handler where
  "server_topup r =
     post_only r (with_body topup_fields r (\<lambda>(user, amount).
     checked (apply_transaction user amount ''admin_topup'') err_400 (\<lambda>_.
     ret (audited (audit_from_request r ''wallet.topup'' ''wallet'' ''ok'')
       (write_json 200 (R_status ''ok''))))))"

section \<open>Health\<close>

definition probe_tcp :: "server_env \<Rightarrow> string \<Rightarrow> bool" where
  "probe_tcp E addr \<longleftrightarrow> addr \<noteq> [] \<and> sv_dial E addr"

definition server_health :: "server_env \<Rightarrow> handler" where
  "server_health E r =
     andThen (attempt (roundtrip (ret ())) (\<lambda>_. ret False) (\<lambda>_. ret True)) (\<lambda>pg.
     ret (write_json 200
       (R_health pg (probe_tcp E (sv_redis E)) (probe_tcp E (sv_minio E)) (sv_app_env E))))"

end
