(* ===== verification/Server.thy ===== *)
theory Server
  imports Handlers
begin

text \<open>
  The server of \<open>internal/http/server.go\<close>: which pattern leads to which handler through
  which middleware, and the wrapping of the whole in headers, rate limit and recovery.
  \<open>serve\<close> is one request from the connection to the answer.
\<close>

section \<open>Pattern matching\<close>

text \<open>
  \<open>http.ServeMux\<close>: a pattern that ends with a slash stands for everything below it, any
  other for itself, and the longest match wins. A path that is not in its shortest form is
  redirected to that form, and a path whose pattern is registered only with a final slash
  to the one with the slash. \<open>CONNECT\<close> requests are matched as they are.
\<close>

definition ends_slash :: "string \<Rightarrow> bool" where
  "ends_slash p \<longleftrightarrow> p \<noteq> [] \<and> last p = CHR ''/''"

fun clean_segments :: "string list \<Rightarrow> string list \<Rightarrow> string list" where
  "clean_segments acc [] = rev acc"
| "clean_segments acc (s # ss) =
     (if s = [] \<or> s = ''.'' then clean_segments acc ss
      else if s = ''..'' then clean_segments (tl acc) ss
      else clean_segments (s # acc) ss)"

definition clean_path :: "string \<Rightarrow> string" where
  "clean_path p =
     (let np = concat (map (Cons CHR ''/'') (clean_segments [] (split_on CHR ''/'' p))) in
      if np = [] then ''/'' else if ends_slash p then np @ ''/'' else np)"

type_synonym routes = "(string \<times> handler) list"

definition pattern_matches :: "string \<Rightarrow> string \<Rightarrow> bool" where
  "pattern_matches pat p \<longleftrightarrow> (if ends_slash pat then take (length pat) p = pat else pat = p)"

definition find_route :: "routes \<Rightarrow> string \<Rightarrow> (string \<times> handler) option" where
  "find_route rts p =
     (case filter (\<lambda>(pat, _). pattern_matches pat p) rts of
        [] \<Rightarrow> None
      | m # ms \<Rightarrow> Some (fold (\<lambda>a b. if length (fst b) < length (fst a) then a else b) ms m))"

definition has_pattern :: "routes \<Rightarrow> string \<Rightarrow> bool" where
  "has_pattern rts p \<longleftrightarrow> list_ex (\<lambda>(pat, _). pat = p) rts"

definition redirect :: "string \<Rightarrow> response" where
  "redirect p = \<lparr>rs_code = 301, rs_header = [(''Location'', p)], rs_content = R_redirect p,
     rs_audit = []\<rparr>"

definition serve_mux :: "routes \<Rightarrow> handler" where
  "serve_mux rts r =
     (let p = (if rq_method r = ''CONNECT'' then rq_path r else clean_path (rq_path r)) in
      if \<not> has_pattern rts p \<and> \<not> ends_slash p \<and> has_pattern rts (p @ ''/'') then
        ret (redirect (p @ ''/''))
      else if p \<noteq> rq_path r then ret (redirect p)
      else case find_route rts p of
             None \<Rightarrow> ret (plain_error 404 ''404 page not found'')
           | Some (_, h) \<Rightarrow> h r)"

section \<open>Routes\<close>

definition user_roles :: "string list" where
  "user_roles = [''user'', ''vendor'', ''admin'']"

definition vend_roles :: "string list" where
  "vend_roles = [''vendor'', ''admin'']"

definition admin_roles :: "string list" where
  "admin_roles = [''admin'']"

definition protect :: "server_env \<Rightarrow> string list \<Rightarrow> handler \<Rightarrow> handler" where
  "protect E roles h = chain h [jwt (sv_tokens E) (sv_jwt_secret E), require_role roles]"

text \<open>Files below \<open>public/assets\<close>: what the file server answers is outside the model.\<close>

definition asset_files :: "server_env \<Rightarrow> handler" where
  "asset_files E r = ret (sv_files E (trim_prefix ''/assets/'' (rq_path r)))"

text \<open>
  The stream of notifications answers at once and then follows the hub (\<open>Events\<close>). The
  client \<open>c\<close> it registers is new.
\<close>

definition hub_ws :: handler where
  "hub_ws r w =
     (Inr \<lparr>rs_code = 200, rs_header = [(''Cache-Control'', ''no-cache''),
         (''Content-Type'', ''text/event-stream'')], rs_content = R_stream, rs_audit = []\<rparr>,
      w\<lparr>w_hub := ws_open (Suc (fold max (map fst (clients (w_hub w))) 0)) (w_hub w)\<rparr>)"

definition store_routes :: "server_env \<Rightarrow> routes" where
  "store_routes E =
     (if sv_templates E then
        [(''/store'', store_router (sv_tokens E) (sv_jwt_secret E)),
         (''/store/'', store_router (sv_tokens E) (sv_jwt_secret E))]
      else [])"

definition api_routes :: "server_env \<Rightarrow> routes" where
  "api_routes E =
     [(''/api/v1/auth/register'', api_register E),
      (''/api/v1/auth/login'', api_login E),
      (''/api/v1/vendor/create'', api_vendor_create),
      (''/api/v1/vendor/list'', api_vendor_list),
      (''/api/v1/wallet/balance'', api_wallet_balance)]"

definition proxy_routes :: "server_env \<Rightarrow> routes" where
  "proxy_routes E =
     [(''/api/v1/service/provision'', proxy_handler_provision E),
      (''/api/v1/service/get'', proxy_handler_get),
      (''/api/v1/service/list'', proxy_handler_list),
      (''/api/v1/service/suspend'', proxy_handler_suspend),
      (''/api/v1/service/resume'', proxy_handler_resume)]"

text \<open>The protected routes: the pattern, the roles admitted, and the handler behind.\<close>

definition protected_routes :: "server_env \<Rightarrow> (string \<times> string list \<times> handler) list" where
  "protected_routes E =
     [(''/api/v1/order/create'', user_roles, server_order_create),
      (''/api/v1/order/renew/'', user_roles, server_order_renew),
      (''/api/v1/order/get'', user_roles, server_order_get),
      (''/dashboard'', user_roles, dashboard_router (sv_qr E)),
      (''/dashboard/'', user_roles, dashboard_router (sv_qr E)),
      (''/api/v1/vendor/catalog/create'', vend_roles, server_catalog_create),
      (''/api/v1/vendor/catalog/list'', vend_roles, server_catalog_list),
      (''/api/v1/vendor/panel/add'', vend_roles, server_panel_add E),
      (''/api/v1/vendor/panel/list'', vend_roles, server_panel_list E),
      (''/api/v1/admin/wallet/topup'', admin_roles, server_topup)]"

definition server_routes :: "server_env \<Rightarrow> routes" where
  "server_routes E =
     (''/assets/'', asset_files E) # store_routes E @ (''/health'', server_health E) # api_routes E @
     proxy_routes E @ map (\<lambda>(pat, roles, h). (pat, protect E roles h)) (protected_routes E) @
     [(''/api/v1/events'', hub_ws)]"

section \<open>The server\<close>

text \<open>120 requests a minute per address.\<close>

definition server_limiter :: limiter where
  "server_limiter = new_rate_limiter 120 60000000000"

definition serve :: "server_env \<Rightarrow> request \<Rightarrow> limiter \<times> world \<Rightarrow> (err + response) \<times> limiter \<times> world"
where
  "serve E r ls =
     secure_headers (limit_requests (w_nano (snd ls)) (recovery (serve_mux (server_routes E)))) r ls"

end
