(* ===== verification/ServerRuns.thy ===== *)
theory ServerRuns
  imports Server Runs
begin

text \<open>
  The server as part of the running system: serving a request is a run of the steps of the
  system, whatever the request, so every invariant of the reachable states holds between
  any two requests. A second group of lemmas shows which handlers may panic.
\<close>

section \<open>Runs of actions\<close>

definition runs :: "crypto \<Rightarrow> string \<Rightarrow> (string \<Rightarrow> bool) \<Rightarrow> 'a act \<Rightarrow> bool" where
  "runs C pass url_ok a \<longleftrightarrow> (\<forall>w ts. sys_run C pass url_ok (w, ts) (snd (a w), ts))"

named_theorems run_intros \<open>actions whose effect is a run of the system\<close>

lemma runsD: "runs C pass url_ok a \<Longrightarrow> a w = (x, w1) \<Longrightarrow> sys_run C pass url_ok (w, ts) (w1, ts)"
  by (auto simp: runs_def dest!: spec [of _ w])

lemma runs_step:
  assumes "\<And>w r w' ts. a w = (r, w') \<Longrightarrow> sys_step C pass url_ok (w, ts) (w', ts)"
  shows "runs C pass url_ok a"
  unfolding runs_def
proof (intro allI)
  fix w ts
  show "sys_run C pass url_ok (w, ts) (snd (a w), ts)"
    by (rule r_into_rtranclp) (rule assms [OF prod.collapse [symmetric]])
qed

lemma runs_same:
  assumes "\<And>w r w'. a w = (r, w') \<Longrightarrow> w_db w' = w_db w \<and> w_seq w' = w_seq w"
  shows "runs C pass url_ok a"
  by (rule runs_step, rule sy_env) (use assms in blast)+

lemma runs_quiet: "via quiet_rel a \<Longrightarrow> runs C pass url_ok a"
  by (rule runs_same) (auto simp: quiet_rel_def dest: quietD)

lemma runs_andThen [run_intros]:
  assumes "runs C pass url_ok m" and "\<And>x. runs C pass url_ok (f x)"
  shows "runs C pass url_ok (andThen m f)"
  unfolding runs_def
proof (intro allI)
  fix w ts
  obtain r w1 where m: "m w = (r, w1)" by fastforce
  show "sys_run C pass url_ok (w, ts) (snd (andThen m f w), ts)"
    using runsD [OF assms(1) m, of ts] assms(2)
    by (cases r) (auto simp: andThen_def m runs_def intro: rtranclp_trans)
qed

lemma runs_attempt [run_intros]:
  assumes "runs C pass url_ok m" and "\<And>e. runs C pass url_ok (h e)" and "\<And>x. runs C pass url_ok (k x)"
  shows "runs C pass url_ok (attempt m h k)"
  unfolding runs_def
proof (intro allI)
  fix w ts
  obtain r w1 where m: "m w = (r, w1)" by fastforce
  show "sys_run C pass url_ok (w, ts) (snd (attempt m h k w), ts)"
    using runsD [OF assms(1) m, of ts] assms(2,3)
    by (cases r) (auto simp: attempt_def m runs_def intro: rtranclp_trans)
qed

lemma runs_wrapped [run_intros]:
  "runs C pass url_ok m \<Longrightarrow> runs C pass url_ok (orElse z m)"
  "runs C pass url_ok m \<Longrightarrow> runs C pass url_ok (onErr g m)"
  by (simp_all add: runs_def)

lemma runs_basic [run_intros]:
  "runs C pass url_ok (ret x)" "runs C pass url_ok (fail e)" "runs C pass url_ok (query q)"
  "runs C pass url_ok getNano"
  by (intro runs_quiet quiet_intros)+

lemma runs_notify [run_intros]: "runs C pass url_ok (notifyAct t p)"
  by (rule runs_same) (auto simp: notifyAct_iff)

lemma runs_if [run_intros]:
  "runs C pass url_ok a \<Longrightarrow> runs C pass url_ok b \<Longrightarrow> runs C pass url_ok (if c then a else b)"
  by simp

lemma runs_checked [run_intros]:
  assumes "runs C pass url_ok m" and "\<And>x. runs C pass url_ok (k x)"
  shows "runs C pass url_ok (checked m h k)"
  unfolding checked_def by (intro run_intros assms)

lemma runs_post_only [run_intros]: "runs C pass url_ok k \<Longrightarrow> runs C pass url_ok (post_only r k)"
  unfolding post_only_def by (intro run_intros)

lemma runs_with_body [run_intros]:
  "(\<And>b. runs C pass url_ok (k b)) \<Longrightarrow> runs C pass url_ok (with_body dec r k)"
  by (auto simp: with_body_def bad_request_def intro: run_intros split: option.splits)

section \<open>The operations\<close>

lemma runs_operations [run_intros]:
  "runs C pass url_ok (order_create req)" "runs C pass url_ok (order_renew u i)"
  "runs C pass url_ok (auth_register C' salt em pw)" "runs C pass url_ok (vendor_create i nm sl)"
  "runs C pass url_ok (catalog_create it)" "runs C pass url_ok (panel_create C pass rp)"
  "t \<noteq> ''order_debit'' \<Longrightarrow> runs C pass url_ok (apply_transaction u am t)"
  "runs C pass url_ok (proxy_update_status v i st)" "runs C pass url_ok run_expiry_job"
  "runs C pass url_ok (audit_log en)"
  "runs C pass url_ok (transaction fb fc (onErr g (proxy_create_tx rc)))"
proof -
  show "runs C pass url_ok (order_create req)" "runs C pass url_ok (auth_register C' salt em pw)"
    unfolding runs_def using create_runs register_runs by blast+
qed (blast intro: runs_step sy_renew sy_vendor sy_item sy_panel sy_topup sy_status sy_expire
    sy_audit sy_service)+

lemma runs_provision [run_intros]: "runs C pass url_ok (multi_provision u p q)"
proof (rule runs_same)
  fix w r w'
  assume "multi_provision u p q w = (r, w')"
  then have "offline_rel w w'" by (rule multi.provision_offline)
  then show "w_db w' = w_db w \<and> w_seq w' = w_seq w" by (simp add: offline_rel_def)
qed

lemma runs_service [run_intros]:
  "runs C pass url_ok (proxy_provision C pass u rnd sq)"
  "runs C pass url_ok (service_suspend v i)" "runs C pass url_ok (service_resume v i)"
proof -
  have "runs C pass url_ok (settle_provision u p sq uuid ex i)" for p uuid ex i
    unfolding settle_provision_def by (intro run_intros)
  then show "runs C pass url_ok (proxy_provision C pass u rnd sq)"
    unfolding proxy_provision_def Let_def by (intro run_intros runs_quiet [OF panel_quiet(1)])
  have p: "runs C pass url_ok (proxy_by_id v i)"
    unfolding proxy_by_id_def select_proxy_def by (intro run_intros)
  show "runs C pass url_ok (service_suspend v i)" "runs C pass url_ok (service_resume v i)"
    unfolding service_suspend_def service_resume_def proxy_suspend_def proxy_resume_def
    by (intro run_intros p)+
qed

section \<open>The handlers\<close>

lemma runs_account_handlers [run_intros]:
  "runs C pass url_ok (api_register E r)" "runs C pass url_ok (api_login E r)"
  "runs C pass url_ok (api_vendor_create r)" "runs C pass url_ok (api_vendor_list r)"
  "runs C pass url_ok (api_wallet_balance r)"
  unfolding api_register_def api_login_def api_vendor_create_def api_vendor_list_def
    api_wallet_balance_def vendor_service_create_def vendor_service_list_def vendor_list_by_owner_def
    wallet_service_balance_def wallet_balance_def case_prod_unfold
  by (intro run_intros runs_quiet [OF user_quiet(3)])+

lemma runs_order_handlers [run_intros]:
  "runs C pass url_ok (server_order_create r)" "runs C pass url_ok (server_order_renew r)"
  "runs C pass url_ok (server_order_get r)" "runs C pass url_ok (handler_create r)"
  "runs C pass url_ok (handler_get r)"
  unfolding server_order_create_def server_order_renew_def server_order_get_def handler_create_def
    handler_get_def orders_by_id_def Let_def case_prod_unfold
  by (intro run_intros)+

lemma runs_proxy_handlers [run_intros]:
  "runs (sv_crypto E) (sv_panel_key E) url_ok (proxy_handler_provision E r)"
  "runs C pass url_ok (proxy_handler_get r)" "runs C pass url_ok (proxy_handler_list r)"
  "runs C pass url_ok (proxy_handler_suspend r)" "runs C pass url_ok (proxy_handler_resume r)"
  unfolding proxy_handler_provision_def proxy_handler_get_def proxy_handler_list_def
    proxy_handler_suspend_def proxy_handler_resume_def service_get_by_id_def
    service_list_by_user_def proxy_by_id_def proxy_list_by_user_def list_proxies_def
    select_proxy_def Let_def case_prod_unfold
  by (intro run_intros)+

lemma runs_vendor_handlers [run_intros]:
  "runs C pass url_ok (server_catalog_create r)" "runs C pass url_ok (server_catalog_list r)"
  "runs (sv_crypto E) (sv_panel_key E) url_ok (server_panel_add E r)"
  "runs C pass url_ok (server_panel_list E r)" "runs C pass url_ok (server_topup r)"
  unfolding server_catalog_create_def server_catalog_list_def server_panel_add_def
    server_panel_list_def server_topup_def Let_def case_prod_unfold
  by (intro run_intros runs_quiet [OF panel_quiet(2)]; simp)+

lemma runs_page_handlers [run_intros]:
  "runs C pass url_ok (store_router T secret r)" "runs C pass url_ok (dashboard_router qr r)"
  by (intro runs_quiet quiet_intros)+

lemma runs_other_handlers [run_intros]:
  "runs C pass url_ok (server_health E r)" "runs C pass url_ok (hub_ws r)"
  "runs C pass url_ok (asset_files E r)"
proof -
  have "runs C pass url_ok (roundtrip (ret ()))"
    by (rule runs_same) (auto simp: roundtrip_def ret_def split: fault.splits)
  then show "runs C pass url_ok (server_health E r)"
    unfolding server_health_def by (intro run_intros)
  show "runs C pass url_ok (hub_ws r)"
    by (rule runs_same) (auto simp: hub_ws_def)
  show "runs C pass url_ok (asset_files E r)"
    unfolding asset_files_def by (intro run_intros)
qed

section \<open>Routing\<close>

lemma longest_mem:
  fixes m :: "string \<times> 'h"
  defines "pick \<equiv> \<lambda>a b :: string \<times> 'h. if length (fst b) < length (fst a) then a else b"
  shows "fold pick ms m \<in> set (m # ms) \<and>
     (\<forall>x\<in>set (m # ms). length (fst x) \<le> length (fst (fold pick ms m)))"
proof (induction ms arbitrary: m)
  case (Cons a ms)
  have "pick a m \<in> {a, m}" "length (fst a) \<le> length (fst (pick a m))"
    "length (fst m) \<le> length (fst (pick a m))"
    by (auto simp: pick_def)
  with Cons.IH [of "pick a m"] show ?case by fastforce
qed simp

lemma find_route_Some:
  assumes "find_route rts p = Some m"
  shows "m \<in> set rts" and "pattern_matches (fst m) p"
    and "x \<in> set rts \<Longrightarrow> pattern_matches (fst x) p \<Longrightarrow> length (fst x) \<le> length (fst m)"
proof -
  let ?ms = "filter (\<lambda>(pat, _). pattern_matches pat p) rts"
  from assms have *: "m \<in> set ?ms \<and> (\<forall>x\<in>set ?ms. length (fst x) \<le> length (fst m))"
  proof (cases ?ms)
    case (Cons a ms)
    with assms longest_mem [of ms a] show ?thesis by (simp add: find_route_def)
  qed (simp add: find_route_def)
  then show "m \<in> set rts" "pattern_matches (fst m) p" by auto
  show "length (fst x) \<le> length (fst m)" if "x \<in> set rts" "pattern_matches (fst x) p"
    using * that by (cases x) auto
qed

text \<open>A request that reaches no handler changes nothing.\<close>

lemma serve_mux_cases:
  assumes "serve_mux rts r w = (x, w1)"
  obtains (answered) rs where "x = Inr rs" "w1 = w"
      "rs_code rs = 301 \<or> rs_code rs = 404 \<and> find_route rts (rq_path r) = None"
  | (routed) pat h where "find_route rts (rq_path r) = Some (pat, h)" "h r w = (x, w1)"
  using assms
  by (auto simp: serve_mux_def Let_def ret_def redirect_def plain_error_def
      split: if_splits option.splits)

lemma runs_mux:
  assumes "\<And>pat h r. (pat, h) \<in> set rts \<Longrightarrow> runs C pass url_ok (h r)"
  shows "runs C pass url_ok (serve_mux rts r)"
  unfolding runs_def
proof (intro allI)
  fix w ts
  obtain x w1 where m: "serve_mux rts r w = (x, w1)" by fastforce
  from m have "sys_run C pass url_ok (w, ts) (w1, ts)"
  proof (cases rule: serve_mux_cases)
    case (routed pat h)
    from assms [OF find_route_Some(1) [OF routed(1)]] routed(2) show ?thesis by (rule runsD)
  qed simp
  with m show "sys_run C pass url_ok (w, ts) (snd (serve_mux rts r w), ts)" by simp
qed

lemma protect_guarded:
  "protect E roles h r w =
     (case protected.admit_both (sv_tokens E) (sv_jwt_secret E) roles r of
        Inl rs \<Rightarrow> (Inr rs, w) | Inr r1 \<Rightarrow> h r1 w)"
  unfolding protect_def by (rule protected.both.guarded)

lemma runs_protect [run_intros]:
  assumes "\<And>r. runs C pass url_ok (h r)"
  shows "runs C pass url_ok (protect E roles h r)"
  unfolding runs_def
proof (intro allI)
  fix w ts
  show "sys_run C pass url_ok (w, ts) (snd (protect E roles h r w), ts)"
    using assms by (auto simp: protect_guarded runs_def split: sum.splits)
qed

lemma server_routes_run:
  assumes "(pat, h) \<in> set (server_routes E)"
  shows "runs (sv_crypto E) (sv_panel_key E) (sv_url_ok E) (h r)"
  using assms
  unfolding server_routes_def store_routes_def api_routes_def proxy_routes_def protected_routes_def
  by (auto intro!: run_intros split: if_splits)

section \<open>One request\<close>

lemma snd_recovery [simp]: "snd (recovery next r s) = snd (next r s)"
  by (simp add: recovery_def split: prod.splits sum.splits)

lemma snd_secure_headers [simp]: "snd (secure_headers next r s) = snd (next r s)"
  by (simp add: secure_headers_def split: prod.splits sum.splits)

lemma recovery_answers: "\<exists>rs. fst (recovery next r s) = Inr rs"
  by (simp add: recovery_def split: prod.splits sum.splits)

abbreviation admitted_by :: "request \<Rightarrow> limiter \<Rightarrow> world \<Rightarrow> bool" where
  "admitted_by r rl w \<equiv> fst (allow (w_nano w) (client_ip r) rl)"

lemma serve_world:
  "snd (snd (serve E r (rl, w))) =
     (if admitted_by r rl w then snd (serve_mux (server_routes E) r w) else w)"
proof (cases "admitted_by r rl w")
  case True
  then show ?thesis by (simp add: serve_def limit_requests_passed)
next
  case False
  from limit_requests_refused [OF this, of "recovery (serve_mux (server_routes E))" w] obtain rs rl1 where
    "limit_requests (w_nano w) (recovery (serve_mux (server_routes E))) r (rl, w) = (Inr rs, (rl1, w))"
    by blast
  with False show ?thesis by (simp add: serve_def)
qed

lemma runs_serve:
  "sys_run (sv_crypto E) (sv_panel_key E) (sv_url_ok E) (w, ts) (snd (snd (serve E r (rl, w))), ts)"
proof -
  have "runs (sv_crypto E) (sv_panel_key E) (sv_url_ok E) (serve_mux (server_routes E) r)"
    using server_routes_run by (rule runs_mux)
  then show ?thesis by (auto simp: serve_world runs_def)
qed

text \<open>What the client is told: the answer of the wrapped handlers, with headers added.\<close>

definition same_answer :: "response \<Rightarrow> response \<Rightarrow> bool" where
  "same_answer rs rs1 \<longleftrightarrow> rs_code rs1 = rs_code rs \<and> rs_content rs1 = rs_content rs \<and>
     rs_audit rs1 = rs_audit rs"

lemma serve_cases:
  obtains (limited) rs where "\<not> admitted_by r rl w" "fst (serve E r (rl, w)) = Inr rs"
      "rs_code rs = 429"
  | (panic) e rs where "admitted_by r rl w" "fst (serve_mux (server_routes E) r w) = Inl e"
      "fst (serve E r (rl, w)) = Inr rs" "rs_code rs = 500"
  | (ok) rs1 rs where "admitted_by r rl w" "fst (serve_mux (server_routes E) r w) = Inr rs1"
      "fst (serve E r (rl, w)) = Inr rs" "same_answer rs1 rs"
proof (cases "admitted_by r rl w")
  case False
  from limit_requests_refused [OF this, of "recovery (serve_mux (server_routes E))" w] obtain rs rl1 where
    "limit_requests (w_nano w) (recovery (serve_mux (server_routes E))) r (rl, w) = (Inr rs, (rl1, w))"
    "rs_code rs = 429" by blast
  with False limited show thesis by (auto simp: serve_def secure_headers_def)
next
  case True
  obtain x w1 where m: "serve_mux (server_routes E) r w = (x, w1)" by fastforce
  show thesis
  proof (cases x)
    case (Inl e)
    with True m panic [of e] show thesis
      by (auto simp: serve_def secure_headers_def limit_requests_passed recovery_def http_error_def
          write_json_def)
  next
    case (Inr rs1)
    with True m ok [of rs1] show thesis
      by (auto simp: serve_def secure_headers_def limit_requests_passed recovery_def same_answer_def)
  qed
qed

end
