(* ===== verification/ServerCalm.thy ===== *)
theory ServerCalm
  imports ServerRuns
begin

text \<open>
  Which requests can make a handler panic. \<open>calm\<close> actions end with an ordinary error or a
  value, \<open>total\<close> ones always with a value. A handler is total when the operations it checks
  are calm; only one route leads to a handler that is not.
\<close>

definition calm :: "'a act \<Rightarrow> bool" where
  "calm a \<longleftrightarrow> (\<forall>w e w'. a w = (Inl e, w') \<longrightarrow> \<not> is_panic e)"

definition total :: "'a act \<Rightarrow> bool" where
  "total a \<longleftrightarrow> (\<forall>w e w'. a w \<noteq> (Inl e, w'))"

named_theorems calm_intros \<open>actions that do not panic\<close>
named_theorems total_intros \<open>actions that always return\<close>

lemma calmD: "calm a \<Longrightarrow> a w = (Inl e, w') \<Longrightarrow> \<not> is_panic e"
  by (auto simp: calm_def)

section \<open>Constructions\<close>

lemma calm_basic [calm_intros]:
  "calm (ret x)" "\<not> is_panic e \<Longrightarrow> calm (fail e)" "calm getNano" "calm (notifyAct t p)"
  "calm (orElse z m)" "calm (onErr (ErrWrap s) m)"
  by (auto simp: calm_def ret_def fail_def getNano_def notifyAct_def orElse_def onErr_def
      split: prod.splits sum.splits)

lemma calm_andThen [calm_intros]: "calm m \<Longrightarrow> (\<And>x. calm (f x)) \<Longrightarrow> calm (andThen m f)"
  unfolding calm_def andThen_Inl by blast

lemma calm_if [calm_intros]: "calm a \<Longrightarrow> calm b \<Longrightarrow> calm (if c then a else b)"
  by simp

lemma calm_catchErr [calm_intros]: "calm m \<Longrightarrow> calm (catchErr t z m)"
  by (auto simp: calm_def catchErr_def split: prod.splits sum.splits if_splits)

lemma calm_query: "(\<And>d e. q d = Inl e \<Longrightarrow> \<not> is_panic e) \<Longrightarrow> calm (query q)"
  by (auto simp: calm_def query_def roundtrip_def split: fault.splits)

lemma calm_exec: "(\<And>n d e. u n d = Inl e \<Longrightarrow> \<not> is_panic e) \<Longrightarrow> calm (exec u)"
  unfolding calm_def by (metis exec_error is_panic.simps(3))

lemma calm_insert: "(\<And>i n d e. mk i n d = Inl e \<Longrightarrow> \<not> is_panic e) \<Longrightarrow> calm (insert_returning t mk)"
  unfolding calm_def by (metis insert_error is_panic.simps(3))

lemma calm_insert_row: "(\<And>i n d e. mk i n d = Inl e \<Longrightarrow> \<not> is_panic e) \<Longrightarrow> calm (insert_row t mk)"
  unfolding insert_row_def by (intro calm_intros calm_insert)

lemma calm_transaction:
  assumes "calm body" and "\<not> is_panic (fb ErrDriver)" and "\<not> is_panic (fc ErrDriver)"
  shows "calm (transaction fb fc body)"
  using assms
  by (auto simp: calm_def transaction_def andThen_def onErr_def begin_tx_def commit_tx_def
      roundtrip_def ret_def split: prod.splits sum.splits fault.splits)

lemma calm_lift_res: "(\<And>e. x = Inl e \<Longrightarrow> \<not> is_panic e) \<Longrightarrow> calm (lift_res x)"
  by (cases x) (auto simp: lift_res_def calm_def fail_def ret_def)

lemma not_panic_first: "select_first p rows = Inl e \<Longrightarrow> \<not> is_panic e"
  by (simp add: select_first_Inl)

lemma map_sum_Inl: "map_sum id f x = Inl e \<longleftrightarrow> x = Inl e"
  by (cases x) auto

lemma total_basic [total_intros]:
  "total (ret x)" "total (bad_request)"
  by (simp_all add: total_def ret_def bad_request_def)

lemma total_if [total_intros]: "total a \<Longrightarrow> total b \<Longrightarrow> total (if c then a else b)"
  by simp

lemma total_checked [total_intros]:
  assumes "calm m" and "\<And>x. total (k x)"
  shows "total (checked m h k)"
  unfolding total_def
proof (intro allI notI)
  fix w e w'
  assume "checked m h k w = (Inl e, w')"
  then show False
    using assms by (cases rule: checked_cases) (auto simp: calm_def total_def)
qed

lemma total_orElse [total_intros]: "(\<And>x. total (f x)) \<Longrightarrow> total (andThen (orElse z m) f)"
  by (auto simp: total_def andThen_Inl orElse_def split: prod.splits sum.splits)

lemma total_post_only [total_intros]: "total k \<Longrightarrow> total (post_only r k)"
  unfolding post_only_def by (intro total_intros)

lemma total_with_body [total_intros]: "(\<And>b. total (k b)) \<Longrightarrow> total (with_body dec r k)"
  by (auto simp: with_body_def intro: total_intros split: option.splits)

section \<open>Operations\<close>

lemma calm_reads [calm_intros]:
  "calm (orders_by_id v i)" "calm (proxy_by_id v i)" "calm (proxy_by_id_for_user i u)"
  "calm (proxy_by_id_for_user_tx i u)" "calm (catalog_price_get v i)"
  "calm (wallet_service_balance u)" "calm (vendor_service_list i)" "calm (proxy_list_by_user v u)"
  "calm (user_by_email em)" "calm (get_vendor_by_slug s)" "calm (get_product v s)"
  unfolding orders_by_id_def proxy_by_id_def proxy_by_id_for_user_def proxy_by_id_for_user_tx_def
    select_proxy_def catalog_price_get_def wallet_service_balance_def wallet_balance_def
    vendor_service_list_def vendor_list_by_owner_def proxy_list_by_user_def list_proxies_def
    user_by_email_def get_vendor_by_slug_def get_product_def
  by (auto intro!: calm_query calm_intros simp: map_sum_Inl validate_slug_def select_first_Inl
      split: option.splits if_splits)

lemma calm_writes [calm_intros]:
  "calm (idem_reserve_tx v u k)" "calm (deduct_tx u p)" "calm (orders_create_tx ord)"
  "calm (idem_link_order_tx v u k i)" "calm (jobs_enqueue_tx v i)" "calm (proxy_extend_expiry_tx i dy)"
  "calm (vendor_service_create i nm sl)" "calm (catalog_create it)" "calm (panel_create C pass rp)"
  "calm (user_create em h rl)" "calm (ensure_for_user i)" "calm (apply_body u a ty)"
  "calm (proxy_update_status v i st)"
  unfolding idem_reserve_tx_def deduct_tx_def orders_create_tx_def idem_link_order_tx_def
    jobs_enqueue_tx_def proxy_extend_expiry_tx_def vendor_service_create_def vendor_create_def
    catalog_create_def panel_create_def user_create_def ensure_for_user_def apply_body_def
    proxy_update_status_def
  by (auto intro!: calm_intros calm_query calm_exec calm_insert calm_insert_row
      simp: sql_defs map_sum_Inl select_first_Inl split: if_splits option.splits)

lemma calm_order_ops [calm_intros]:
  "calm (order_create req)" "calm (order_renew u i)" "calm (apply_transaction u a ty)"
proof -
  have "calm (create_commit req cat)" for cat
    unfolding create_commit_def create_body_def
    by (intro calm_intros calm_transaction) simp_all
  moreover have "calm (create_validate req)"
    unfolding create_validate_def by (intro calm_intros) simp_all
  ultimately show "calm (order_create req)"
    unfolding order_create_def by (intro calm_intros) simp_all
  have "calm (renew_body u i)"
    unfolding renew_body_def Let_def
    by (auto intro!: calm_intros split: option.splits)
  then show "calm (order_renew u i)"
    unfolding order_renew_def by (intro calm_intros calm_transaction) simp_all
  show "calm (apply_transaction u a ty)"
    unfolding apply_transaction_def by (intro calm_intros calm_transaction) simp_all
qed

lemma calm_service_ops [calm_intros]:
  "calm (auth_register C salt em pw)" "calm (auth_login C T s em pw)"
  "calm (service_get_by_id v i)" "calm (service_list_by_user v u)"
  "calm (service_suspend v i)" "calm (service_resume v i)" "calm (panel_list_by_vendor C pass v)"
proof -
  show "calm (auth_register C salt em pw)" "calm (auth_login C T s em pw)"
    unfolding auth_register_def auth_login_def
    by (intro calm_intros calm_lift_res; auto simp: hash_password_def split: if_splits)+
  show "calm (service_get_by_id v i)" "calm (service_list_by_user v u)"
    "calm (service_suspend v i)" "calm (service_resume v i)"
    unfolding service_get_by_id_def service_list_by_user_def service_suspend_def service_resume_def
      proxy_suspend_def proxy_resume_def
    by (intro calm_intros; simp)+
  have "panel_of_row C pass r = Inl e \<Longrightarrow> \<not> is_panic e" for r e
    by (auto simp: panel_of_row_def map_sum_Inl decrypt_def Let_def
        split: option.splits if_splits)
  then have "scan_panels C pass rs = Inl e \<Longrightarrow> \<not> is_panic e" for rs e
    by (induction rs) (auto simp: map_sum_Inl split: sum.splits)
  then show "calm (panel_list_by_vendor C pass v)"
    unfolding panel_list_by_vendor_def by (intro calm_intros calm_query calm_lift_res) auto
qed

section \<open>Handlers\<close>

lemma total_handlers [total_intros]:
  "total (api_register E r)" "total (api_login E r)" "total (api_vendor_create r)"
  "total (api_vendor_list r)" "total (api_wallet_balance r)"
  "total (server_order_create r)" "total (server_order_renew r)" "total (server_order_get r)"
  "total (proxy_handler_get r)" "total (proxy_handler_list r)"
  "total (proxy_handler_suspend r)" "total (proxy_handler_resume r)"
  "total (server_catalog_create r)" "total (server_catalog_list r)" "total (server_panel_add E r)"
  "total (server_panel_list E r)" "total (server_topup r)"
  unfolding api_register_def api_login_def api_vendor_create_def api_vendor_list_def
    api_wallet_balance_def server_order_create_def server_order_renew_def server_order_get_def
    proxy_handler_get_def proxy_handler_list_def proxy_handler_suspend_def proxy_handler_resume_def
    server_catalog_create_def server_catalog_list_def server_panel_add_def server_panel_list_def
    server_topup_def Let_def case_prod_unfold
  by (intro total_intros calm_intros calm_query; simp)+

lemma total_pages [total_intros]:
  "total (store_router T secret r)" "total (dashboard_router qr r)" "total (server_health E r)"
  "total (hub_ws r)" "total (asset_files E r)"
proof -
  have "total (checkout_page T secret r v pd)" for v pd
    unfolding checkout_page_def Let_def by (auto intro: total_intros split: option.splits)
  then have "total (store_segments T secret r seg v)" for seg v
    unfolding store_segments_def vendor_page_def product_page_def
    by (intro total_intros calm_intros)
  then show "total (store_router T secret r)"
    unfolding store_router_def Let_def by (intro total_intros calm_intros)
  show "total (dashboard_router qr r)"
    unfolding dashboard_router_def dashboard_summary_def dashboard_services_def Let_def
    by (intro total_intros calm_intros)
  show "total (server_health E r)" "total (hub_ws r)" "total (asset_files E r)"
    by (auto simp: total_def server_health_def hub_ws_def asset_files_def andThen_Inl attempt_def
        ret_def split: prod.splits sum.splits)
qed

lemma total_protect [total_intros]: "(\<And>r. total (h r)) \<Longrightarrow> total (protect E roles h r)"
  by (auto simp: total_def protect_guarded split: sum.splits)

lemma total_routes:
  assumes "(pat, h) \<in> set (server_routes E)" and "pat \<noteq> ''/api/v1/service/provision''"
  shows "total (h r)"
  using assms
  unfolding server_routes_def store_routes_def api_routes_def proxy_routes_def protected_routes_def
  by (auto intro!: total_intros split: if_splits)

end
