(* ===== verification/Startup.thy ===== *)
theory Startup
  imports Server "HOL-Library.List_Lexorder" "HOL-Library.Char_ord"
begin

text \<open>
  From the process start to the listening server: \<open>internal/config/config.go\<close>,
  \<open>internal/db/postgres.go\<close>, \<open>internal/db/migrate.go\<close> and \<open>internal/app/bootstrap.go\<close>, which
  \<open>cmd/server/main.go\<close> calls. What the environment answers (variables, the database that is
  not up yet, the migration files and what PostgreSQL makes of them) is a parameter.
\<close>

section \<open>Configuration\<close>

record Config =
  AppPort :: string
  AppEnv :: string
  DatabaseDSN :: string
  JWTSecret :: string
  PanelEncryptionKey :: string
  RedisAddr :: string
  MinIOEndpoint :: string

text \<open>\<open>os.Getenv\<close> gives the empty string for a variable that is not set.\<close>

definition env :: "(string \<Rightarrow> string) \<Rightarrow> string \<Rightarrow> string \<Rightarrow> string" where
  "env getenv key fallback = (if getenv key \<noteq> [] then getenv key else fallback)"

definition load :: "(string \<Rightarrow> string) \<Rightarrow> err + Config" where
  "load getenv =
     (let cfg = \<lparr>AppPort = env getenv ''APP_PORT'' ''8080'',
            AppEnv = env getenv ''APP_ENV'' ''development'',
            DatabaseDSN = getenv ''DATABASE_DSN'', JWTSecret = getenv ''JWT_SECRET'',
            PanelEncryptionKey = getenv ''PANEL_ENCRYPTION_KEY'',
            RedisAddr = env getenv ''REDIS_ADDR'' ''redis:6379'',
            MinIOEndpoint = env getenv ''MINIO_ENDPOINT'' ''minio:9000''\<rparr>
      in if DatabaseDSN cfg = [] then Inl (ErrNew ''missing required env DATABASE_DSN'')
         else if JWTSecret cfg = [] then Inl (ErrNew ''missing required env JWT_SECRET'')
         else if PanelEncryptionKey cfg = [] then
           Inl (ErrNew ''missing required env PANEL_ENCRYPTION_KEY'')
         else if length (PanelEncryptionKey cfg) \<noteq> 32 then
           Inl (ErrNew ''PANEL_ENCRYPTION_KEY must be 32 bytes'')
         else Inr cfg)"

section \<open>Connection\<close>

text \<open>
  \<open>ping i\<close> is whether the \<open>i\<close>-th ping succeeds. The result is the attempt that did, and
  the milliseconds slept.
\<close>

function connect_loop :: "(nat \<Rightarrow> bool) \<Rightarrow> nat \<Rightarrow> nat \<Rightarrow> (err + nat) \<times> nat" where
  "connect_loop ping i slept =
     (if 15 < i then (Inl (ErrNew ''postgres did not become ready in time''), slept)
      else if ping i then (Inr i, slept)
      else connect_loop ping (i + 1) (slept + i * 500))"
  by pat_completeness auto

termination
  by (relation "measure (\<lambda>(ping, i, slept). 16 - i)") auto

declare connect_loop.simps [simp del]

definition new_postgres :: "err option \<Rightarrow> (nat \<Rightarrow> bool) \<Rightarrow> string \<Rightarrow> (err + nat) \<times> nat" where
  "new_postgres open_err ping dsn =
     (if dsn = [] then (Inl (ErrNew ''empty DATABASE_DSN''), 0)
      else case open_err of
             Some e \<Rightarrow> (Inl e, 0)
           | None \<Rightarrow> connect_loop ping 1 0)"

section \<open>Migrations\<close>

text \<open>
  \<open>read f\<close> is the text of a file, \<open>exec_sql\<close> what the server makes of it. White space is
  ASCII.
\<close>

fun run_files :: "(string \<Rightarrow> err + string) \<Rightarrow> (string \<Rightarrow> unit act) \<Rightarrow> string list \<Rightarrow> unit act" where
  "run_files read exec_sql [] w = (Inr (), w)"
| "run_files read exec_sql (f # fs) w =
     (case read f of
        Inl e \<Rightarrow> (Inl e, w)
      | Inr b \<Rightarrow>
          if trim_space b = [] then run_files read exec_sql fs w
          else (case exec_sql b w of
                  (Inl e, w1) \<Rightarrow> (Inl e, w1)
                | (Inr _, w1) \<Rightarrow> run_files read exec_sql fs w1))"

definition run_migrations ::
  "err + string list \<Rightarrow> (string \<Rightarrow> err + string) \<Rightarrow> (string \<Rightarrow> unit act) \<Rightarrow> unit act" where
  "run_migrations glob read exec_sql =
     (case glob of Inl e \<Rightarrow> fail e | Inr files \<Rightarrow> run_files read exec_sql (sort files))"

section \<open>Start\<close>

definition app_run ::
  "(string \<Rightarrow> string) \<Rightarrow> err option \<Rightarrow> (nat \<Rightarrow> bool) \<Rightarrow> err + string list \<Rightarrow>
   (string \<Rightarrow> err + string) \<Rightarrow> (string \<Rightarrow> unit act) \<Rightarrow> (Config \<Rightarrow> unit act) \<Rightarrow> unit act" where
  "app_run getenv open_err ping glob read exec_sql start =
     andThen (lift_res (load getenv)) (\<lambda>cfg.
     andThen (lift_res (fst (new_postgres open_err ping (DatabaseDSN cfg)))) (\<lambda>_.
     andThen (run_migrations glob read exec_sql) (\<lambda>_.
     andThen (if AppEnv cfg = ''development'' then seed_demo else ret ()) (\<lambda>_.
     start cfg))))"

section \<open>Facts\<close>

lemma env_Nil [simp]: "env getenv k f = [] \<longleftrightarrow> getenv k = [] \<and> f = []"
  by (simp add: env_def)

lemma load_Inr:
  "load getenv = Inr cfg \<Longrightarrow>
     DatabaseDSN cfg = getenv ''DATABASE_DSN'' \<and> DatabaseDSN cfg \<noteq> [] \<and>
     JWTSecret cfg = getenv ''JWT_SECRET'' \<and> JWTSecret cfg \<noteq> [] \<and>
     PanelEncryptionKey cfg = getenv ''PANEL_ENCRYPTION_KEY'' \<and> length (PanelEncryptionKey cfg) = 32 \<and>
     AppPort cfg \<noteq> [] \<and> AppEnv cfg \<noteq> []"
  unfolding load_def Let_def by (simp split: if_splits) auto

text \<open>The loop ends with the first attempt from \<open>i\<close> on that succeeds.\<close>

lemma connect_loop_find:
  "connect_loop ping i s =
     (case find ping [i..<16] of
        Some k \<Rightarrow> Inr k
      | None \<Rightarrow> Inl (ErrNew ''postgres did not become ready in time''),
      s + 500 * sum_list (takeWhile (\<lambda>k. \<not> ping k) [i..<16]))"
proof (induction ping i s rule: connect_loop.induct)
  case (1 ping i s)
  show ?case
  proof (cases "i < 16")
    case True
    with 1 show ?thesis by (simp add: connect_loop.simps [of ping i] upt_conv_Cons)
  qed (simp add: connect_loop.simps [of ping i])
qed

text \<open>Migrations: one failing file stops the rest, and the effects before it stay.\<close>

lemma run_files_append:
  "run_files read exec_sql (fs @ gs) w =
     (case run_files read exec_sql fs w of
        (Inl e, w1) \<Rightarrow> (Inl e, w1)
      | (Inr _, w1) \<Rightarrow> run_files read exec_sql gs w1)"
  by (induction fs arbitrary: w) (auto split: sum.splits prod.splits)

text \<open>
  Seeding that was cut off after the user never completes: the next start fails on the
  email and reports success.
\<close>

lemma seed_demo_stuck:
  assumes "list_ex (\<lambda>r. u_email r = ''demo@garuda.local'') (users (w_db w))"
  shows "fst (seed_demo w) = Inr () \<and> w_db (snd (seed_demo w)) = w_db w"
proof -
  have u: "\<exists>e w1. user_create ''demo@garuda.local'' ''x'' ''vendor'' w0 = (Inl e, w1) \<and> w_db w1 = w_db w0"
    if "w_db w0 = w_db w" for w0
    using assms that
    by (auto simp: user_create_def insert_returning_def roundtrip_def sql_insert_user_def Let_def
        split: fault.splits)
  obtain c w0 where q: "orElse 0 (query (\<lambda>d. Inr (length (filter (\<lambda>r. v_slug r = ''demo'') (vendors d))))) w =
      (Inr c, w0)" "w_db w0 = w_db w"
    by (cases "next_fault w") (simp_all add: orElse_def query_def roundtrip_def)
  with u [OF q(2)] show ?thesis
    by (auto simp: seed_demo_def andThen_def attempt_def ret_def)
qed

end
