(* ===== verification/ServerLoop.thy ===== *)
theory ServerLoop
  imports ServerRuns Startup
begin

text \<open>
  The life of the process: requests as they arrive, the ticks of the worker, of the expiry
  job and of the limiter's cleanup, which \<open>internal/http/server.go\<close> and
  \<open>internal/middleware/ratelimit.go\<close> start in the background, the audit records written by
  goroutines, crashes and restarts. Events are atomic here; \<open>Running\<close> has the interleaving
  inside them.
\<close>

datatype event =
    ERequest request
  | EAudit Entry
  | EWorker
  | EExpiry
  | ECleanup
  | EWorld int int "fault list" "reply list"
  | ECrash
  | ERestart

record server_state =
  ss_limiter :: limiter
  ss_world :: world
  ss_up :: bool

text \<open>
  A panic in the worker's goroutine ends the process: nothing recovers there. What is held
  in memory, the limiter and the hub, is new after a restart, which in development seeds the
  demo shop again.
\<close>

definition worker_event :: "server_env \<Rightarrow> server_state \<Rightarrow> server_state" where
  "worker_event E s =
     (case worker_tick (sv_crypto E) (sv_panel_key E) (multi_provision (sv_url_ok E)) (ss_world s) of
        (Inl _, w1) \<Rightarrow> s\<lparr>ss_world := w1, ss_up := False\<rparr>
      | (Inr _, w1) \<Rightarrow> s\<lparr>ss_world := w1\<rparr>)"

definition request_event :: "server_env \<Rightarrow> request \<Rightarrow> server_state \<Rightarrow> server_state" where
  "request_event E r s =
     (case serve E r (ss_limiter s, ss_world s) of
        (_, (rl1, w1)) \<Rightarrow> s\<lparr>ss_limiter := rl1, ss_world := w1\<rparr>)"

definition restart :: "server_env \<Rightarrow> server_state \<Rightarrow> server_state" where
  "restart E s = \<lparr>ss_limiter = server_limiter,
     ss_world = snd ((if sv_app_env E = ''development'' then seed_demo else ret ())
       ((ss_world s)\<lparr>w_hub := new_hub bus_new\<rparr>)),
     ss_up = True\<rparr>"

fun handle_event :: "server_env \<Rightarrow> event \<Rightarrow> server_state \<Rightarrow> server_state" where
  "handle_event E (EWorld now nano fs rs) s =
     s\<lparr>ss_world := (ss_world s)\<lparr>w_now := now, w_nano := nano, w_faults := fs, w_replies := rs\<rparr>\<rparr>"
| "handle_event E ERestart s = restart E s"
| "handle_event E ECrash s = s\<lparr>ss_up := False\<rparr>"
| "handle_event E (ERequest r) s = (if ss_up s then request_event E r s else s)"
| "handle_event E (EAudit e) s =
     (if ss_up s then s\<lparr>ss_world := snd (audit_log e (ss_world s))\<rparr> else s)"
| "handle_event E EWorker s = (if ss_up s then worker_event E s else s)"
| "handle_event E EExpiry s =
     (if ss_up s then s\<lparr>ss_world := snd (run_expiry_job (ss_world s))\<rparr> else s)"
| "handle_event E ECleanup s =
     (if ss_up s then s\<lparr>ss_limiter := cleanup (w_nano (ss_world s)) (ss_limiter s)\<rparr> else s)"

definition run_events :: "server_env \<Rightarrow> event list \<Rightarrow> server_state \<Rightarrow> server_state" where
  "run_events E evs s = fold (handle_event E) evs s"

section \<open>Seeding is a run of the system\<close>

text \<open>
  One insertion into the catalogue, whatever came of it; and a number of its sequence used
  up for nothing, which an item of a vendor that does not exist does.
\<close>

lemma item_run:
  assumes "fits32 (CI_TrafficLimitGB it)" and "fits32 (CI_DurationDays it)"
    and "w_db w1 = (case sql_insert_catalog it (w_seq w TCatalogItems + 1) n (w_db w) of
        Inl _ \<Rightarrow> w_db w | Inr d \<Rightarrow> d)"
    and "w_seq w1 = (w_seq w)(TCatalogItems := w_seq w TCatalogItems + 1)"
  shows "sys_run C pass url_ok (w, ts) (w1, ts)"
proof -
  define w0 where "w0 = w\<lparr>w_faults := [], w_now := n\<rparr>"
  have w0: "w_db w0 = w_db w" "w_seq w0 = w_seq w" "w_now w0 = n" "w_faults w0 = []"
    by (simp_all add: w0_def)
  obtain r w2 where c: "catalog_create it w0 = (r, w2)" by fastforce
  have "w_db (snd (catalog_create it w0)) =
      (case sql_insert_catalog it (w_seq w TCatalogItems + 1) n (w_db w) of Inl _ \<Rightarrow> w_db w | Inr d \<Rightarrow> d)"
    and "w_seq (snd (catalog_create it w0)) = (w_seq w)(TCatalogItems := w_seq w TCatalogItems + 1)"
    by (cases "sql_insert_catalog it (w_seq w TCatalogItems + 1) n (w_db w)";
        simp add: catalog_create_def assms(1,2) insert_row_def andThen_def nofault_simps w0 Let_def ret_def)+
  then have same: "w_db w1 = w_db w2" "w_seq w1 = w_seq w2" by (simp_all add: c assms(3,4))
  have "sys_step C pass url_ok (w, ts) (w0, ts)" by (rule sy_env) (simp_all add: w0)
  moreover note sy_item [OF c, of C pass url_ok ts]
  moreover have "sys_step C pass url_ok (w2, ts) (w1, ts)" by (rule sy_env) (rule same)+
  ultimately show ?thesis by (auto intro: sys_run_step)
qed

lemma number_run:
  assumes "w_db w1 = w_db w" and "w_seq w1 = (w_seq w)(TCatalogItems := w_seq w TCatalogItems + 1)"
  shows "sys_run C pass url_ok (w, ts) (w1, ts)"
proof -
  obtain v where v: "v \<notin> v_id ` set (vendors (w_db w))"
    using ex_new_if_finite [OF infinite_UNIV_int finite_imageI [OF finite_set]] by metis
  define it where "it = (fst (seed_items v))"
  show ?thesis
  proof (rule item_run [of it])
    show "w_db w1 = (case sql_insert_catalog it (w_seq w TCatalogItems + 1) 0 (w_db w) of
        Inl _ \<Rightarrow> w_db w | Inr d \<Rightarrow> d)"
      using v assms(1) by (auto simp: it_def seed_items_def seed_item_def sql_insert_catalog_def
        has_vendor_def list_ex_iff)
  qed (use assms(2) in \<open>simp_all add: it_def seed_items_def seed_item_def fits32_def\<close>)
qed

lemma insert_two_result:
  assumes "next_fault w \<noteq> FFail"
  shows "(w_db (snd (insert_two items w)), w_seq (snd (insert_two items w))) =
     (case sql_insert_catalog (fst items) (w_seq w TCatalogItems + 1) (w_now w) (w_db w) of
        Inl _ \<Rightarrow> (w_db w, (w_seq w)(TCatalogItems := w_seq w TCatalogItems + 1))
      | Inr d1 \<Rightarrow>
          (case sql_insert_catalog (snd items) (2 + w_seq w TCatalogItems) (w_now w) d1 of
             Inl _ \<Rightarrow> (w_db w, (w_seq w)(TCatalogItems := 2 + w_seq w TCatalogItems))
           | Inr d2 \<Rightarrow> (d2, (w_seq w)(TCatalogItems := 2 + w_seq w TCatalogItems))))"
proof -
  have "w_seq w TCatalogItems + 1 + 1 = 2 + w_seq w TCatalogItems" by simp
  with assms show ?thesis
    by (cases "next_fault w") (simp_all add: insert_two_def roundtrip_def Let_def split: sum.split)
qed

lemma insert_two_cases:
  assumes "snd (insert_two p w) = w'"
  obtains (lost) "w_db w' = w_db w" "w_seq w' = w_seq w"
    | (one) "w_db w' = w_db w" "w_seq w' = (w_seq w)(TCatalogItems := w_seq w TCatalogItems + 1)"
    | (two) "w_db w' = w_db w" "w_seq w' = (w_seq w)(TCatalogItems := 2 + w_seq w TCatalogItems)"
    | (both) d1 d2 where
        "sql_insert_catalog (fst p) (w_seq w TCatalogItems + 1) (w_now w) (w_db w) = Inr d1"
        "sql_insert_catalog (snd p) (2 + w_seq w TCatalogItems) (w_now w) d1 = Inr d2"
        "w_db w' = d2" "w_seq w' = (w_seq w)(TCatalogItems := 2 + w_seq w TCatalogItems)"
proof (cases "next_fault w = FFail")
  case True
  with assms show thesis by (intro lost) (auto simp: insert_two_def roundtrip_def)
next
  case False
  note res = insert_two_result [OF False, of p, unfolded assms]
  show thesis
  proof (cases "sql_insert_catalog (fst p) (w_seq w TCatalogItems + 1) (w_now w) (w_db w)")
    case (Inl e)
    with res show thesis by (intro one) simp_all
  next
    case d1: (Inr d1)
    with res show thesis
      by (cases "sql_insert_catalog (snd p) (2 + w_seq w TCatalogItems) (w_now w) d1")
        (auto intro: two both)
  qed
qed

lemma runs_insert_two [run_intros]: "runs C pass url_ok (insert_two (seed_items v))"
  unfolding runs_def
proof (intro allI)
  fix w :: world and ts
  let ?s = "(w_seq w)(TCatalogItems := w_seq w TCatalogItems + 1)"
  define w' where "w' = snd (insert_two (seed_items v) w)"
  have fits: "fits32 (CI_TrafficLimitGB it)" "fits32 (CI_DurationDays it)"
    if "it = fst (seed_items v) \<or> it = snd (seed_items v)" for it
    using that by (auto simp: seed_items_def seed_item_def fits32_def)
  from w'_def [symmetric] have "sys_run C pass url_ok (w, ts) (w', ts)"
  proof (cases rule: insert_two_cases)
    case lost
    then show ?thesis by (intro r_into_rtranclp sy_env)
  next
    case one
    then show ?thesis by (rule number_run)
  next
    case two
    have "sys_run C pass url_ok (w, ts) (w\<lparr>w_seq := ?s\<rparr>, ts)" by (rule number_run) simp_all
    moreover have "sys_run C pass url_ok (w\<lparr>w_seq := ?s\<rparr>, ts) (w', ts)"
      by (rule number_run) (use two in simp_all)
    ultimately show ?thesis by (rule rtranclp_trans)
  next
    case (both d1 d2)
    let ?w1 = "w\<lparr>w_seq := ?s, w_db := d1\<rparr>"
    have "sys_run C pass url_ok (w, ts) (?w1, ts)"
      by (rule item_run [OF fits, of "fst (seed_items v)" _ _ "w_now w"]) (use both in simp_all)
    moreover have "sys_run C pass url_ok (?w1, ts) (w', ts)"
      by (rule item_run [OF fits, of "snd (seed_items v)" _ _ "w_now w"]) (use both in simp_all)
    ultimately show ?thesis by (rule rtranclp_trans)
  qed
  then show "sys_run C pass url_ok (w, ts) (snd (insert_two (seed_items v) w), ts)"
    by (simp add: w'_def)
qed

lemma runs_user_alone [run_intros]: "runs C pass url_ok (user_create e h r)"
  unfolding runs_def
proof (intro allI)
  fix w ts
  obtain x w1 where u: "user_create e h r w = (x, w1)" by fastforce
  from sy_user [OF u, of C pass url_ok ts]
  show "sys_run C pass url_ok (w, ts) (snd (user_create e h r w), ts)"
  proof (cases x)
    case (Inr i)
    have "sys_step C pass url_ok (w1, TEnsure i # ts) (w1, ts)"
      using sy_drop [of C pass url_ok w1 "[]"] by simp
    then show ?thesis using sy_user [OF u, of C pass url_ok ts] u Inr by (auto intro: sys_run_step)
  qed (simp add: u r_into_rtranclp)
qed

lemma runs_vendor_row [run_intros]:
  "runs C pass url_ok (insert_returning TVendors (sql_insert_vendor i nm sl))"
proof -
  have "snd (insert_returning TVendors (sql_insert_vendor i nm sl) w) = snd (vendor_create i nm sl w)" for w
    by (auto simp: vendor_create_def insert_row_def andThen_def ret_def split: prod.splits sum.splits)
  moreover have "runs C pass url_ok (vendor_create i nm sl)" by (rule run_intros)
  ultimately show ?thesis by (simp add: runs_def)
qed

lemma runs_seed [run_intros]: "runs C pass url_ok seed_demo"
  unfolding seed_demo_def by (intro run_intros)

section \<open>Every history is a run of the system\<close>

lemma world_event_runs:
  "w_db w1 = w_db w \<Longrightarrow> w_seq w1 = w_seq w \<Longrightarrow> sys_run C pass url_ok (w, ts) (w1, ts)"
  by (rule r_into_rtranclp) (rule sy_env)

lemma worker_event_runs:
  "sys_run (sv_crypto E) (sv_panel_key E) (sv_url_ok E) (ss_world s, []) (ss_world (worker_event E s), [])"
proof -
  obtain x w1 where t: "worker_tick (sv_crypto E) (sv_panel_key E) (multi_provision (sv_url_ok E))
      (ss_world s) = (x, w1)" by fastforce
  from tick_runs [OF t, of "[]"] t show ?thesis
    by (cases x) (simp_all add: worker_event_def)
qed

lemma restart_runs:
  "sys_run (sv_crypto E) (sv_panel_key E) (sv_url_ok E) (ss_world s, []) (ss_world (restart E s), [])"
proof -
  define w1 where "w1 = (ss_world s)\<lparr>w_hub := new_hub bus_new\<rparr>"
  have "sys_run (sv_crypto E) (sv_panel_key E) (sv_url_ok E) (ss_world s, []) (w1, [])"
    by (rule world_event_runs) (simp_all add: w1_def)
  moreover have "runs (sv_crypto E) (sv_panel_key E) (sv_url_ok E)
      (if sv_app_env E = ''development'' then seed_demo else ret ())"
    by (intro run_intros)
  ultimately show ?thesis
    unfolding restart_def w1_def [symmetric] runs_def by (auto intro: rtranclp_trans)
qed

lemma request_event_world:
  "ss_world (request_event E r s) = snd (snd (serve E r (ss_limiter s, ss_world s)))"
  by (simp add: request_event_def split: prod.splits)

lemma event_runs:
  "sys_run (sv_crypto E) (sv_panel_key E) (sv_url_ok E) (ss_world s, []) (ss_world (handle_event E ev s), [])"
proof (cases ev)
  case (EWorld now nano fs rs)
  then show ?thesis by (simp add: world_event_runs)
next
  case ERestart
  then show ?thesis by (simp add: restart_runs)
next
  case (ERequest r)
  then show ?thesis by (simp add: request_event_world runs_serve)
next
  case (EAudit e)
  then show ?thesis using runs_operations(10) by (simp add: runs_def)
next
  case EWorker
  then show ?thesis by (simp add: worker_event_runs)
next
  case EExpiry
  then show ?thesis using runs_operations(9) by (simp add: runs_def)
qed simp_all

lemma events_run:
  "sys_run (sv_crypto E) (sv_panel_key E) (sv_url_ok E) (ss_world s, []) (ss_world (run_events E evs s), [])"
proof (induction evs arbitrary: s)
  case (Cons ev evs)
  from rtranclp_trans [OF event_runs Cons.IH [of "handle_event E ev s"]] show ?case
    by (simp add: run_events_def)
qed (simp add: run_events_def)

section \<open>The limiter in the process\<close>

lemma serve_limiter: "fst (snd (serve E r (rl, w))) = snd (allow (w_nano w) (client_ip r) rl)"
  by (simp add: serve_def limit_requests_def Let_def split: prod.splits)

lemma event_limiter: "limiter_ok (ss_limiter s) \<Longrightarrow> limiter_ok (ss_limiter (handle_event E ev s))"
proof (cases ev)
  case (ERequest r)
  assume "limiter_ok (ss_limiter s)"
  moreover have "ss_limiter (request_event E r s) = fst (snd (serve E r (ss_limiter s, ss_world s)))"
    by (simp add: request_event_def split: prod.splits)
  ultimately show ?thesis using ERequest by (simp add: serve_limiter limiter_ok_allow)
qed (auto simp: restart_def server_limiter_def worker_event_def limiter_ok_new limiter_ok_cleanup
    split: prod.splits sum.splits)

lemma events_limiter: "limiter_ok (ss_limiter s) \<Longrightarrow> limiter_ok (ss_limiter (run_events E evs s))"
  by (induction evs arbitrary: s) (simp_all add: run_events_def event_limiter)

end
