(* ===== verification/HttpProps.thy ===== *)
theory HttpProps
  imports ServerCalm ServerLoop Demo
begin

text \<open>
  Properties of the server: who gets past the middleware, what a request does to the
  system, which requests can panic, whose data the handlers show, what a slug is, and how
  the server starts.
\<close>

section \<open>A configuration for the witnesses\<close>

definition toy_env :: server_env where
  "toy_env = \<lparr>sv_crypto = toy_crypto, sv_tokens = toy_tokens, sv_jwt_secret = ''s'',
     sv_panel_key = ''key'', sv_url_ok = (\<lambda>_. False), sv_qr = (\<lambda>s. s), sv_app_env = ''test'',
     sv_redis = [], sv_minio = [], sv_dial = (\<lambda>_. False), sv_templates = True,
     sv_files = (\<lambda>p. plain_error 404 p), sv_salt = ''salt'', sv_uuid = replicate 16 0\<rparr>"

definition toy_request :: "string \<Rightarrow> string \<Rightarrow> (string \<times> string) list \<Rightarrow> string \<Rightarrow> request" where
  "toy_request meth path hs b =
     \<lparr>rq_method = meth, rq_path = path, rq_query = [], rq_header = hs, rq_remote = ''1.2.3.4:5'',
      rq_body = b, rq_ctx = \<lparr>cx_user_id = None, cx_role = None, cx_vendor_id = None\<rparr>\<rparr>"

section \<open>Access\<close>

lemma distinct_routes: "distinct (map fst (server_routes E))"
  by (cases "sv_templates E") (simp_all add: server_routes_def store_routes_def api_routes_def
      proxy_routes_def protected_routes_def)

lemma protected_route:
  assumes "(pat, roles, h) \<in> set (protected_routes E)" and "(pat, g) \<in> set (server_routes E)"
  shows "g = protect E roles h"
proof -
  have "(pat, protect E roles h) \<in> set (server_routes E)"
    using assms(1) by (force simp: server_routes_def)
  with assms(2) distinct_routes show ?thesis by (metis eq_key_imp_eq_value)
qed

definition claims_ctx :: "Claims \<Rightarrow> ctx" where
  "claims_ctx c = \<lparr>cx_user_id = Some (Sub c), cx_role = Some (Role c), cx_vendor_id = Some (VendorID c)\<rparr>"

text \<open>A path that a protected pattern matches is not redirected for want of a last slash.\<close>

lemma protected_no_redirect:
  assumes "find_route (server_routes E) p = Some (pat, g)" and "(pat, roles, h) \<in> set (protected_routes E)"
  shows "has_pattern (server_routes E) p \<or> \<not> has_pattern (server_routes E) (p @ ''/'')"
proof (cases "pat = p")
  case True
  with find_route_Some(1) [OF assms(1)] show ?thesis by (force simp: has_pattern_def list_ex_iff)
next
  case False
  with find_route_Some(2) [OF assms(1)] have "ends_slash pat" "take (length pat) p = pat"
    by (auto simp: pattern_matches_def split: if_splits)
  then obtain q where p: "p = pat @ q" by (metis append_take_drop_id)
  with False have "q \<noteq> []" by simp
  with assms(2) \<open>ends_slash pat\<close> p show ?thesis
    by (auto simp: protected_routes_def has_pattern_def server_routes_def store_routes_def api_routes_def
        proxy_routes_def ends_slash_def split: if_splits)
qed

lemma protect_token:
  assumes "extract_bearer q \<noteq> []" and "parse_jwt (sv_tokens E) (sv_jwt_secret E) (extract_bearer q) = Some c"
  shows "protect E roles h q w =
     (if Role c \<in> set roles then h (q\<lparr>rq_ctx := claims_ctx c\<rparr>) w
      else (Inr (json_error 403 ''forbidden''), w))"
  using assms
  by (simp add: protect_def jwt_def require_role_def role_from_ctx_def claims_ctx_def Let_def)

lemma protected_served:
  assumes "find_route (server_routes E) (rq_path r) = Some (pat, g)"
    and "(pat, roles, h) \<in> set (protected_routes E)"
    and "rq_method r = ''CONNECT'' \<or> clean_path (rq_path r) = rq_path r"
    and "parse_jwt (sv_tokens E) (sv_jwt_secret E) (extract_bearer r) = Some c" and "Role c \<in> set roles"
  shows "serve_mux (server_routes E) r w = h (r\<lparr>rq_ctx := claims_ctx c\<rparr>) w"
proof -
  have "extract_bearer r \<noteq> []" using assms(4) by (auto simp: parse_jwt_def)
  moreover have "g = protect E roles h"
    using protected_route [OF assms(2)] find_route_Some(1) [OF assms(1)] by simp
  ultimately have "g r w = h (r\<lparr>rq_ctx := claims_ctx c\<rparr>) w"
    using assms(4,5) by (simp add: protect_token)
  then show ?thesis
    using assms(1,3) protected_no_redirect [OF assms(1,2)] by (auto simp: serve_mux_def Let_def)
qed

lemma protected_or_refused:
  assumes "find_route (server_routes E) (rq_path r) = Some (pat, g)"
    and "(pat, roles, h) \<in> set (protected_routes E)"
  shows "(\<exists>rs. fst (serve E r (rl, w)) = Inr rs \<and> rs_code rs \<in> {301, 401, 403, 429}) \<and>
         snd (snd (serve E r (rl, w))) = w \<or>
     (\<exists>c x w1 rs. parse_jwt (sv_tokens E) (sv_jwt_secret E) (extract_bearer r) = Some c \<and>
        Role c \<in> set roles \<and> h (r\<lparr>rq_ctx := claims_ctx c\<rparr>) w = (x, w1) \<and>
        snd (snd (serve E r (rl, w))) = w1 \<and> fst (serve E r (rl, w)) = Inr rs \<and>
        (case x of Inl e \<Rightarrow> rs_code rs = 500 | Inr rs1 \<Rightarrow> same_answer rs1 rs))"
proof -
  have g: "g = protect E roles h"
    using protected_route [OF assms(2)] find_route_Some(1) [OF assms(1)] by simp
  obtain x w1 where m: "serve_mux (server_routes E) r w = (x, w1)" by fastforce
  show ?thesis
  proof (cases "\<exists>c. parse_jwt (sv_tokens E) (sv_jwt_secret E) (extract_bearer r) = Some c \<and>
      Role c \<in> set roles \<and> h (r\<lparr>rq_ctx := claims_ctx c\<rparr>) w = (x, w1)")
    case True
    then show ?thesis
      using m by (cases rule: serve_cases [where r = r and rl = rl and w = w and E = E])
        (auto simp: serve_world intro!: exI [of _ x])
  next
    case no: False
    have "(\<exists>rs1. x = Inr rs1 \<and> rs_code rs1 \<in> {301, 401, 403}) \<and> w1 = w"
      using m
    proof (cases rule: serve_mux_cases)
      case (answered rs)
      with assms(1) show ?thesis by auto
    next
      case (routed p f)
      with assms(1) g no show ?thesis
        by (auto simp: protect_guarded protected_admit claims_ctx_def dest: protected_refuse
            split: sum.splits)
    qed
    then show ?thesis
      using m by (cases rule: serve_cases [where r = r and rl = rl and w = w and E = E])
        (auto simp: serve_world same_answer_def)
  qed
qed

lemma protected_runs:
  assumes "find_route (server_routes E) (rq_path r) = Some (pat, g)"
    and "(pat, roles, h) \<in> set (protected_routes E)" and "fst (allow (w_nano w) (client_ip r) rl)"
    and "rq_method r = ''CONNECT'' \<or> clean_path (rq_path r) = rq_path r"
    and "parse_jwt (sv_tokens E) (sv_jwt_secret E) (extract_bearer r) = Some c" and "Role c \<in> set roles"
  shows "\<exists>x w1 rs. h (r\<lparr>rq_ctx := claims_ctx c\<rparr>) w = (x, w1) \<and>
     snd (snd (serve E r (rl, w))) = w1 \<and> fst (serve E r (rl, w)) = Inr rs \<and>
     (case x of Inl e \<Rightarrow> rs_code rs = 500 | Inr rs1 \<Rightarrow> same_answer rs1 rs)"
proof -
  obtain x w1 where x: "h (r\<lparr>rq_ctx := claims_ctx c\<rparr>) w = (x, w1)" by fastforce
  then have "serve_mux (server_routes E) r w = (x, w1)"
    using protected_served [OF assms(1,2,4-6)] by simp
  then show ?thesis
    using x assms(3) by (cases rule: serve_cases [where r = r and rl = rl and w = w and E = E])
      (auto simp: serve_world)
qed

text \<open>
  C33. Protected routes. A request routed to a protected pattern is answered with 301, 401,
  403 or 429 and changes nothing, unless it carries a token the server signed whose role is
  admitted there; then the handler runs, exactly once, with the user, role and vendor of
  the token in its context and with nothing else changed in the request, and the client
  gets its answer, or 500 if it panics. Conversely, a request with such a token is not
  refused: if the limiter lets it pass and its path is in canonical form, the handler does run.
\<close>

theorem protected_requests:
  assumes "find_route (server_routes E) (rq_path r) = Some (pat, g)"
    and "(pat, roles, h) \<in> set (protected_routes E)"
  shows "((\<exists>rs. fst (serve E r (rl, w)) = Inr rs \<and> rs_code rs \<in> {301, 401, 403, 429}) \<and>
         snd (snd (serve E r (rl, w))) = w \<or>
     (\<exists>c x w1 rs. parse_jwt (sv_tokens E) (sv_jwt_secret E) (extract_bearer r) = Some c \<and>
        Role c \<in> set roles \<and> h (r\<lparr>rq_ctx := claims_ctx c\<rparr>) w = (x, w1) \<and>
        snd (snd (serve E r (rl, w))) = w1 \<and> fst (serve E r (rl, w)) = Inr rs \<and>
        (case x of Inl e \<Rightarrow> rs_code rs = 500 | Inr rs1 \<Rightarrow> same_answer rs1 rs))) \<and>
     (\<forall>c. fst (allow (w_nano w) (client_ip r) rl) \<longrightarrow>
        rq_method r = ''CONNECT'' \<or> clean_path (rq_path r) = rq_path r \<longrightarrow>
        parse_jwt (sv_tokens E) (sv_jwt_secret E) (extract_bearer r) = Some c \<longrightarrow> Role c \<in> set roles \<longrightarrow>
        (\<exists>x w1 rs. h (r\<lparr>rq_ctx := claims_ctx c\<rparr>) w = (x, w1) \<and>
           snd (snd (serve E r (rl, w))) = w1 \<and> fst (serve E r (rl, w)) = Inr rs \<and>
           (case x of Inl e \<Rightarrow> rs_code rs = 500 | Inr rs1 \<Rightarrow> same_answer rs1 rs)))"
  using protected_or_refused [OF assms] protected_runs [OF assms] by blast

text \<open>A top-up without a token.\<close>

definition topup_request :: request where
  "topup_request = toy_request ''POST'' ''/api/v1/admin/wallet/topup'' []
     ''{\"user_id\": 2, \"amount\": 1000}''"

lemma topup_route:
  "find_route (server_routes toy_env) (rq_path topup_request) =
     Some (''/api/v1/admin/wallet/topup'', protect toy_env admin_roles server_topup)"
  by (simp add: find_route_def server_routes_def store_routes_def api_routes_def proxy_routes_def
      protected_routes_def pattern_matches_def ends_slash_def topup_request_def toy_request_def
      toy_env_def)

text \<open>The same request with a token of an administrator.\<close>

definition admin_request :: request where
  "admin_request = topup_request\<lparr>rq_header :=
     [(''Authorization'', ''Bearer '' @ sign_jwt toy_tokens ''s'' 1 ''admin'' 0)]\<rparr>"

lemma admin_request_token:
  "parse_jwt (sv_tokens toy_env) (sv_jwt_secret toy_env) (extract_bearer admin_request) =
     Some \<lparr>Sub = 1, Role = ''admin'', VendorID = 0\<rparr>"
proof -
  have "extract_bearer admin_request = sign_jwt toy_tokens ''s'' 1 ''admin'' 0"
    by (simp add: extract_bearer_def header_get_def same_name_def admin_request_def)
  moreover have "valid_utf8 ''admin''" by code_simp
  ultimately show ?thesis
    using parse_sign_jwt [of 1 toy_tokens "''s''" "''admin''" 0]
    by (simp add: toy_env_def fits64_def repair_valid)
qed

lemma admin_topup:
  "map wa_balance (wallets (w_db (snd (server_topup (admin_request\<lparr>rq_ctx := c\<rparr>) (demo_world [] []))))) = [1500]"
proof -
  let ?r = "admin_request\<lparr>rq_ctx := c\<rparr>" and ?t = "apply_transaction 2 1000 ''admin_topup'' (demo_world [] [])"
  have "decode_body topup_fields topup_request = Some (2, 1000)" by code_simp
  then have "decode_body topup_fields ?r = Some (2, 1000)" "rq_method ?r = ''POST''"
    by (simp_all add: decode_body_def admin_request_def topup_request_def toy_request_def)
  moreover have "fst ?t = Inr ()" "map wa_balance (wallets (w_db (snd ?t))) = [1500]" by code_simp+
  ultimately show ?thesis
    by (cases ?t) (auto simp: server_topup_def post_only_def with_body_def checked_def attempt_def ret_def
        split: sum.splits)
qed

theorem protected_requests_witness:
  "snd (snd (serve toy_env topup_request (server_limiter, demo_world [] []))) = demo_world [] [] \<and>
   map wa_balance (wallets (w_db (snd (snd (serve toy_env admin_request (server_limiter, demo_world [] [])))))) = [1500]"
proof
  have p: "(''/api/v1/admin/wallet/topup'', admin_roles, server_topup) \<in> set (protected_routes toy_env)"
    by (simp add: protected_routes_def)
  have "parse_jwt T k (extract_bearer topup_request) = None" for T k
    by (simp add: extract_bearer_def header_get_def topup_request_def toy_request_def parse_jwt_def)
  with protected_requests [OF topup_route p, of server_limiter "demo_world [] []"]
  show "snd (snd (serve toy_env topup_request (server_limiter, demo_world [] []))) = demo_world [] []" by auto
  have path: "rq_path admin_request = rq_path topup_request" by (simp add: admin_request_def)
  have "clean_path (rq_path admin_request) = rq_path admin_request"
    by (simp add: clean_path_def Let_def ends_slash_def admin_request_def topup_request_def toy_request_def)
  moreover have "fst (allow (w_nano (demo_world [] [])) (client_ip admin_request) server_limiter)"
    by (simp add: allow_def server_limiter_def new_rate_limiter_def Let_def)
  ultimately obtain x w1 where
    "server_topup (admin_request\<lparr>rq_ctx := claims_ctx \<lparr>Sub = 1, Role = ''admin'', VendorID = 0\<rparr>\<rparr>) (demo_world [] []) =
       (x, w1)"
    "snd (snd (serve toy_env admin_request (server_limiter, demo_world [] []))) = w1"
    using protected_requests [OF topup_route [folded path] p, of server_limiter "demo_world [] []", THEN conjunct2]
      admin_request_token by (fastforce simp: admin_roles_def)
  with admin_topup [of "claims_ctx \<lparr>Sub = 1, Role = ''admin'', VendorID = 0\<rparr>"]
  show "map wa_balance (wallets (w_db (snd (snd (serve toy_env admin_request (server_limiter, demo_world [] [])))))) = [1500]"
    by simp
qed

section \<open>The server and the running system\<close>

text \<open>
  C34. Serving is a run of the system. Whatever request arrives, in whatever state, what
  the server does to the world while it answers is a run of the steps of the system with
  the tasks in flight left alone. So is the whole life of the process: any sequence of
  requests, audit records, worker ticks, expiry runs, cleanups of the limiter, crashes and
  restarts (which seed the demo shop in development), with any faults of the database and
  any replies of the panels in between. So everything that holds in the reachable states
  holds under all HTTP traffic.
\<close>

theorem serve_refines_steps:
  "sys_run (sv_crypto E) (sv_panel_key E) (sv_url_ok E) (w, ts)
     (snd (snd (serve E r (rl, w))), ts) \<and>
   sys_run (sv_crypto E) (sv_panel_key E) (sv_url_ok E) (ss_world s, [])
     (ss_world (run_events E evs s), [])"
  using runs_serve events_run by auto

section \<open>Panics\<close>

lemma provision_panic:
  assumes "proxy_provision C pass url_ok rnd q w = (Inl e, w')" and "is_panic e"
  shows "\<exists>p w1. panel_first_active C pass (SQ_VendorID q) w = (Inr p, w1) \<and>
     \<not> url_ok (XP_URL p @ ''/api/clients'')"
proof -
  have "\<exists>p w1 w2 uuid ex i. panel_first_active C pass (SQ_VendorID q) w = (Inr p, w1) \<and>
      settle_provision url_ok p q uuid ex i w2 = (Inl e, w')"
  proof -
    have t: "\<not> is_panic e'"
      if "transaction (ErrWrap ''begin tx'') (ErrWrap ''commit'') (onErr (ErrWrap ''create proxy service'')
         (proxy_create_tx rc)) v = (Inl e', v')" for rc v v' e'
      using calmD [OF calm_transaction [OF calm_basic(6)], OF _ _ that] by simp
    from assms show ?thesis
      unfolding proxy_provision_def Let_def andThen_Inl onErr_Inl
      by (auto simp: getNano_iff onErr_Inr dest: t) blast
  qed
  then obtain p w1 w2 uuid ex i where p: "panel_first_active C pass (SQ_VendorID q) w = (Inr p, w1)" and
    "settle_provision url_ok p q uuid ex i w2 = (Inl e, w')" by blast
  moreover have loop: "\<not> url_ok (X_URL pn @ ''/api/clients'')"
    if "provision_loop url_ok pn rq exp n lst v = (Inl e', v')" "is_panic e'" for pn rq exp n lst v e' v'
    using that
  proof (induction n arbitrary: lst v)
    case (Suc n)
    then show ?case
      by (auto simp: create_client_def Let_def split: if_splits list.splits reply.splits option.splits)
  qed auto
  ultimately have "\<not> url_ok (XP_URL p @ ''/api/clients'')"
    using assms(2)
    by (auto simp: settle_provision_def attempt_def multi_provision_def fail_def andThen_Inl ret_def
        orElse_def notifyAct_def dest!: loop split: prod.splits sum.splits if_splits)
  with p show ?thesis by blast
qed

lemma handler_panic:
  assumes "proxy_handler_provision E r w = (Inl e, w1)"
  shows "rq_method r = ''POST'' \<and> is_panic e \<and>
     (\<exists>q. proxy_provision (sv_crypto E) (sv_panel_key E) (sv_url_ok E) (sv_uuid E) q w = (Inl e, w1))"
proof -
  from assms have m: "rq_method r = ''POST''"
    by (auto simp: proxy_handler_provision_def post_only_def ret_def split: if_splits)
  with assms obtain q k where
    "checked (proxy_provision (sv_crypto E) (sv_panel_key E) (sv_url_ok E) (sv_uuid E) q) err_400
       (\<lambda>resp. ret (k resp)) w = (Inl e, w1)"
    by (auto simp: proxy_handler_provision_def post_only_def with_body_def bad_request_def ret_def
        split: option.splits prod.splits)
  then show ?thesis
  proof (cases rule: checked_cases)
    case (panic e1)
    with m show ?thesis by (auto simp: checked_def attempt_def fail_def)
  qed (simp_all add: ret_def)
qed

text \<open>
  C35. Panics. A handler can panic on one route only, \<open>POST /api/v1/service/provision\<close>, and
  only when an active panel is stored with an address that is not a URL: the server answers
  500 to that client (or 429 before it gets there) and goes on. Every other request ends
  with an answer of its handler.
\<close>

theorem panic_only_at_provision:
  assumes "serve_mux (server_routes E) r w = (Inl e, w1)"
  shows "rq_path r = ''/api/v1/service/provision'' \<and> rq_method r = ''POST'' \<and> is_panic e \<and>
     (\<exists>p\<in>set (panels (w_db w)). x_is_active p \<and> \<not> sv_url_ok E (x_url p @ ''/api/clients'')) \<and>
     (\<exists>rs. fst (serve E r (rl, w)) = Inr rs \<and> rs_code rs \<in> {429, 500})"
  using assms
proof (cases rule: serve_mux_cases)
  case (routed pat h)
  note mem = find_route_Some(1,2) [OF routed(1)]
  have pat: "pat = ''/api/v1/service/provision''"
    using total_routes [OF mem(1)] routed(2) by (auto simp: total_def)
  have "(pat, proxy_handler_provision E) \<in> set (server_routes E)"
    by (simp add: pat server_routes_def proxy_routes_def)
  with mem(1) distinct_routes have "h = proxy_handler_provision E" by (metis eq_key_imp_eq_value)
  then obtain q where h: "rq_method r = ''POST''" "is_panic e" and
    q: "proxy_provision (sv_crypto E) (sv_panel_key E) (sv_url_ok E) (sv_uuid E) q w = (Inl e, w1)"
    using handler_panic routed(2) by blast
  from provision_panic [OF q h(2)] obtain p w2 where
    p: "panel_first_active (sv_crypto E) (sv_panel_key E) (SQ_VendorID q) w = (Inr p, w2)"
      "\<not> sv_url_ok E (XP_URL p @ ''/api/clients'')" by blast
  have "\<exists>p\<in>set (panels (w_db w)). x_is_active p \<and> \<not> sv_url_ok E (x_url p @ ''/api/clients'')"
    using panel_read [OF p(1)] p(2) by (auto simp: panel_of_row_def map_sum_Inr_iff)
  moreover have "rq_path r = ''/api/v1/service/provision''"
    using mem(2) by (simp add: pat pattern_matches_def ends_slash_def)
  moreover have "\<exists>rs. fst (serve E r (rl, w)) = Inr rs \<and> rs_code rs \<in> {429, 500}"
    using assms by (cases rule: serve_cases [where r = r and rl = rl and w = w and E = E]) auto
  ultimately show ?thesis using h by blast
qed simp

text \<open>A server whose URL parser rejects the address of the demo panel.\<close>

definition provision_request :: request where
  "provision_request = toy_request ''POST'' ''/api/v1/service/provision'' []
     ''{\"vendor_id\": 1, \"user_id\": 2}''"

theorem panic_only_at_provision_witness:
  "\<exists>rs. fst (serve toy_env provision_request (server_limiter, demo_world [] [])) = Inr rs \<and>
     rs_code rs \<in> {429, 500}"
proof -
  have route: "serve_mux (server_routes toy_env) provision_request =
      proxy_handler_provision toy_env provision_request"
    by (simp add: fun_eq_iff serve_mux_def clean_path_def Let_def ends_slash_def has_pattern_def find_route_def
        server_routes_def store_routes_def api_routes_def proxy_routes_def protected_routes_def
        pattern_matches_def provision_request_def toy_request_def toy_env_def)
  have "fst (proxy_handler_provision toy_env provision_request (demo_world [] [])) =
      Inl (ErrPanic ''nil *http.Request'')"
    by code_simp
  then obtain e w1 where "serve_mux (server_routes toy_env) provision_request (demo_world [] []) = (Inl e, w1)"
    unfolding route by (metis prod.collapse)
  from panic_only_at_provision [OF this, of server_limiter] show ?thesis by blast
qed

end
