(* ===== verification/PageProps.thy ===== *)
theory PageProps
  imports HttpProps
begin

text \<open>
  Properties of what is shown: what a slug is, what the public storefront shows, whose data
  a signed-in user sees; and how long the server waits for its database.
\<close>

section \<open>Slugs\<close>

text \<open>
  C37. Slugs. The matcher accepts exactly the language of the regular expression of the
  source, and that is: the parts between the hyphens are not empty and consist of lower-case
  letters and digits.
\<close>

theorem slug_language:
  "(validate_slug s = None \<longleftrightarrow> matches slug_re s) \<and>
   (validate_slug s = None \<longleftrightarrow> list_all slug_part (split_on CHR ''-'' s))"
  by (simp add: validate_slug_None slug_parts)

section \<open>The storefront\<close>

definition open_vendor :: "db \<Rightarrow> StoreVendor \<Rightarrow> bool" where
  "open_vendor d v \<longleftrightarrow> (\<exists>r\<in>set (vendors d). v = store_vendor_of_row r \<and> v_status r = ''active'' \<and>
     v_deleted_at r = None)"

definition product_of :: "db \<Rightarrow> StoreVendor \<Rightarrow> Product \<Rightarrow> bool" where
  "product_of d v p \<longleftrightarrow> (\<exists>c\<in>set (catalog_items d). p = product_of_row c \<and>
     c_vendor_id c = SV_ID v \<and> c_deleted_at c = None)"

definition balance_of :: "db \<Rightarrow> int \<Rightarrow> int \<Rightarrow> bool" where
  "balance_of d u b \<longleftrightarrow> b = 0 \<or> (\<exists>r\<in>set (wallets d). wa_user_id r = u \<and> wa_deleted_at r = None \<and> wa_balance r = b)"

text \<open>What a page of the store may show to a visitor, signed in as \<open>user\<close> or not.\<close>

fun store_shows :: "db \<Rightarrow> int option \<Rightarrow> page_data \<Rightarrow> bool" where
  "store_shows d user (D_title t) = True"
| "store_shows d user (D_message t) = True"
| "store_shows d user (D_vendor v) = open_vendor d v"
| "store_shows d user (D_products v ps) = (open_vendor d v \<and> list_all (product_of d v) ps)"
| "store_shows d user (D_product v p) = (open_vendor d v \<and> product_of d v p \<and> PR_IsActive p)"
| "store_shows d user (D_checkout v p bal ok) =
     (open_vendor d v \<and> product_of d v p \<and> PR_IsActive p \<and> ok = (PR_PriceToman p \<le> bal) \<and>
      (case user of None \<Rightarrow> False | Some u \<Rightarrow> balance_of d u bal))"
| "store_shows d user _ = False"

lemma wallet_balance_of: "wallet_service_balance u w = (Inr b, w') \<Longrightarrow> balance_of (w_db w) u b"
  by (auto simp: wallet_service_balance_def wallet_balance_def query_Inr map_sum_Inr_iff balance_of_def
      dest!: select_first_InrD)

lemma orElse_cases:
  assumes "andThen (orElse z m) f w = (x, w1)"
  obtains y w2 where "f y w2 = (x, w1)" "m w = (Inr y, w2) \<or> y = z \<and> (\<exists>e. m w = (Inl e, w2))"
  using assms by (auto simp: andThen_def orElse_def split: prod.splits sum.splits)

lemma checkout_shows:
  assumes "checkout_page T secret r v p w = (Inr rs, w1)"
    and "w_db w = d" and "open_vendor d v" and "product_of d v p" and "PR_IsActive p"
  shows "\<exists>t pg. rs_content rs = R_page t pg \<and>
     store_shows d (map_option Sub (parse_jwt T secret (extract_bearer r))) pg"
proof (cases "extract_bearer r = [] \<or> parse_jwt T secret (extract_bearer r) = None")
  case True
  with assms show ?thesis by (auto simp: checkout_page_def Let_def render_def ret_def split: if_splits)
next
  case False
  then obtain c where c: "parse_jwt T secret (extract_bearer r) = Some c" "extract_bearer r \<noteq> []" by auto
  with assms(1) have "andThen (orElse 0 (wallet_service_balance (Sub c))) (\<lambda>bal.
      ret (render ''checkout.html'' (D_checkout v p bal (PR_PriceToman p \<le> bal)) 200)) w = (Inr rs, w1)"
    by (simp add: checkout_page_def Let_def)
  then obtain b w2 where "ret (render ''checkout.html'' (D_checkout v p b (PR_PriceToman p \<le> b)) 200) w2 =
      (Inr rs, w1)" and b: "wallet_service_balance (Sub c) w = (Inr b, w2) \<or>
      b = 0 \<and> (\<exists>e. wallet_service_balance (Sub c) w = (Inl e, w2))"
    by (rule orElse_cases)
  moreover have "balance_of d (Sub c) b"
    using b assms(2) wallet_balance_of [of "Sub c" w b w2] by (auto simp: balance_of_def)
  ultimately show ?thesis using assms(3-5) c by (auto simp: ret_def render_def)
qed

lemma product_page_shows:
  assumes "product_page v s k w = (Inr rs, w1)" and "w_db w = d"
    and k: "\<And>p w2. product_of d v p \<Longrightarrow> PR_IsActive p \<Longrightarrow> w_db w2 = d \<Longrightarrow> k p w2 = (Inr rs, w1) \<Longrightarrow>
      \<exists>t pg. rs_content rs = R_page t pg \<and> store_shows d u pg"
  shows "\<exists>t pg. rs_content rs = R_page t pg \<and> store_shows d u pg"
  using assms(1) unfolding product_page_def
proof (cases rule: checked_cases)
  case (ok p w2)
  have "w_db w2 = d" using quietD [OF store_quiet(3) ok(1)] assms(2) by (simp add: quiet_rel_def)
  moreover have "product_of d v p"
    using get_product_Inr [OF ok(1)] assms(2) by (auto simp: product_of_def)
  ultimately show ?thesis
    using ok(2) k [of p w2] by (auto simp: ret_def not_found_page_def render_def split: if_splits)
qed (auto simp: not_found_page_def render_def)

lemma vendor_page_shows:
  assumes "vendor_page v w = (Inr rs, w1)" and "w_db w = d" and "open_vendor d v"
  shows "\<exists>t pg. rs_content rs = R_page t pg \<and> store_shows d u pg"
  using assms(1) unfolding vendor_page_def
proof (rule orElse_cases)
  fix ps w2
  assume "ret (render ''vendor.html'' (D_products v ps) 200) w2 = (Inr rs, w1)"
    and "list_products (SV_ID v) w = (Inr ps, w2) \<or> ps = [] \<and> (\<exists>e. list_products (SV_ID v) w = (Inl e, w2))"
  moreover from this(2) have "list_all (product_of d v) ps"
    using assms(2) by (auto simp: list_all_iff product_of_def dest: list_products_Inr)
  ultimately show ?thesis using assms(3) by (auto simp: ret_def render_def)
qed

lemma segments_show:
  assumes "store_segments T secret r seg v w = (Inr rs, w1)" and "w_db w = d" and "open_vendor d v"
  shows "\<exists>t pg. rs_content rs = R_page t pg \<and>
     store_shows d (map_option Sub (parse_jwt T secret (extract_bearer r))) pg"
  using assms(1,3) unfolding store_segments_def
  by (auto split: if_splits simp: not_found_page_def render_def ret_def
      dest: vendor_page_shows [OF _ assms(2,3)]
      elim!: product_page_shows [OF _ assms(2)] checkout_shows)

text \<open>
  C38. The public storefront. Every page the store renders, whatever the path and the
  headers, shows only vendors that are active and not deleted, with products of theirs that
  are not deleted; a product page or a checkout only for an active product; and a balance
  only to the bearer of a signed token, namely that user's, with the purchase offered
  exactly when it covers the price. Nothing is written.
\<close>

theorem storefront_shows:
  assumes "store_router T secret r w = (Inr rs, w1)"
  shows "w_db w1 = w_db w \<and> w_seq w1 = w_seq w \<and>
     (\<exists>t pg. rs_content rs = R_page t pg \<and>
        store_shows (w_db w) (map_option Sub (parse_jwt T secret (extract_bearer r))) pg)"
proof -
  have q: "quiet_rel w w1" using store_router_quiet assms by (rule quietD)
  have "\<exists>t pg. rs_content rs = R_page t pg \<and>
      store_shows (w_db w) (map_option Sub (parse_jwt T secret (extract_bearer r))) pg"
  proof (cases "path_below ''/store'' r = []")
    case True
    with assms show ?thesis by (auto simp: store_router_def ret_def render_def)
  next
    case False
    let ?seg = "split_on CHR ''/'' (path_below ''/store'' r)"
    from False assms have "checked (get_vendor_by_slug (hd ?seg)) (\<lambda>_. not_found_page ''vendor not found'') (\<lambda>v.
        if SV_Status v \<noteq> ''active'' then ret (not_found_page ''vendor suspended'')
        else store_segments T secret r ?seg v) w = (Inr rs, w1)"
      by (simp add: store_router_def Let_def)
    then show ?thesis
    proof (cases rule: checked_cases)
      case (ok v w2)
      have "w_db w2 = w_db w" using quietD [OF store_quiet(1) ok(1)] by (simp add: quiet_rel_def)
      moreover from get_vendor_Inr [OF ok(1)] have "SV_Status v = ''active'' \<Longrightarrow> open_vendor (w_db w) v"
        by (auto simp: open_vendor_def store_vendor_of_row_def)
      ultimately show ?thesis
        using ok(2) segments_show [of T secret r ?seg v w2 rs w1 "w_db w"]
        by (auto simp: ret_def not_found_page_def render_def split: if_splits)
    qed (auto simp: not_found_page_def render_def)
  qed
  with q show ?thesis by (simp add: quiet_rel_def)
qed

theorem storefront_shows_witness:
  "store_shows demo_db None (D_product (store_vendor_of_row (hd (vendors demo_db))) (product_of_row demo_item))"
proof -
  let ?r = "toy_request ''GET'' ''/store/demo/products/vless/checkout'' [] []"
  let ?rs = "render ''checkout_login.html'' (D_product (store_vendor_of_row (hd (vendors demo_db)))
        (product_of_row demo_item)) 200"
  have "fst (store_router toy_tokens ''s'' ?r (demo_world [] [])) = Inr ?rs"
    by code_simp
  then obtain w1 where "store_router toy_tokens ''s'' ?r (demo_world [] []) = (Inr ?rs, w1)"
    by (metis prod.collapse)
  moreover have "parse_jwt toy_tokens ''s'' (extract_bearer ?r) = None" by code_simp
  ultimately show ?thesis
    using storefront_shows [of toy_tokens "''s''" ?r "demo_world [] []" ?rs w1]
    by (simp add: render_def demo_world_def del: store_shows.simps)
qed

section \<open>Own data\<close>

text \<open>What a page or an answer may show to user \<open>u\<close>.\<close>

fun own_page :: "db \<Rightarrow> int \<Rightarrow> page_data \<Rightarrow> bool" where
  "own_page d u (D_summary b ss os) = (balance_of d u b \<and> list_all (\<lambda>s. PS_UserID s = u) ss \<and>
     list_all (\<lambda>ord. O_UserID ord = u) os \<and> length os \<le> 10)"
| "own_page d u (D_services ss) = list_all (\<lambda>s. PS_UserID s = u) ss"
| "own_page d u (D_service s qr) = (PS_UserID s = u)"
| "own_page d u (D_orders os) = (list_all (\<lambda>ord. O_UserID ord = u) os \<and> length os \<le> 50)"
| "own_page d u (D_wallet b ts) = (balance_of d u b \<and> list_all (\<lambda>t. wt_user_id t = u) ts \<and> length ts \<le> 20)"
| "own_page d u _ = False"

fun own_content :: "db \<Rightarrow> int \<Rightarrow> content \<Rightarrow> bool" where
  "own_content d u (R_page t pg) = own_page d u pg"
| "own_content d u (R_order ord) = (O_UserID ord = u)"
| "own_content d u (R_error m) = True"
| "own_content d u (R_text m) = True"
| "own_content d u _ = False"

lemma own_lists:
  "orders_list_by_user u n w = (Inr os, w1) \<Longrightarrow> list_all (\<lambda>ord. O_UserID ord = u) os \<and> length os \<le> n"
  "proxy_list_all_by_user u w = (Inr ss, w1) \<Longrightarrow> list_all (\<lambda>s. PS_UserID s = u) ss"
  "list_transactions u n w = (Inr ts, w1) \<Longrightarrow> list_all (\<lambda>t. wt_user_id t = u) ts \<and> length ts \<le> n"
  "proxy_by_id_for_user i u w = (Inr s, w1) \<Longrightarrow> PS_UserID s = u"
  by (auto simp: orders_list_by_user_def proxy_list_all_by_user_def list_proxies_def
      list_transactions_def proxy_by_id_for_user_def select_proxy_def query_Inr map_sum_Inr_iff
      list_all_iff order_of_row_def record_of_row_def dest!: in_set_takeD select_first_InrD)

lemma summary_own: "dashboard_summary u w = (Inr rs, w1) \<Longrightarrow> own_content (w_db w) u (rs_content rs)"
  unfolding dashboard_summary_def
proof (rule orElse_cases, assumption)
  fix b w2
  assume b: "wallet_service_balance u w = (Inr b, w2) \<or> b = 0 \<and> (\<exists>e. wallet_service_balance u w = (Inl e, w2))"
    and "andThen (orElse [] (proxy_list_all_by_user u)) (\<lambda>svcs.
     andThen (orElse [] (orders_list_by_user u 10)) (\<lambda>ords.
     ret (render ''dashboard_index.html'' (D_summary b svcs ords) 200))) w2 = (Inr rs, w1)"
  moreover from b have "balance_of (w_db w) u b"
    using wallet_balance_of [of u w b w2] by (auto simp: balance_of_def)
  ultimately show ?thesis
    by (elim orElse_cases) (auto simp: ret_def render_def dest: own_lists)
qed

lemma services_own:
  "dashboard_services qr u seg w = (Inr rs, w1) \<Longrightarrow> own_content (w_db w) u (rs_content rs)"
  unfolding dashboard_services_def
  by (auto split: if_splits elim!: orElse_cases checked_cases
      simp: ret_def render_def plain_error_def dest!: own_lists)

lemma dashboard_own:
  assumes "dashboard_router qr r w = (Inr rs, w1)"
  shows "own_content (w_db w) (user_id_from_ctx r) (rs_content rs)"
proof -
  let ?u = "user_id_from_ctx r"
  have wallet: "own_content (w_db w) ?u (rs_content rs)"
    if "andThen (orElse 0 (wallet_service_balance ?u)) (\<lambda>bal.
          andThen (orElse [] (list_transactions ?u 20)) (\<lambda>txs.
          ret (render ''dashboard_wallet.html'' (D_wallet bal txs) 200))) w = (Inr rs, w1)"
    using that
  proof (rule orElse_cases)
    fix b w2
    assume b: "wallet_service_balance ?u w = (Inr b, w2) \<or> b = 0 \<and> (\<exists>e. wallet_service_balance ?u w = (Inl e, w2))"
      and "andThen (orElse [] (list_transactions ?u 20)) (\<lambda>txs.
          ret (render ''dashboard_wallet.html'' (D_wallet b txs) 200)) w2 = (Inr rs, w1)"
    moreover from b have "balance_of (w_db w) ?u b"
      using wallet_balance_of [of ?u w b w2] by (auto simp: balance_of_def)
    ultimately show ?thesis
      by (elim orElse_cases) (auto simp: ret_def render_def dest: own_lists)
  qed
  have orders: "own_content (w_db w) ?u (rs_content rs)"
    if "andThen (orElse [] (orders_list_by_user ?u 50)) (\<lambda>ords.
          ret (render ''dashboard_orders.html'' (D_orders ords) 200)) w = (Inr rs, w1)"
    using that by (elim orElse_cases) (auto simp: ret_def render_def dest: own_lists)
  show ?thesis
    using assms unfolding dashboard_router_def Let_def
    by (auto split: if_splits intro: summary_own services_own wallet orders
        simp: ret_def plain_error_def)
qed

text \<open>
  C39. Own data. To a caller with the role \<open>user\<close>, reading an order gives an order of that
  user or an error; and every page of the dashboard, for any role, shows only the caller's
  balance, services, orders (the latest 10 or 50) and wallet entries (the latest 20), or
  that the page does not exist.
\<close>

theorem own_data:
  assumes "dashboard_router qr r w = (Inr rs, w1)"
    and "server_order_get r' w = (Inr rs', w2)" and "role_from_ctx r' = ''user''"
  shows "own_content (w_db w) (user_id_from_ctx r) (rs_content rs) \<and>
     own_content (w_db w) (user_id_from_ctx r') (rs_content rs')"
proof
  show "own_content (w_db w) (user_id_from_ctx r) (rs_content rs)"
    using assms(1) by (rule dashboard_own)
  show "own_content (w_db w) (user_id_from_ctx r') (rs_content rs')"
    using assms(2) unfolding server_order_get_def
    by (rule checked_cases)
       (use assms(3) in \<open>auto simp: ret_def http_error_def write_json_def split: if_splits\<close>)
qed

theorem own_data_witness:
  "own_content demo_db 2 (R_page ''dashboard_wallet.html'' (D_wallet 500 (wallet_txs demo_db)))"
proof -
  let ?r = "(toy_request ''GET'' ''/dashboard/wallet'' [] [])
    \<lparr>rq_ctx := \<lparr>cx_user_id = Some 2, cx_role = Some ''user'', cx_vendor_id = Some 0\<rparr>\<rparr>"
  let ?rs = "render ''dashboard_wallet.html'' (D_wallet 500 (wallet_txs demo_db)) 200"
  have "fst (dashboard_router (\<lambda>s. s) ?r (demo_world [] [])) = Inr ?rs" by code_simp
  then obtain w1 where d: "dashboard_router (\<lambda>s. s) ?r (demo_world [] []) = (Inr ?rs, w1)"
    by (metis prod.collapse)
  have "fst (server_order_get ?r (demo_world [] [])) = Inr (http_error 404 ''not found'')" by code_simp
  then obtain w2 where g: "server_order_get ?r (demo_world [] []) = (Inr (http_error 404 ''not found''), w2)"
    by (metis prod.collapse)
  have "role_from_ctx ?r = ''user''" "user_id_from_ctx ?r = 2"
    by (simp_all add: role_from_ctx_def user_id_from_ctx_def)
  with own_data [OF d g] show ?thesis
    by (simp add: render_def demo_world_def del: own_content.simps)
qed

section \<open>Waiting for the database\<close>

text \<open>
  C40. Connecting. With an address and a driver that opens, \<open>NewPostgres\<close> ends with the
  first of fifteen pings that succeeds, or after the fifteenth with an error; it has slept
  half a second times the number of each failed attempt, a minute at the most.
\<close>

theorem connect_attempts:
  assumes "dsn \<noteq> []"
  shows "new_postgres None ping dsn =
       (case find ping [1..<16] of
          Some k \<Rightarrow> Inr k
        | None \<Rightarrow> Inl (ErrNew ''postgres did not become ready in time''),
        500 * sum_list (takeWhile (\<lambda>k. \<not> ping k) [1..<16])) \<and>
     snd (new_postgres None ping dsn) \<le> 60000"
proof -
  have "new_postgres None ping dsn = connect_loop ping 1 0"
    using assms by (simp add: new_postgres_def)
  also note connect_loop_find
  finally have eq: "new_postgres None ping dsn =
       (case find ping [1..<16] of
          Some k \<Rightarrow> Inr k
        | None \<Rightarrow> Inl (ErrNew ''postgres did not become ready in time''),
        500 * sum_list (takeWhile (\<lambda>k. \<not> ping k) [1..<16]))"
    by simp
  have "sum_list [1..<16] = (120 :: nat)" by code_simp
  moreover have "sum_list [1..<16] =
      sum_list (takeWhile (\<lambda>k. \<not> ping k) [1..<16]) + sum_list (dropWhile (\<lambda>k. \<not> ping k) [1..<16])"
    by (metis sum_list_append takeWhile_dropWhile_id)
  ultimately have "sum_list (takeWhile (\<lambda>k. \<not> ping k) [1..<16]) \<le> 120" by simp
  with eq show ?thesis by simp
qed

theorem connect_attempts_witness:
  "new_postgres None (\<lambda>k. k = 3) ''dsn'' = (Inr 3, 1500)"
proof -
  have "find (\<lambda>k. k = 3) [1..<16] = Some (3 :: nat)"
    "sum_list (takeWhile (\<lambda>k. \<not> k = 3) [1..<16]) = (3 :: nat)"
    by code_simp+
  with connect_attempts [of "''dsn''" "\<lambda>k. k = 3"] show ?thesis by simp
qed

end
