(* ===== verification/Wire.thy ===== *)
theory Wire
  imports Server "HOL-Library.Sublist"
begin

text \<open>
  What goes over the wire: the JSON text of the answers of \<open>internal/http/server.go\<close>,
  \<open>internal/http/api/router.go\<close>, \<open>internal/order/handler.go\<close> and
  \<open>internal/proxy/handler.go\<close>, and the event stream of \<open>internal/notification/hub.go\<close>.

  Two things come from outside: \<open>drv\<close> is the text of an error of the driver or of another
  library, \<open>tm\<close> the text of a time in nanoseconds, which depends on the time zone of the
  server; \<open>time.Time\<close> has none outside the years 0 to 9999.
\<close>

section \<open>Texts of errors\<close>

fun err_text :: "(err \<Rightarrow> string) \<Rightarrow> err \<Rightarrow> string" where
  "err_text drv ErrNoRows = ''sql: no rows in result set''"
| "err_text drv (ErrNew s) = s"
| "err_text drv (ErrWrap s e) = s @ '': '' @ err_text drv e"
| "err_text drv (ErrStatus s n) = s @ show_int n"
| "err_text drv e = drv e"

section \<open>Answers\<close>

text \<open>
  Structs are written with the names of their tags, or of their fields where there is no tag;
  a pointer that is nil and a slice that was never appended to are \<open>null\<close>.
\<close>

definition json_ptr :: "('a \<Rightarrow> json) \<Rightarrow> 'a option \<Rightarrow> json" where
  "json_ptr f x = (case x of None \<Rightarrow> JNull | Some y \<Rightarrow> f y)"

definition json_slice :: "('a \<Rightarrow> json) \<Rightarrow> 'a list \<Rightarrow> json" where
  "json_slice f xs = (if xs = [] then JNull else JArr (map f xs))"

definition json_omit :: "string \<Rightarrow> json option \<Rightarrow> (string \<times> json) list" where
  "json_omit name v = (case v of None \<Rightarrow> [] | Some j \<Rightarrow> [(name, j)])"

definition created_json :: "CreateResponse \<Rightarrow> json" where
  "created_json r = JObj ([(''order_id'', JInt (RS_OrderID r)), (''status'', JStr (RS_Status r)),
     (''lifecycle_state'', JStr (RS_Lifecycle r))] @
     json_omit ''duplicate'' (if RS_Duplicate r then Some (JBool True) else None))"

definition order_json :: "(int \<Rightarrow> string) \<Rightarrow> Order \<Rightarrow> json" where
  "order_json tm r = JObj ([(''id'', JInt (O_ID r)), (''vendor_id'', JInt (O_VendorID r)),
     (''user_id'', JInt (O_UserID r)), (''catalog_id'', JInt (O_CatalogID r))] @
     json_omit ''service_id'' (map_option JInt (O_ServiceID r)) @
     [(''amount'', JInt (O_Amount r)), (''status'', JStr (O_Status r)),
      (''lifecycle_state'', JStr (O_LifecycleState r))] @
     json_omit ''idempotency_key'' (map_option JStr (O_IdempotencyKey r)) @
     [(''created_at'', JStr (tm (go_time (O_CreatedAt r))))])"

definition provisioned_json :: "(int \<Rightarrow> string) \<Rightarrow> ServiceResponse \<Rightarrow> json" where
  "provisioned_json tm r = JObj [(''service_id'', JInt (SR_ServiceID r)), (''uuid'', JStr (SR_UUID r)),
     (''subscription_url'', JStr (SR_SubscriptionURL r)), (''expires_at'', JStr (tm (SR_ExpiresAt r))),
     (''status'', JStr (SR_Status r))]"

definition service_json :: "(int \<Rightarrow> string) \<Rightarrow> ProxyServiceRecord \<Rightarrow> json" where
  "service_json tm r = JObj [(''ID'', JInt (PS_ID r)), (''VendorID'', JInt (PS_VendorID r)),
     (''UserID'', JInt (PS_UserID r)), (''OrderID'', json_ptr JInt (PS_OrderID r)),
     (''PanelID'', json_ptr JInt (PS_PanelID r)), (''UUID'', JStr (PS_UUID r)),
     (''Protocol'', JStr (PS_Protocol r)), (''SubscriptionURL'', JStr (PS_SubscriptionURL r)),
     (''QRPayload'', JStr (PS_QRPayload r)), (''ConfigPayload'', JStr (PS_ConfigPayload r)),
     (''Status'', JStr (PS_Status r)), (''ExpiresAt'', json_ptr (JStr \<circ> tm) (PS_ExpiresAt r)),
     (''TrafficUsedGB'', JInt (PS_TrafficUsedGB r)), (''TrafficLimitGB'', JInt (PS_TrafficLimitGB r)),
     (''DurationDays'', JInt (PS_DurationDays r)), (''CreatedAt'', JStr (tm (PS_CreatedAt r))),
     (''UpdatedAt'', JStr (tm (PS_UpdatedAt r)))]"

definition vendor_json :: "(int \<Rightarrow> string) \<Rightarrow> Vendor \<Rightarrow> json" where
  "vendor_json tm v = JObj [(''id'', JInt (V_ID v)), (''owner_user_id'', JInt (V_OwnerUserID v)),
     (''name'', JStr (V_Name v)), (''slug'', JStr (V_Slug v)), (''created_at'', JStr (tm (go_time (V_CreatedAt v))))]"

definition item_json :: "Product \<Rightarrow> json" where
  "item_json p = json_map [(''id'', JInt (PR_ID p)), (''vendor_id'', JInt (PR_VendorID p)),
     (''slug'', JStr (PR_Slug p)), (''title'', JStr (PR_Title p)),
     (''description'', JStr (PR_Description p)), (''protocol'', JStr (PR_Protocol p)),
     (''inbound_id'', JInt (PR_InboundID p)), (''xui_node_id'', JInt (PR_XUINodeID p)),
     (''traffic_limit_gb'', JInt (PR_TrafficLimitGB p)), (''duration_days'', JInt (PR_DurationDays p)),
     (''price_toman'', JInt (PR_PriceToman p)), (''is_active'', JBool (PR_IsActive p)),
     (''auto_provision'', JBool (PR_AutoProvision p)), (''renewal_enabled'', JBool (PR_RenewalEnabled p)),
     (''country_code'', JStr (PR_CountryCode p)), (''stock_status'', JStr (PR_StockStatus p))]"

definition panel_json :: "(int \<Rightarrow> string) \<Rightarrow> XUIPanelRecord \<Rightarrow> json" where
  "panel_json tm p = JObj [(''ID'', JInt (XP_ID p)), (''VendorID'', JInt (XP_VendorID p)),
     (''Name'', JStr (XP_Name p)), (''URL'', JStr (XP_URL p)), (''Token'', JStr (XP_Token p)),
     (''InboundID'', JInt (XP_InboundID p)), (''IsActive'', JBool (XP_IsActive p)),
     (''Health'', JStr (XP_Health p)), (''LastChecked'', json_ptr (JStr \<circ> tm) (XP_LastChecked p))]"

definition up_down :: "bool \<Rightarrow> json" where
  "up_down b = JStr (if b then ''up'' else ''down'')"

text \<open>The value an answer is the text of; \<open>None\<close> for what is not written as JSON.\<close>

fun answer_json :: "(err \<Rightarrow> string) \<Rightarrow> (int \<Rightarrow> string) \<Rightarrow> content \<Rightarrow> json option" where
  "answer_json drv tm (R_error s) = Some (JObj [(''error'', JStr s)])"
| "answer_json drv tm (R_err e) = Some (JObj [(''error'', JStr (err_text drv e))])"
| "answer_json drv tm (R_status s) = Some (JObj [(''status'', JStr s)])"
| "answer_json drv tm (R_token t) = Some (JObj [(''token'', JStr t)])"
| "answer_json drv tm (R_balance n) = Some (JObj [(''balance'', JInt n)])"
| "answer_json drv tm (R_created r) = Some (created_json r)"
| "answer_json drv tm (R_order r) = Some (order_json tm r)"
| "answer_json drv tm (R_provisioned r) = Some (provisioned_json tm r)"
| "answer_json drv tm (R_service r) = Some (service_json tm r)"
| "answer_json drv tm (R_services rs) = Some (json_slice (service_json tm) rs)"
| "answer_json drv tm (R_vendors vs) = Some (JArr (map (vendor_json tm) vs))"
| "answer_json drv tm (R_items ps) = Some (JArr (map item_json ps))"
| "answer_json drv tm (R_panel_id i) = Some (json_map [(''panel_id'', JInt i), (''status'', JStr ''created'')])"
| "answer_json drv tm (R_panels ps) = Some (json_slice (panel_json tm) ps)"
| "answer_json drv tm (R_health pg rd mn mode) = Some (json_map [(''status'', JStr ''ok''),
     (''app'', JStr ''up''), (''postgres'', up_down pg), (''redis'', up_down rd), (''minio'', up_down mn),
     (''mode'', JStr mode)])"
| "answer_json drv tm _ = None"

definition service_times :: "ProxyServiceRecord \<Rightarrow> int list" where
  "service_times r = [PS_CreatedAt r, PS_UpdatedAt r] @
     (case PS_ExpiresAt r of None \<Rightarrow> [] | Some t \<Rightarrow> [t])"

fun answer_times :: "content \<Rightarrow> int list" where
  "answer_times (R_order r) = [go_time (O_CreatedAt r)]"
| "answer_times (R_provisioned r) = [SR_ExpiresAt r]"
| "answer_times (R_service r) = service_times r"
| "answer_times (R_services rs) = concat (map service_times rs)"
| "answer_times (R_vendors vs) = map (\<lambda>v. go_time (V_CreatedAt v)) vs"
| "answer_times (R_panels ps) = concat (map (\<lambda>p. case XP_LastChecked p of None \<Rightarrow> [] | Some t \<Rightarrow> [t]) ps)"
| "answer_times _ = []"

text \<open>
  \<open>json.NewEncoder(w).Encode(v)\<close> ends the line. A time without a text makes it fail, with
  its error dropped and nothing written after the header.
\<close>

definition answer_text :: "(err \<Rightarrow> string) \<Rightarrow> (int \<Rightarrow> string option) \<Rightarrow> content \<Rightarrow> string option" where
  "answer_text drv tm c =
     (case c of
        R_text s \<Rightarrow> Some s
      | _ \<Rightarrow> map_option (\<lambda>v.
          if list_all (\<lambda>t. tm t \<noteq> None) (answer_times c) then json_text v @ [CHR 0x0A] else [])
          (answer_json drv (the \<circ> tm) c))"

section \<open>The event stream\<close>

text \<open>\<open>w.Write([]byte("data: " + string(msg) + "\n\n"))\<close>\<close>

definition ws_frame :: "message \<Rightarrow> string" where
  "ws_frame m = ''data: '' @ m @ [CHR 0x0A, CHR 0x0A]"

text \<open>One turn of the loop: the oldest message, if there is one, goes to the client.\<close>

definition ws_turn :: "nat \<Rightarrow> Hub \<Rightarrow> string \<times> Hub" where
  "ws_turn c h = (case ws_recv c h of None \<Rightarrow> ([], h) | Some (m, h1) \<Rightarrow> (ws_frame m, h1))"

text \<open>
  A history of one stream: the notifications of the program, and turns of the loop
  (\<open>None\<close>) between them; what has been written, and the hub at the end.
\<close>

fun stream_run :: "nat \<Rightarrow> (string \<times> payload) option list \<Rightarrow> Hub \<Rightarrow> string \<times> Hub" where
  "stream_run c [] h = ([], h)"
| "stream_run c (None # es) h =
     (let (s, h1) = ws_turn c h; (t, h2) = stream_run c es h1 in (s @ t, h2))"
| "stream_run c (Some (topic, payload) # es) h = stream_run c es (notify topic payload h)"

text \<open>The notifications that find room, when \<open>n\<close> messages wait at the start.\<close>

fun kept :: "nat \<Rightarrow> (string \<times> payload) option list \<Rightarrow> (string \<times> payload) list" where
  "kept n [] = []"
| "kept n (None # es) = kept (n - 1) es"
| "kept n (Some m # es) = (if n < 16 then m # kept (Suc n) es else kept n es)"

text \<open>
  What an \<open>EventSource\<close> makes of the stream: lines end at a line feed, a carriage return or
  both; a \<open>data\<close> line adds to the event, an empty line hands it over; what is not ended by
  one is not an event.
\<close>

fun sse_lines :: "string \<Rightarrow> string \<Rightarrow> string list" where
  "sse_lines acc [] = []"
| "sse_lines acc (c # s) =
     (if c = CHR 0x0A then rev acc # sse_lines [] s
      else if c = CHR 0x0D then rev acc # sse_lines [] (if s \<noteq> [] \<and> hd s = CHR 0x0A then tl s else s)
      else sse_lines (c # acc) s)"

definition sse_data :: "string \<Rightarrow> string option" where
  "sse_data l =
     (if take 5 l = ''data:'' then
        Some (if drop 5 l \<noteq> [] \<and> hd (drop 5 l) = CHR '' '' then drop 6 l else drop 5 l)
      else None)"

fun sse_events :: "string list \<Rightarrow> string list \<Rightarrow> string list" where
  "sse_events buf [] = []"
| "sse_events buf (l # ls) =
     (if l = [] then (if buf = [] then sse_events [] ls else join_with CHR 0x0A buf # sse_events [] ls)
      else case sse_data l of
             None \<Rightarrow> sse_events buf ls
           | Some d \<Rightarrow> sse_events (buf @ [d]) ls)"

definition sse_read :: "string \<Rightarrow> string list" where
  "sse_read s = sse_events [] (sse_lines [] s)"

section \<open>The stream is read back\<close>

lemma sse_lines_printable:
  "printable m \<Longrightarrow> sse_lines acc (m @ CHR 0x0A # s) = (rev acc @ m) # sse_lines [] s"
proof (induction m arbitrary: acc)
  case (Cons c m)
  then have "c \<noteq> CHR 0x0A" "c \<noteq> CHR 0x0D" by auto
  with Cons show ?case by simp
qed simp

lemma sse_read_frame: "printable m \<Longrightarrow> sse_read (ws_frame m @ s) = m # sse_read s"
proof -
  assume p: "printable m"
  have "sse_lines [] (''data: '' @ m @ CHR 0x0A # CHR 0x0A # s) =
      (''data: '' @ m) # [] # sse_lines [] s"
    using sse_lines_printable [of "''data: '' @ m" "[]" "CHR 0x0A # s"] p by simp
  then show ?thesis by (simp add: sse_read_def ws_frame_def sse_data_def)
qed

lemma sse_read_frames:
  "\<forall>m\<in>set ms. printable m \<Longrightarrow> sse_read (concat (map ws_frame ms)) = ms"
  by (induction ms) (simp_all add: sse_read_frame, simp add: sse_read_def)

lemma map_of_replace:
  "map_of (map (\<lambda>(d, q). (d, if d = c then ms else q)) xs) c = map_option (\<lambda>_. ms) (map_of xs c)"
  by (induction xs) auto

text \<open>The turns write the messages in their order, and what was not written still waits.\<close>

lemma stream_run_frames:
  "map_of (clients h) c = Some q \<Longrightarrow>
     \<exists>sent q1. fst (stream_run c es h) = concat (map ws_frame sent) \<and>
       map_of (clients (snd (stream_run c es h))) c = Some q1 \<and>
       sent @ q1 = q @ map (\<lambda>(t, p). message_text t p) (kept (length q) es)"
proof (induction es arbitrary: h q)
  case (Cons e es)
  show ?case
  proof (cases e)
    case None
    show ?thesis
    proof (cases q)
      case Nil
      then have "ws_turn c h = ([], h)" using Cons.prems by (simp add: ws_turn_def ws_recv_def)
      with Cons.IH [OF Cons.prems] Nil None show ?thesis by (simp add: case_prod_unfold)
    next
      case (Cons m ms)
      let ?h = "h\<lparr>clients := map (\<lambda>(d, q). (d, if d = c then ms else q)) (clients h)\<rparr>"
      have turn: "ws_turn c h = (ws_frame m, ?h)"
        using Cons.prems Cons by (simp add: ws_turn_def ws_recv_def)
      have "map_of (clients ?h) c = Some ms" using Cons.prems by (simp add: map_of_replace)
      from Cons.IH [OF this] obtain sent q1 where "fst (stream_run c es ?h) = concat (map ws_frame sent)"
        "map_of (clients (snd (stream_run c es ?h))) c = Some q1"
        "sent @ q1 = ms @ map (\<lambda>(t, p). message_text t p) (kept (length ms) es)" by blast
      with turn None Cons show ?thesis
        by (intro exI [of _ "m # sent"] exI [of _ q1]) (simp add: case_prod_unfold)
    qed
  next
    case (Some m)
    obtain t p where m: "m = (t, p)" by fastforce
    have "map_of (clients (notify t p h)) c = Some (hub_send (message_text t p) q)"
      using Cons.prems by (simp add: map_of_clients_notify)
    from Cons.IH [OF this] Some m show ?thesis by (auto simp: hub_send_def)
  qed
qed simp

lemma kept_subseq: "subseq (kept n es) (List.map_filter id es)"
  by (induction n es rule: kept.induct)
     (auto simp: List.map_filter_def intro: list_emb_Cons)

lemma kept_all: "n + length (List.map_filter id es) \<le> 16 \<Longrightarrow> kept n es = List.map_filter id es"
  by (induction n es rule: kept.induct) (auto simp: List.map_filter_def)

text \<open>What the texts of messages decode to.\<close>

definition payload_ok :: "payload \<Rightarrow> bool" where
  "payload_ok p \<longleftrightarrow> list_all (\<lambda>(k, v). integral v \<and> depth v \<le> max_depth - 2) p"

lemma integral_map [simp]: "integral (json_map ms) \<longleftrightarrow> list_all (\<lambda>(k, v). integral v) ms"
  by (simp add: json_map_def list_all_iff)

lemma depth_map_le: "depth (json_map ms) \<le> d \<longleftrightarrow> 1 \<le> d \<and> (\<forall>(k, v)\<in>set ms. depth v \<le> d - 1)"
proof -
  have "depth (json_map ms) \<le> d \<longleftrightarrow> fold max (map (\<lambda>(k, v). depth v) (sort_key fst ms)) 0 \<le> d - 1"
    by (simp add: json_map_def, linarith)
  then show ?thesis unfolding fold_max_le by auto
qed

lemma message_decodes:
  assumes "payload_ok p"
  shows "decode_all (message_text t p) = Some (repair_json (message_json t p)) \<and>
     printable (message_text t p)"
proof -
  have "integral (message_json t p)" "depth (message_json t p) \<le> max_depth"
    using assms by (auto simp: message_json_def payload_ok_def depth_map_le list_all_iff max_depth_def)
  then show ?thesis by (simp add: message_text_def decode_repaired printable_json)
qed

end
