(* ===== verification/Answers.thy ===== *)
theory Answers
  imports Wire ServerCalm
begin

text \<open>
  The type of an answer: what is announced as JSON has a value to be written, and an error
  status comes with an error object. \<open>typed\<close> handlers only give such answers; every handler
  of the server but the file server is typed.
\<close>

section \<open>Well-typed answers\<close>

definition middleware_error :: "string \<Rightarrow> bool" where
  "middleware_error s \<longleftrightarrow>
     list_ex (\<lambda>msg. s = ''{\"error\":\"'' @ msg @ ''\"}'') [''missing token'', ''invalid token'', ''forbidden'']"

fun json_body :: "content \<Rightarrow> bool" where
  "json_body (R_text s) = middleware_error s"
| "json_body (R_page _ _) = False"
| "json_body R_stream = False"
| "json_body (R_file _) = False"
| "json_body (R_redirect _) = False"
| "json_body _ = True"

fun error_body :: "content \<Rightarrow> bool" where
  "error_body (R_error _) = True"
| "error_body (R_err _) = True"
| "error_body (R_text _) = True"
| "error_body _ = False"

definition says_json :: "response \<Rightarrow> bool" where
  "says_json rs \<longleftrightarrow> (''Content-Type'', ''application/json'') \<in> set (rs_header rs)"

definition json_typed :: "response \<Rightarrow> bool" where
  "json_typed rs \<longleftrightarrow>
     (says_json rs \<longrightarrow> json_body (rs_content rs) \<and> (error_body (rs_content rs) \<longleftrightarrow> 400 \<le> rs_code rs))"

definition typed :: "response act \<Rightarrow> bool" where
  "typed m \<longleftrightarrow> (\<forall>w x w'. m w = (Inr x, w') \<longrightarrow> json_typed x)"

lemma typedD: "typed m \<Longrightarrow> m w = (Inr x, w') \<Longrightarrow> json_typed x"
  by (auto simp: typed_def)

named_theorems typed_intros \<open>actions whose answers are well-typed\<close>

section \<open>Constructions\<close>

lemma typed_basic [typed_intros]:
  "json_typed x \<Longrightarrow> typed (ret x)" "typed (fail e)"
  by (auto simp: typed_def ret_def fail_def)

lemma typed_if [typed_intros]: "(c \<Longrightarrow> typed a) \<Longrightarrow> (\<not> c \<Longrightarrow> typed b) \<Longrightarrow> typed (if c then a else b)"
  by simp

lemma typed_andThen [typed_intros]: "(\<And>x. typed (f x)) \<Longrightarrow> typed (andThen m f)"
  by (auto simp: typed_def andThen_Inr)

lemma typed_checked [typed_intros]:
  assumes "\<And>e. json_typed (h e)" and "\<And>x. typed (k x)"
  shows "typed (checked m h k)"
  unfolding typed_def
proof (intro allI impI)
  fix w x w'
  assume "checked m h k w = (Inr x, w')"
  then show "json_typed x"
    using assms by (cases rule: checked_cases) (auto dest: typedD)
qed

lemma typed_answers [typed_intros]:
  "json_body v \<Longrightarrow> (error_body v \<longleftrightarrow> 400 \<le> code) \<Longrightarrow> json_typed (write_json code v)"
  "400 \<le> code \<Longrightarrow> json_typed (http_error code msg)"
  "json_typed (err_400 e)"
  "json_typed (plain_error code msg)" "json_typed (render name d code)"
  "json_typed (not_found_page msg)" "json_typed (redirect p)"
  by (simp_all add: json_typed_def says_json_def write_json_def http_error_def err_400_def
      plain_error_def render_def not_found_page_def redirect_def)

lemma typed_json_error [typed_intros]:
  "msg \<in> {''missing token'', ''invalid token'', ''forbidden''} \<Longrightarrow> 400 \<le> code \<Longrightarrow>
     json_typed (json_error code msg)"
  by (auto simp: json_typed_def says_json_def json_error_def middleware_error_def)

lemma typed_audited [typed_intros]: "json_typed rs \<Longrightarrow> json_typed (audited e rs)"
  by (simp add: json_typed_def says_json_def audited_def)

lemma typed_post_only [typed_intros]: "typed k \<Longrightarrow> typed (post_only r k)"
  unfolding post_only_def by (intro typed_intros) simp_all

lemma typed_with_body [typed_intros]: "(\<And>b. typed (k b)) \<Longrightarrow> typed (with_body dec r k)"
  unfolding with_body_def bad_request_def
  by (auto intro!: typed_intros split: option.splits)

section \<open>Handlers\<close>

lemma typed_handlers [typed_intros]:
  "typed (api_register E r)" "typed (api_login E r)" "typed (api_vendor_create r)"
  "typed (api_vendor_list r)" "typed (api_wallet_balance r)"
  "typed (server_order_create r)" "typed (server_order_renew r)" "typed (server_order_get r)"
  "typed (proxy_handler_provision E r)" "typed (proxy_handler_get r)" "typed (proxy_handler_list r)"
  "typed (proxy_handler_suspend r)" "typed (proxy_handler_resume r)"
  "typed (server_catalog_create r)" "typed (server_catalog_list r)" "typed (server_panel_add E r)"
  "typed (server_panel_list E r)" "typed (server_topup r)" "typed (server_health E r)"
  unfolding api_register_def api_login_def api_vendor_create_def api_vendor_list_def
    api_wallet_balance_def server_order_create_def server_order_renew_def server_order_get_def
    proxy_handler_provision_def proxy_handler_get_def proxy_handler_list_def
    proxy_handler_suspend_def proxy_handler_resume_def
    server_catalog_create_def server_catalog_list_def server_panel_add_def server_panel_list_def
    server_topup_def server_health_def Let_def case_prod_unfold
  by (intro typed_intros; simp)+

lemma typed_pages [typed_intros]:
  "typed (store_router T secret r)" "typed (dashboard_router qr r)" "typed (hub_ws r)"
proof -
  have "typed (checkout_page T secret r v pd)" for v pd
    unfolding checkout_page_def Let_def by (auto intro: typed_intros split: option.splits)
  then have "typed (store_segments T secret r seg v)" for seg v
    unfolding store_segments_def vendor_page_def product_page_def
    by (intro typed_intros)
  then show "typed (store_router T secret r)"
    unfolding store_router_def Let_def by (intro typed_intros)
  show "typed (dashboard_router qr r)"
    unfolding dashboard_router_def dashboard_summary_def dashboard_services_def Let_def
    by (intro typed_intros)
  show "typed (hub_ws r)"
    by (simp add: typed_def hub_ws_def json_typed_def says_json_def)
qed

lemma protected_refuse_typed:
  "protected.admit_both T secret roles r = Inl rs \<Longrightarrow> json_typed rs"
  by (auto simp: protected.admit_both_def jwt_admit_def role_admit_def intro!: typed_intros
      split: sum.splits option.splits if_splits)

lemma typed_protect [typed_intros]: "(\<And>r. typed (h r)) \<Longrightarrow> typed (protect E roles h r)"
  by (auto simp: typed_def protect_guarded dest: protected_refuse_typed split: sum.splits)

lemma typed_routes:
  assumes "(pat, h) \<in> set (server_routes E)" and "pat \<noteq> ''/assets/''"
  shows "typed (h r)"
  using assms
  unfolding server_routes_def store_routes_def api_routes_def proxy_routes_def protected_routes_def
  by (auto intro!: typed_intros split: if_splits)

lemma typed_mux:
  assumes "take 8 (rq_path r) \<noteq> ''/assets/''"
  shows "typed (serve_mux (server_routes E) r)"
proof -
  have "typed (case find_route (server_routes E) (rq_path r) of
      None \<Rightarrow> ret (plain_error 404 ''404 page not found'') | Some (_, h) \<Rightarrow> h r)"
  proof (cases "find_route (server_routes E) (rq_path r)")
    case (Some m)
    obtain pat h where m: "m = (pat, h)" by fastforce
    note mem = find_route_Some(1,2) [OF Some [unfolded m]]
    have "pat \<noteq> ''/assets/''"
      using mem(2) assms by (auto simp: pattern_matches_def ends_slash_def eval_nat_numeral)
    with mem(1) have "typed (h r)" by (rule typed_routes)
    with Some m show ?thesis by simp
  qed (auto intro: typed_intros)
  then show ?thesis
    unfolding serve_mux_def Let_def by (auto intro: typed_intros)
qed

text \<open>Headers, limit and recovery keep the type.\<close>

lemma set_fold_headers:
  "set (fold (\<lambda>(k, v). set_header k v) xs hs) \<subseteq> set xs \<union> set hs"
  by (induction xs arbitrary: hs) (fastforce simp: set_header_def)+

lemma typed_secured:
  assumes "json_typed rs"
  shows "json_typed (rs\<lparr>rs_header := fold (\<lambda>(k, v). set_header k v) (rs_header rs) secure_header_list\<rparr>)"
proof -
  have "(''Content-Type'', ''application/json'') \<notin> set secure_header_list"
    by (simp add: secure_header_list_def)
  with assms set_fold_headers [of "rs_header rs" secure_header_list] show ?thesis
    by (auto simp: json_typed_def says_json_def)
qed

lemma serve_typed:
  assumes "take 8 (rq_path r) \<noteq> ''/assets/''" and "fst (serve E r (rl, w)) = Inr rs"
  shows "json_typed rs"
proof -
  have "json_typed x" if "fst (recovery (serve_mux (server_routes E)) r w) = Inr x" for x
    using that typed_mux [OF assms(1), of E]
    by (auto simp: recovery_def typed_def intro: typed_intros split: prod.splits sum.splits)
  then have "json_typed x" if
    "fst (limit_requests (w_nano w) (recovery (serve_mux (server_routes E))) r (rl, w)) = Inr x" for x
    using that
    by (auto simp: limit_requests_def Let_def plain_error_def set_header_def json_typed_def says_json_def
        split: prod.splits if_splits)
  with assms(2) show ?thesis
    by (auto simp: serve_def secure_headers_def intro!: typed_secured split: prod.splits sum.splits)
qed

section \<open>Well-typed answers are JSON\<close>

lemma integral_ptr: "(\<And>x. integral (f x)) \<Longrightarrow> integral (json_ptr f v)"
  by (simp add: json_ptr_def split: option.splits)

lemma integral_slice: "(\<And>x. integral (f x)) \<Longrightarrow> integral (json_slice f xs)"
  by (simp add: json_slice_def list_all_iff)

lemmas record_json_defs = created_json_def order_json_def provisioned_json_def service_json_def
  vendor_json_def item_json_def panel_json_def json_omit_def up_down_def

lemma integral_records [simp]:
  "integral (created_json r)" "integral (order_json tm ord)" "integral (provisioned_json tm sr)"
  "integral (service_json tm ps)" "integral (vendor_json tm v)" "integral (item_json p)"
  "integral (panel_json tm x)"
  by (auto simp: record_json_defs integral_ptr split: option.splits)

lemma depth_records:
  "depth (created_json r) \<le> 1" "depth (order_json tm ord) \<le> 1" "depth (provisioned_json tm sr) \<le> 1"
  "depth (service_json tm ps) \<le> 1" "depth (vendor_json tm v) \<le> 1" "depth (item_json p) \<le> 1"
  "depth (panel_json tm x) \<le> 1"
  by (auto simp: record_json_defs json_ptr_def depth_map_le split: option.splits)

lemma depth_one: "depth (JObj [(k, v)]) = max 0 (depth v) + 1"
  by (simp add: max.commute)

lemma depth_array: "(\<And>x. depth (f x) \<le> 1) \<Longrightarrow> depth (JArr (map f xs)) \<le> 2"
  by (auto simp: fold_max_le)

lemma answer_shape:
  assumes "answer_json drv tm c = Some v"
  shows "integral v" and "depth v \<le> 2"
proof -
  note d = depth_records [THEN order_trans, of 2]
  from assms show "integral v"
    by (cases c) (auto simp: integral_slice list_all_iff up_down_def)
  from assms show "depth v \<le> 2"
    by (cases c) (auto simp: json_slice_def depth_array depth_records depth_map_le up_down_def depth_one
        intro: d simp del: depth.simps(1) depth.simps(2))
qed

lemma answer_error:
  assumes "answer_json drv tm c = Some v"
  shows "(\<exists>msg. repair_json v = JObj [(''error'', JStr msg)]) \<longleftrightarrow> error_body c"
  using assms
  by (cases c) (auto simp: json_slice_def json_map_def record_json_defs split: if_splits)

lemma answer_decodes:
  assumes "answer_json drv tm c = Some v"
  shows "decode_first (json_text v @ [CHR 0x0A]) = Some (repair_json v)"
  using answer_shape [OF assms] by (intro decode_repaired_first) (simp_all add: max_depth_def stops_def)

lemma middleware_error_decodes:
  assumes "middleware_error s"
  shows "\<exists>msg. decode_first s = Some (JObj [(''error'', JStr msg)])"
proof -
  have "list_all (\<lambda>msg. decode_first (''{\"error\":\"'' @ msg @ ''\"}'') = Some (JObj [(''error'', JStr msg)]))
      [''missing token'', ''invalid token'', ''forbidden'']"
    by code_simp
  with assms show ?thesis by (auto simp: middleware_error_def)
qed

end
