(* ===== verification/WireProps.thy ===== *)
theory WireProps
  imports HttpProps Answers
begin

text \<open>
  Properties of what goes over the wire: the token a login sends back, the event stream,
  and the JSON of the answers.
\<close>

section \<open>Signing in\<close>

lemma valid_utf8_ascii: "\<forall>c\<in>set s. byte c < 128 \<Longrightarrow> valid_utf8 s"
  by (induction s) auto

lemma token_ascii: "valid_utf8 (sign_jwt T secret sub role nano)"
proof -
  have "\<forall>c\<in>set url_alphabet. byte c < 128" by code_simp
  then have "\<forall>c\<in>set (b64_encode url_alphabet s). byte c < 128" for s
    using set_b64_encode [of url_alphabet s] by auto
  then show ?thesis
    by (intro valid_utf8_ascii) (auto simp: sign_jwt_def Let_def jwt_header_def sign_def)
qed

lemma token_not_empty: "sign_jwt T secret sub role nano \<noteq> []"
  by (simp add: sign_jwt_def Let_def)

lemma role_ascii: "role \<in> set user_roles \<Longrightarrow> valid_utf8 role"
proof -
  have "list_all valid_utf8 user_roles" by code_simp
  then show "role \<in> set user_roles \<Longrightarrow> valid_utf8 role" by (simp add: list_all_iff)
qed

lemma login_token:
  assumes "decode_body credentials r = Some (email, password)"
    and "user_by_email email w = (Inr u, w1)"
  shows "\<exists>nano. fst (api_login E r w) = Inr (write_json 200 (R_token
     (if compare_password (sv_crypto E) (U_PasswordHash u) password
      then sign_jwt (sv_tokens E) (sv_jwt_secret E) (U_ID u) (U_Role u) nano else [])))"
  using assms
  by (auto simp: api_login_def with_body_def checked_def attempt_def auth_login_def andThen_def
      getNano_def ret_def)

text \<open>
  C18. Signing in gives access. When the email of the credentials is that of a stored user,
  login answers 200 with a JSON object whose only member is the token. If the password has
  the digest of the one the user registered with, a request that carries this token as its
  bearer passes every protected route that admits the user's role, with the number and role
  of the user in its context, and is refused with 403 by the others; for any other password
  the token is empty.
\<close>

theorem login_grants_access:
  assumes "decode_body credentials r = Some (email, password)"
    and "user_by_email email w = (Inr u, w1)"
    and "hash_password (sv_crypto E) salt registered = Inr (U_PasswordHash u)"
    and "fits64 (U_ID u)" and "U_Role u \<in> set user_roles"
  shows "\<exists>rs t. fst (api_login E r w) = Inr rs \<and> rs_code rs = 200 \<and>
     Option.bind (answer_text drv tm (rs_content rs)) decode_first = Some (JObj [(''token'', JStr t)]) \<and>
     (if sha256 (sv_crypto E) (salt @ password) = sha256 (sv_crypto E) (salt @ registered)
      then
        (let q1 = q\<lparr>rq_header := (''Authorization'', ''Bearer '' @ t) # rq_header q\<rparr> in
         protect E roles h q1 w2 =
           (if U_Role u \<in> set roles
            then h (q1\<lparr>rq_ctx := claims_ctx \<lparr>Sub = U_ID u, Role = U_Role u, VendorID = 0\<rparr>\<rparr>) w2
            else (Inr (json_error 403 ''forbidden''), w2)))
      else t = [])"
proof -
  obtain nano where l: "fst (api_login E r w) = Inr (write_json 200 (R_token
     (if compare_password (sv_crypto E) (U_PasswordHash u) password
      then sign_jwt (sv_tokens E) (sv_jwt_secret E) (U_ID u) (U_Role u) nano else [])))"
    using login_token [OF assms(1,2)] by blast
  define t where "t = (if compare_password (sv_crypto E) (U_PasswordHash u) password
      then sign_jwt (sv_tokens E) (sv_jwt_secret E) (U_ID u) (U_Role u) nano else [])"
  have utf: "valid_utf8 t" by (simp add: t_def token_ascii)
  have "decode_first (json_text (JObj [(''token'', JStr t)]) @ [CHR 0x0A]) = Some (JObj [(''token'', JStr t)])"
    using utf by (intro decode_text_first) (simp_all add: max_depth_def stops_def)
  then have token_text: "Option.bind (answer_text drv tm (R_token t)) decode_first = Some (JObj [(''token'', JStr t)])"
    by (simp add: answer_text_def del: json_text.simps)
  have c: "compare_password (sv_crypto E) (U_PasswordHash u) password \<longleftrightarrow>
      sha256 (sv_crypto E) (salt @ password) = sha256 (sv_crypto E) (salt @ registered)"
    using compare_hash [OF assms(3)] by simp
  let ?q = "q\<lparr>rq_header := (''Authorization'', ''Bearer '' @ t) # rq_header q\<rparr>"
  have "protect E roles h ?q w2 =
      (if U_Role u \<in> set roles
       then h (?q\<lparr>rq_ctx := claims_ctx \<lparr>Sub = U_ID u, Role = U_Role u, VendorID = 0\<rparr>\<rparr>) w2
       else (Inr (json_error 403 ''forbidden''), w2))"
    if "compare_password (sv_crypto E) (U_PasswordHash u) password"
  proof -
    have "extract_bearer ?q = t"
      by (simp add: extract_bearer_def header_get_def same_name_def)
    moreover have "t \<noteq> []" using that by (simp add: t_def token_not_empty)
    moreover have "parse_jwt (sv_tokens E) (sv_jwt_secret E) t =
        Some \<lparr>Sub = U_ID u, Role = U_Role u, VendorID = 0\<rparr>"
      using that parse_sign_jwt [OF assms(4)] repair_valid [OF role_ascii [OF assms(5)]]
      by (simp add: t_def)
    ultimately show ?thesis using protect_token [of ?q E] by simp
  qed
  with l token_text c show ?thesis
    by (intro exI [of _ "write_json 200 (R_token t)"] exI [of _ t])
       (auto simp: write_json_def Let_def t_def)
qed

text \<open>A user registers with the password \<open>pw\<close> and signs in with it.\<close>

definition login_request :: request where
  "login_request = toy_request ''POST'' ''/api/v1/auth/login'' []
     ''{\"email\": \"new\", \"password\": \"pw\"}''"

definition member_world :: world where
  "member_world = snd (auth_register toy_crypto ''salt'' ''new'' ''pw'' (demo_world [] []))"

theorem login_grants_access_witness:
  "\<exists>rs t. fst (api_login toy_env login_request member_world) = Inr rs \<and>
     Option.bind (answer_text (\<lambda>_. []) (\<lambda>_. None) (rs_content rs)) decode_first =
       Some (JObj [(''token'', JStr t)]) \<and>
     (let q = topup_request\<lparr>rq_header := [(''Authorization'', ''Bearer '' @ t)]\<rparr> in
      protect toy_env user_roles server_order_get q member_world =
      server_order_get (q\<lparr>rq_ctx := claims_ctx \<lparr>Sub = 3, Role = ''user'', VendorID = 0\<rparr>\<rparr>) member_world)"
proof -
  have cred: "decode_body credentials login_request = Some (''new'', ''pw'')" by code_simp
  let ?h = "case hash_password toy_crypto ''salt'' ''pw'' of Inr h \<Rightarrow> h"
  let ?u = "\<lparr>U_ID = 3, U_VendorID = None, U_Email = ''new'', U_PasswordHash = ?h, U_Role = ''user'',
     U_CreatedAt = 1000000\<rparr>"
  have "fst (user_by_email ''new'' member_world) = Inr ?u" by code_simp
  then have u: "user_by_email ''new'' member_world = (Inr ?u, snd (user_by_email ''new'' member_world))"
    by (simp add: prod_eq_iff)
  have h: "hash_password (sv_crypto toy_env) ''salt'' ''pw'' = Inr (U_PasswordHash ?u)"
    by (simp add: hash_password_def toy_env_def Let_def)
  have "rq_header topup_request = []" by (simp add: topup_request_def toy_request_def)
  with login_grants_access [OF cred u h, where drv = "\<lambda>_. []" and tm = "\<lambda>_. None" and roles = user_roles and
      h = server_order_get and q = topup_request and ?w2.0 = member_world] show ?thesis
    by (simp add: fits64_def user_roles_def Let_def) blast
qed

section \<open>The event stream\<close>

text \<open>
  C32. The stream loses nothing but what found no room. A client that connects and then
  lives through any sequence of notifications and turns of its loop can read, from the bytes
  it was sent and the messages still waiting for it, exactly the notifications that arrived
  while fewer than sixteen were waiting, each with its topic and payload, in their order and
  not one of them twice. Sixteen notifications at most are never lost.
\<close>

theorem stream_reads_notifications:
  assumes "c \<notin> fst ` set (clients h)" and "\<forall>(t, p)\<in>set (kept 0 es). payload_ok p"
  shows "\<exists>q. map_of (clients (snd (stream_run c es (ws_open c h)))) c = Some q \<and>
     map decode_all (sse_read (fst (stream_run c es (ws_open c h))) @ q) =
       map (\<lambda>(t, p). Some (repair_json (message_json t p))) (kept 0 es) \<and>
     subseq (kept 0 es) (List.map_filter id es) \<and>
     (length (List.map_filter id es) \<le> 16 \<longrightarrow> kept 0 es = List.map_filter id es)"
proof -
  have "map_of (clients (ws_open c h)) c = Some []"
    using assms(1) by (simp add: ws_open_def map_add_def map_of_eq_None_iff [THEN iffD2])
  from stream_run_frames [OF this, of es] obtain sent q where
    s: "fst (stream_run c es (ws_open c h)) = concat (map ws_frame sent)"
      "map_of (clients (snd (stream_run c es (ws_open c h)))) c = Some q"
      "sent @ q = map (\<lambda>(t, p). message_text t p) (kept 0 es)" by auto
  have "set sent \<subseteq> (\<lambda>(t, p). message_text t p) ` set (kept 0 es)"
    using arg_cong [OF s(3), of set] by auto
  with assms(2) have "\<forall>m\<in>set sent. printable m" by (force simp: message_decodes)
  then have "sse_read (fst (stream_run c es (ws_open c h))) @ q =
      map (\<lambda>(t, p). message_text t p) (kept 0 es)"
    using s by (simp add: sse_read_frames)
  moreover have "map decode_all (map (\<lambda>(t, p). message_text t p) (kept 0 es)) =
      map (\<lambda>(t, p). Some (repair_json (message_json t p))) (kept 0 es)"
    using assms(2) by (auto simp: message_decodes)
  ultimately have "map decode_all (sse_read (fst (stream_run c es (ws_open c h))) @ q) =
      map (\<lambda>(t, p). Some (repair_json (message_json t p))) (kept 0 es)" by metis
  with s(2) kept_subseq [of 0 es] kept_all [of 0 es] show ?thesis by (intro exI [of _ q]) simp
qed

theorem stream_reads_notifications_witness:
  "\<exists>q. map decode_all (sse_read (fst (stream_run 1 [Some (''t'', [(''id'', JInt 7)]), None, Some (''u'', [])]
       (ws_open 1 (new_hub bus_new)))) @ q) =
     [Some (JObj [(''payload'', JObj [(''id'', JInt 7)]), (''topic'', JStr ''t'')]),
      Some (JObj [(''payload'', JObj []), (''topic'', JStr ''u'')])]"
proof -
  let ?es = "[Some (''t'', [(''id'', JInt 7)]), None, Some (''u'', [])]"
  have "\<forall>(t, p)\<in>set (kept 0 ?es). payload_ok p" by (simp add: payload_ok_def max_depth_def)
  moreover have "map (\<lambda>(t, p). Some (repair_json (message_json t p))) (kept 0 ?es) =
     [Some (JObj [(''payload'', JObj [(''id'', JInt 7)]), (''topic'', JStr ''t'')]),
      Some (JObj [(''payload'', JObj []), (''topic'', JStr ''u'')])]" by code_simp
  ultimately show ?thesis
    using stream_reads_notifications [of 1 "new_hub bus_new" ?es] by (auto simp: new_hub_def)
qed

section \<open>Answers\<close>

text \<open>
  C36. JSON answers are JSON, or nothing. Whatever request arrives, outside the files below
  \<open>/assets/\<close>, take an answer that says it is JSON. If every time in it has a text (its year has
  four digits), a JSON reader accepts what is sent, and that is an object with the single
  member \<open>error\<close> exactly when the status is 400 or more. If some time in it has no text, the
  client is told of success and of JSON and is sent nothing at all.
\<close>

theorem answers_are_json:
  assumes "fst (serve E r (rl, w)) = Inr rs"
    and "take 8 (rq_path r) \<noteq> ''/assets/''"
    and "map_of (rs_header rs) ''Content-Type'' = Some ''application/json''"
  shows "\<exists>txt. answer_text drv tm (rs_content rs) = Some txt \<and>
     (if list_all (\<lambda>t. tm t \<noteq> None) (answer_times (rs_content rs))
      then \<exists>v. decode_first txt = Some v \<and>
        ((\<exists>msg. v = JObj [(''error'', JStr msg)]) \<longleftrightarrow> 400 \<le> rs_code rs)
      else txt = [] \<and> rs_code rs < 400)"
proof -
  have "says_json rs" using map_of_SomeD [OF assms(3)] by (simp add: says_json_def)
  with serve_typed [OF assms(2,1)] have body: "json_body (rs_content rs)"
    and err: "error_body (rs_content rs) \<longleftrightarrow> 400 \<le> rs_code rs" by (simp_all add: json_typed_def)
  show ?thesis
  proof (cases "answer_json drv (the \<circ> tm) (rs_content rs)")
    case (Some v)
    then have "answer_text drv tm (rs_content rs) = Some (
        if list_all (\<lambda>t. tm t \<noteq> None) (answer_times (rs_content rs)) then json_text v @ [CHR 0x0A] else [])"
      by (cases "rs_content rs") (simp_all add: answer_text_def)
    moreover have "rs_code rs < 400" if "answer_times (rs_content rs) \<noteq> []"
      using that err by (cases "rs_content rs") simp_all
    ultimately show ?thesis using answer_decodes [OF Some] answer_error [OF Some] err
      by (cases "answer_times (rs_content rs) = []") auto
  next
    case None
    with body obtain s where s: "rs_content rs = R_text s" "middleware_error s"
      by (cases "rs_content rs") auto
    with middleware_error_decodes [OF s(2)] err show ?thesis by (auto simp: answer_text_def)
  qed
qed

text \<open>A service whose expiry has no text.\<close>

definition service_request :: request where
  "service_request = (toy_request ''GET'' ''/api/v1/service/get'' [] [])
     \<lparr>rq_query := ''vendor_id=1&service_id=1''\<rparr>"

definition year_10000 :: int where
  "year_10000 = 253402300800000000"

lemma service_answer:
  "case fst (serve toy_env service_request (server_limiter, service_world ''active'' year_10000)) of
     Inl _ \<Rightarrow> False
   | Inr rs \<Rightarrow> rs_code rs = 200 \<and> map_of (rs_header rs) ''Content-Type'' = Some ''application/json'' \<and>
       answer_times (rs_content rs) = [0, 0, go_time year_10000]"
  by code_simp

theorem answers_are_json_witness:
  "(\<exists>rs s v. fst (serve toy_env topup_request (server_limiter, demo_world [] [])) = Inr rs \<and>
     answer_text (\<lambda>_. []) (\<lambda>_. None) (rs_content rs) = Some s \<and> decode_first s = Some v \<and>
     (\<exists>msg. v = JObj [(''error'', JStr msg)])) \<and>
   (\<exists>rs. fst (serve toy_env service_request (server_limiter, service_world ''active'' year_10000)) = Inr rs \<and>
     rs_code rs = 200 \<and>
     answer_text (\<lambda>_. []) (\<lambda>t. if t < go_time year_10000 then Some ''t'' else None) (rs_content rs) = Some [])"
proof
  let ?w = "demo_world [] []"
  have bearer: "extract_bearer topup_request = []" and path: "take 8 (rq_path topup_request) \<noteq> ''/assets/''"
    by (simp_all add: extract_bearer_def header_get_def topup_request_def toy_request_def)
  have "serve_mux (server_routes toy_env) topup_request ?w =
      protect toy_env admin_roles server_topup topup_request ?w"
  proof -
    have "clean_path (rq_path topup_request) = rq_path topup_request"
      "has_pattern (server_routes toy_env) (rq_path topup_request)"
      "rq_method topup_request = ''POST''"
      using topup_route
      by (simp_all add: clean_path_def Let_def ends_slash_def topup_request_def toy_request_def
        has_pattern_def server_routes_def protected_routes_def)
    with topup_route show ?thesis by (simp add: serve_mux_def Let_def)
  qed
  then have m: "recovery (serve_mux (server_routes toy_env)) topup_request ?w =
      (Inr (json_error 401 ''missing token''), ?w)"
    by (simp add: recovery_def protect_def jwt_def bearer)
  have "fst (allow (w_nano ?w) (client_ip topup_request) server_limiter)" by code_simp
  note passed = limit_requests_passed [OF this, of "recovery (serve_mux (server_routes toy_env))" ?w]
  let ?rs = "(json_error 401 ''missing token'')\<lparr>rs_header :=
     fold (\<lambda>(k, v). set_header k v) (rs_header (json_error 401 ''missing token'')) secure_header_list\<rparr>"
  have "fst (serve toy_env topup_request (server_limiter, ?w)) = Inr ?rs"
    by (simp add: serve_def secure_headers_def passed m)
  moreover from answers_are_json [OF this path, of "\<lambda>_. []" "\<lambda>_. None"]
  have "\<exists>s v. answer_text (\<lambda>_. []) (\<lambda>_. None) (rs_content ?rs) = Some s \<and> decode_first s = Some v \<and>
     (\<exists>msg. v = JObj [(''error'', JStr msg)])"
    by (simp add: json_error_def set_header_def)
  ultimately show "\<exists>rs s v. fst (serve toy_env topup_request (server_limiter, ?w)) = Inr rs \<and>
     answer_text (\<lambda>_. []) (\<lambda>_. None) (rs_content rs) = Some s \<and> decode_first s = Some v \<and>
     (\<exists>msg. v = JObj [(''error'', JStr msg)])" by blast
next
  let ?tm = "\<lambda>t. if t < go_time year_10000 then Some ''t'' else None"
  from service_answer obtain rs where
    rs: "fst (serve toy_env service_request (server_limiter, service_world ''active'' year_10000)) = Inr rs"
      "map_of (rs_header rs) ''Content-Type'' = Some ''application/json''" "rs_code rs = 200"
      "answer_times (rs_content rs) = [0, 0, go_time year_10000]"
    by (auto split: sum.splits)
  have "take 8 (rq_path service_request) \<noteq> ''/assets/''"
    by (simp add: service_request_def toy_request_def)
  from answers_are_json [OF rs(1) this rs(2), of "\<lambda>_. []" ?tm] rs show
    "\<exists>rs. fst (serve toy_env service_request (server_limiter, service_world ''active'' year_10000)) = Inr rs \<and>
     rs_code rs = 200 \<and> answer_text (\<lambda>_. []) ?tm (rs_content rs) = Some []" by auto
qed

end
