(* ===== verification/Legacy.thy ===== *)
theory Legacy
  imports OrderRepo Xui
begin

text \<open>
  Code the server does not construct: uploads of payment receipts
  (\<open>internal/receipt/service.go\<close>, \<open>internal/receipt/minio.go\<close>), the first provisioning worker
  (\<open>internal/provisioning/worker.go\<close>, \<open>internal/provisioning/engine.go\<close>) and the service
  catalogue (\<open>internal/servicecatalog/service.go\<close>), each over the interface it is given.
\<close>

section \<open>Receipts\<close>

text \<open>
  \<open>url_ok\<close> is \<open>net/url\<close>'s parser, as for the panels, \<open>answer\<close> what the store replies:
  \<open>None\<close> for no reply, else the status.
\<close>

definition put_webp ::
  "(string \<Rightarrow> bool) \<Rightarrow> (string \<Rightarrow> string \<Rightarrow> int option) \<Rightarrow> string \<Rightarrow> string \<Rightarrow> string \<Rightarrow> string \<Rightarrow> err + unit"
where
  "put_webp url_ok answer endpoint bucket key bytes =
     (let url = endpoint @ ''/'' @ bucket @ ''/'' @ key in
      if \<not> url_ok url then Inl (ErrPanic ''nil *http.Request'')
      else case answer url bytes of
             None \<Rightarrow> Inl ErrNet
           | Some status \<Rightarrow>
               if 300 \<le> status then Inl (ErrStatus ''minio put failed: '' status) else Inr ())"

definition max_size :: nat where
  "max_size = 5 * 1024 * 1024"

definition upload :: "(string \<Rightarrow> string \<Rightarrow> err + unit) \<Rightarrow> string \<Rightarrow> string \<Rightarrow> err + unit" where
  "upload put key bytes =
     (if length bytes = 0 \<or> max_size < length bytes then Inl (ErrNew ''invalid file size'')
      else put key bytes)"

section \<open>The first worker\<close>

text \<open>Any panel repository and any adapter; the request is the same for every order.\<close>

definition legacy_request :: "Order \<Rightarrow> ProvisionRequest" where
  "legacy_request ord =
     \<lparr>XQ_VendorID = O_VendorID ord, XQ_UserID = O_UserID ord, XQ_Email = ''user'',
      XQ_Protocol = ''any'', XQ_UUID = ''generated'', XQ_DurationDays = 30, XQ_TrafficGB = 100\<rparr>"

definition legacy_handle ::
  "(int \<Rightarrow> Panel act) \<Rightarrow> (Panel \<Rightarrow> ProvisionRequest \<Rightarrow> ProvisionResponse act) \<Rightarrow> Order \<Rightarrow> unit act" where
  "legacy_handle first_by_vendor provision ord =
     andThen (first_by_vendor (O_VendorID ord)) (\<lambda>panel.
     andThen (provision panel (legacy_request ord)) (\<lambda>_.
     notifyAct ''service.provisioned'' [(''order_id'', JInt (O_ID ord))]))"

section \<open>Service catalogue\<close>

record ServiceCatalogItem =
  IT_ID :: int
  IT_VendorID :: int
  IT_Name :: string
  IT_Protocol :: string
  IT_DurationDays :: int
  IT_TrafficGB :: int
  IT_Price :: int

definition servicecatalog_create :: "(ServiceCatalogItem \<Rightarrow> unit act) \<Rightarrow> ServiceCatalogItem \<Rightarrow> unit act" where
  "servicecatalog_create repo_create item = repo_create item"

definition servicecatalog_by_id ::
  "(int \<Rightarrow> int \<Rightarrow> ServiceCatalogItem act) \<Rightarrow> int \<Rightarrow> int \<Rightarrow> ServiceCatalogItem act" where
  "servicecatalog_by_id repo_by_id vendorID i = repo_by_id vendorID i"

section \<open>Facts\<close>

lemma upload_bounds:
  "upload put key bytes = Inr () \<Longrightarrow> 0 < length bytes \<and> length bytes \<le> max_size \<and> put key bytes = Inr ()"
  by (auto simp: upload_def split: if_splits)

text \<open>Every order is provisioned under the one identifier \<open>generated\<close>.\<close>

lemma loop_uuid:
  assumes "provision_loop url_ok p rq ex n lst w1 = (r, w2)"
    and "\<forall>q\<in>set (w_sent w1). CQ_UUID q = XQ_UUID rq"
  shows "\<forall>q\<in>set (w_sent w2). CQ_UUID q = XQ_UUID rq"
  using assms
proof (induction n arbitrary: lst w1)
  case (Suc n)
  obtain y w3 where c: "create_client url_ok p (X_InboundID p) (XQ_Email rq) (XQ_UUID rq) ex
      (XQ_TrafficGB rq) w1 = (y, w3)" by fastforce
  have s3: "\<forall>q\<in>set (w_sent w3). CQ_UUID q = XQ_UUID rq"
    using c Suc.prems(2)
    by (auto simp: create_client_def Let_def split: if_splits list.splits reply.splits option.splits)
  show ?case
  proof (cases y)
    case (Inl e)
    with Suc.prems(1) c have "is_panic e \<and> w2 = w3 \<or> provision_loop url_ok p rq ex n e w3 = (r, w2)"
      by (auto split: if_splits)
    with Suc.IH s3 show ?thesis by blast
  next
    case (Inr out)
    with Suc.prems(1) c s3 show ?thesis by simp
  qed
qed simp

lemma legacy_same_uuid:
  assumes "legacy_handle fbv (multi_provision url_ok) ord w = (Inr (), w')" and "w_sent w = []"
    and "\<And>v. via silent_rel (fbv v)"
  shows "\<forall>q\<in>set (w_sent w'). CQ_UUID q = ''generated''"
proof -
  from assms(1) obtain p w1 x w2 where f: "fbv (O_VendorID ord) w = (Inr p, w1)" and
    m: "multi_provision url_ok p (legacy_request ord) w1 = (Inr x, w2)" and s: "w_sent w' = w_sent w2"
    unfolding legacy_handle_def by (auto simp: andThen_Inr notifyAct_iff)
  have "w_sent w1 = []" using silent_sent [OF assms(3) f] assms(2) by simp
  then have "\<forall>q\<in>set (w_sent w2). CQ_UUID q = XQ_UUID (legacy_request ord)"
    using loop_uuid [OF m [unfolded multi_provision_def]] by simp
  with s show ?thesis by (simp add: legacy_request_def)
qed

end
