(* ===== verification/LegacyRepo.thy ===== *)
theory LegacyRepo
  imports Legacy Pages
begin

text \<open>
  The repositories of the first worker (\<open>internal/repository/provisioning_repository.go\<close>)
  over their own two tables, the loop of that worker (\<open>internal/provisioning/worker.go\<close>), and
  the embedded frontend (\<open>internal/frontend/handlers.go\<close>). The server constructs none of
  them, and nothing else reads or writes these tables.
\<close>

section \<open>Tables\<close>

record vendor_panel_row =
  vp_id :: int
  vp_vendor_id :: int
  vp_name :: string
  vp_url :: string
  vp_token :: string
  vp_inbound_id :: int
  vp_deleted_at :: "int option"

record service_row =
  sr_id :: int
  sr_vendor_id :: int
  sr_user_id :: int
  sr_uuid :: string
  sr_protocol :: string
  sr_expires_at :: int
  sr_traffic_gb :: int
  sr_status :: string
  sr_updated_at :: int

text \<open>The tables \<open>vendor_panels\<close> and \<open>services\<close>, and the sequence of the second.\<close>

record legacy_tables =
  lt_panels :: "vendor_panel_row list"
  lt_services :: "service_row list"
  lt_seq :: int

text \<open>\<open>models.ProxyService\<close>, with its times in nanoseconds.\<close>

record LegacyService =
  LS_ID :: int
  LS_VendorID :: int
  LS_UserID :: int
  LS_UUID :: string
  LS_Protocol :: string
  LS_ExpiresAt :: int
  LS_TrafficGB :: int
  LS_CreatedAt :: int

section \<open>Operations\<close>

definition legacy_panel_of_row :: "vendor_panel_row \<Rightarrow> Panel" where
  "legacy_panel_of_row r =
     \<lparr>X_VendorID = vp_vendor_id r, X_Name = vp_name r, X_URL = vp_url r, X_Token = vp_token r,
      X_InboundID = vp_inbound_id r\<rparr>"

definition first_by_vendor :: "int \<Rightarrow> legacy_tables \<Rightarrow> err + Panel" where
  "first_by_vendor vendorID d =
     map_sum id legacy_panel_of_row
       (select_first (\<lambda>r. vp_vendor_id r = vendorID \<and> vp_deleted_at r = None)
         (order_by vp_id (lt_panels d)))"

text \<open>
  The driver refuses a time or an \<open>INT\<close> out of range before it sends the statement; after
  that the number of the sequence is used up, whatever the foreign keys say.
\<close>

definition service_create ::
  "db \<Rightarrow> int \<Rightarrow> LegacyService \<Rightarrow> legacy_tables \<Rightarrow> (err + int) \<times> legacy_tables" where
  "service_create d now s t =
     (let i = lt_seq t + 1; t1 = t\<lparr>lt_seq := i\<rparr> in
      if \<not> fits32 (LS_TrafficGB s) \<or> \<not> fits_ts (db_time (LS_ExpiresAt s)) then (Inl ErrRange, t)
      else if \<not> has_vendor d (LS_VendorID s)
      then (Inl (ErrForeignKey ''services_vendor_id_fkey''), t1)
      else if \<not> has_user d (LS_UserID s)
      then (Inl (ErrForeignKey ''services_user_id_fkey''), t1)
      else (Inr i, t1\<lparr>lt_services := lt_services t @
        [\<lparr>sr_id = i, sr_vendor_id = LS_VendorID s, sr_user_id = LS_UserID s, sr_uuid = LS_UUID s,
          sr_protocol = LS_Protocol s, sr_expires_at = db_time (LS_ExpiresAt s),
          sr_traffic_gb = LS_TrafficGB s, sr_status = ''active'', sr_updated_at = now\<rparr>]\<rparr>))"

definition extend_row :: "int \<Rightarrow> int \<Rightarrow> int \<Rightarrow> service_row \<Rightarrow> service_row" where
  "extend_row addDays addGB now r =
     r\<lparr>sr_expires_at := sr_expires_at r + addDays * day_us,
       sr_traffic_gb := sr_traffic_gb r + addGB, sr_updated_at := now\<rparr>"

definition service_extend ::
  "int \<Rightarrow> int \<Rightarrow> int \<Rightarrow> int \<Rightarrow> legacy_tables \<Rightarrow> (err + unit) \<times> legacy_tables" where
  "service_extend now serviceID addDays addGB t =
     (if fits32 addGB \<and> list_all (\<lambda>r. sr_id r = serviceID \<longrightarrow>
           fits_ts (sr_expires_at r + addDays * day_us) \<and> fits32 (sr_traffic_gb r + addGB)) (lt_services t)
      then (Inr (), t\<lparr>lt_services := update_where (\<lambda>r. sr_id r = serviceID)
        (extend_row addDays addGB now) (lt_services t)\<rparr>)
      else (Inl ErrRange, t))"

text \<open>
  The loop of the worker over what its channel delivers: \<open>None\<close> is a payload that is not a
  \<open>models.Order\<close>, on which the type assertion panics. Errors of \<open>handle\<close> are dropped.
\<close>

definition legacy_receive :: "(Order \<Rightarrow> unit act) \<Rightarrow> Order option \<Rightarrow> unit act" where
  "legacy_receive handle e =
     (case e of
        None \<Rightarrow> fail (ErrPanic ''interface conversion'')
      | Some ord \<Rightarrow> attempt (handle ord) (\<lambda>er. if is_panic er then fail er else ret ()) ret)"

fun legacy_start :: "(Order \<Rightarrow> unit act) \<Rightarrow> Order option list \<Rightarrow> unit act" where
  "legacy_start handle [] = ret ()"
| "legacy_start handle (e # es) =
     andThen (legacy_receive handle e) (\<lambda>_. legacy_start handle es)"

section \<open>Frontend\<close>

definition frontend_store :: response where
  "frontend_store = render ''store_index.html'' (D_title ''GarudaPanel Store'') 200"

definition frontend_product :: response where
  "frontend_product = render ''store_product.html'' (D_title ''Product'') 200"

definition frontend_service :: response where
  "frontend_service = render ''store_service.html'' (D_title ''Service'') 200"

section \<open>Facts\<close>

lemma first_by_vendor_least:
  assumes "first_by_vendor v t = Inr p"
  shows "\<exists>r\<in>set (lt_panels t). p = legacy_panel_of_row r \<and> vp_vendor_id r = v \<and>
     vp_deleted_at r = None \<and>
     (\<forall>s\<in>set (lt_panels t). vp_vendor_id s = v \<longrightarrow> vp_deleted_at s = None \<longrightarrow> vp_id r \<le> vp_id s)"
proof -
  let ?rs = "order_by vp_id (lt_panels t)"
  from assms obtain r where f: "find (\<lambda>r. vp_vendor_id r = v \<and> vp_deleted_at r = None) ?rs = Some r"
    and p: "p = legacy_panel_of_row r"
    by (auto simp: first_by_vendor_def select_first_def split: option.splits)
  then obtain i where i: "i < length ?rs" "?rs ! i = r" "vp_vendor_id r = v" "vp_deleted_at r = None"
      "\<forall>j<i. \<not> (vp_vendor_id (?rs ! j) = v \<and> vp_deleted_at (?rs ! j) = None)"
    by (auto simp: find_Some_iff)
  have "vp_id r \<le> vp_id s" if s: "s \<in> set (lt_panels t)" "vp_vendor_id s = v" "vp_deleted_at s = None" for s
  proof -
    from s(1) obtain j where j: "j < length ?rs" "?rs ! j = s" by (metis in_set_conv_nth set_order_by)
    have "i \<le> j"
    proof (rule leI)
      show "\<not> j < i" using i(5) s(2,3) j(2) by metis
    qed
    then show ?thesis
      using sorted_nth_mono [OF sorted_order_by [of vp_id "lt_panels t"], of i j] i j by simp
  qed
  moreover have "r \<in> set (lt_panels t)" using i(1,2) by (metis nth_mem set_order_by)
  ultimately show ?thesis using i p by blast
qed

text \<open>What is stored is the service asked for, under a new number.\<close>

lemma service_create_stores:
  assumes "service_create d now s t = (Inr i, t')" and "\<forall>r\<in>set (lt_services t). sr_id r \<le> lt_seq t"
  shows "filter (\<lambda>r. sr_id r = i) (lt_services t') =
      [\<lparr>sr_id = i, sr_vendor_id = LS_VendorID s, sr_user_id = LS_UserID s, sr_uuid = LS_UUID s,
        sr_protocol = LS_Protocol s, sr_expires_at = db_time (LS_ExpiresAt s),
        sr_traffic_gb = LS_TrafficGB s, sr_status = ''active'', sr_updated_at = now\<rparr>]"
    and "\<forall>r\<in>set (lt_services t'). sr_id r \<le> lt_seq t'"
  using assms by (force simp: service_create_def Let_def filter_empty_conv split: if_splits)+

text \<open>Two extensions add up.\<close>

lemma service_extend_twice:
  assumes "service_extend n1 i a g t = (Inr (), t1)" and "service_extend n2 i b h t1 = (Inr (), t2)"
    and "fits32 (g + h)"
  shows "service_extend n2 i (a + b) (g + h) t = (Inr (), t2)"
proof -
  have t1: "t1 = t\<lparr>lt_services := update_where (\<lambda>r. sr_id r = i) (extend_row a g n1) (lt_services t)\<rparr>"
    using assms(1) by (auto simp: service_extend_def split: if_splits)
  have row: "sr_id (extend_row x y n r) = sr_id r"
    "extend_row b h n2 (extend_row a g n1 r) = extend_row (a + b) (g + h) n2 r" for x y n r
    by (simp_all add: extend_row_def algebra_simps)
  have "t2 = t1\<lparr>lt_services := update_where (\<lambda>r. sr_id r = i) (extend_row b h n2) (lt_services t1)\<rparr>"
    and fit: "list_all (\<lambda>r. sr_id r = i \<longrightarrow> fits_ts (sr_expires_at r + b * day_us) \<and>
      fits32 (sr_traffic_gb r + h)) (lt_services t1)"
    using assms(2) by (auto simp: service_extend_def split: if_splits)
  then have "t2 = t\<lparr>lt_services := update_where (\<lambda>r. sr_id r = i) (extend_row (a + b) (g + h) n2)
      (lt_services t)\<rparr>"
    by (simp add: t1 update_where_def row)
  moreover have "list_all (\<lambda>r. sr_id r = i \<longrightarrow> fits_ts (sr_expires_at r + (a + b) * day_us) \<and>
      fits32 (sr_traffic_gb r + (g + h))) (lt_services t)"
    unfolding list_all_iff
  proof (intro ballI impI)
    fix r
    assume r: "r \<in> set (lt_services t)" "sr_id r = i"
    then have "extend_row a g n1 r \<in> set (lt_services t1)" by (simp add: t1 update_where_def)
    with fit r(2) show "fits_ts (sr_expires_at r + (a + b) * day_us) \<and> fits32 (sr_traffic_gb r + (g + h))"
      by (auto simp: list_all_iff extend_row_def distrib_right add.assoc)
  qed
  ultimately show ?thesis using assms(3) by (simp add: service_extend_def)
qed

text \<open>
  The worker handles the orders it receives one after the other and drops their errors; a
  payload that is not an order ends it.
\<close>

lemma legacy_start_orders:
  assumes "\<And>ord w e w'. handle ord w = (Inl e, w') \<Longrightarrow> \<not> is_panic e"
  shows "legacy_start handle (map Some ords) w = (Inr (), fold (\<lambda>ord w. snd (handle ord w)) ords w)"
proof (induction ords arbitrary: w)
  case (Cons ord ords)
  obtain x w1 where "handle ord w = (x, w1)" by fastforce
  with assms [of ord w] Cons.IH show ?case
    by (cases x) (auto simp: legacy_receive_def attempt_def andThen_def ret_def)
qed (simp add: ret_def)

lemma legacy_start_payload: "\<exists>e. fst (legacy_start handle (None # es) w) = Inl e \<and> is_panic e"
  by (simp add: legacy_receive_def andThen_def fail_def)

end
