(* ===== verification/Spec2Isabelle.thy ===== *)
theory Spec2Isabelle
  imports OrderProps SystemProps ServiceProps AccessProps PageProps WireProps LegacyRepo
begin

text \<open>
  GarudaPanel: a shop for proxy services, in Go over PostgreSQL. Users hold a wallet and
  order catalogue items of vendors; a worker provisions each paid order on the vendor's
  x-ui panel; services are suspended, resumed, renewed and expired. This development models
  the program below \<open>src/internal\<close> and proves what makes it correct.

  \<^bold>\<open>World and actions.\<close> \<open>Schema\<close> has one record per table of \<open>migrations/*.sql\<close> and
  \<open>Sql\<close> the world: the tables, the sequences of \<open>BIGSERIAL\<close> columns, the clock of the
  database (microseconds) and of Go (nanoseconds), the notification hub, the replies of the
  panels (texts) and the requests sent to them, and a list of faults. A Go function that talks to
  the database is an action, \<open>world \<Rightarrow> (err + 'a) \<times> world\<close>, put together by \<open>andThen\<close>
  (\<open>if err != nil { return err }\<close>), \<open>onErr\<close> (\<open>fmt.Errorf\<close>), \<open>orElse\<close> (\<open>x, _ :=\<close>) and
  \<open>attempt\<close>. Each statement is one round trip; a fault loses the request or, after the
  server has run it, the answer, so that a commit can succeed unseen. Constraints of the
  schema (unique, foreign key, the range of \<open>INT\<close> and \<open>BIGINT\<close>) raise errors as in
  PostgreSQL, and sequences advance even in transactions that are rolled back.
  \<open>ErrPanic\<close> is a panic, which no error handling stops. Go's \<open>int64\<close> arithmetic wraps
  (\<open>Prelude.wrap64\<close>); UUID bytes are 8-bit words.

  \<^bold>\<open>Components.\<close>
  \<^item> \<open>Prelude\<close>: errors, integers, lists as tables. \<open>StoreInv\<close>: the contract of a table
    invariant and of frame and read-only actions, as locales, with a rule for every
    construction of actions.
  \<^item> \<open>Json\<close>, \<open>Decode\<close>: the text of JSON as \<open>encoding/json\<close> writes and reads it, with UTF-8,
    escapes and the nesting limit, and how members fill the fields of a struct. What was
    written is read back (\<open>Json.parse_text\<close>). \<open>Decimal\<close>: the text of integers.
  \<^item> \<open>Events\<close>: \<open>eventbus/bus.go\<close>, \<open>notification/hub.go\<close>; bounded channels as a locale.
  \<^item> \<open>WalletRepo\<close>, \<open>CatalogRepo\<close>, \<open>OrderRepo\<close>, \<open>ProxyRepo\<close>, \<open>PanelRepo\<close>: the repositories
    of \<open>repository/*.go\<close>, \<open>wallet/service.go\<close> and \<open>payment/wallet_payment.go\<close>.
  \<^item> \<open>OrderService\<close>, \<open>OrderProofs\<close>, \<open>ShopInv\<close>: \<open>order/service.go\<close>, its outcomes and
    invariants.
  \<^item> \<open>Base64\<close>, \<open>Security\<close>, \<open>AuthService\<close>, \<open>Accounts\<close>: \<open>security/*.go\<close>, \<open>auth/service.go\<close>,
    users and vendors, and tokens. \<open>MemoryStore\<close>: \<open>store/store.go\<close>, the same contract of an
    account store as the tables.
  \<^item> \<open>Xui\<close>, \<open>Worker\<close>: \<open>xui/*.go\<close>, \<open>provisioning/worker_v2.go\<close>. \<open>ProxyService\<close>,
    \<open>ServiceLife\<close>: \<open>proxy/service.go\<close> and the status machine its operations refine.
  \<^item> \<open>RateLimit\<close>, \<open>Http\<close>: \<open>middleware/*.go\<close>, with guards as a locale. \<open>Slug\<close>, \<open>Storefront\<close>,
    \<open>Pages\<close>: \<open>storefront/*.go\<close>, \<open>dashboard/handler.go\<close>. \<open>AuditLog\<close>: \<open>audit/logger.go\<close>.
    \<open>Handlers\<close>, \<open>Server\<close>: \<open>http/server.go\<close>, \<open>http/api/router.go\<close>, \<open>proxy/handler.go\<close>,
    \<open>order/handler.go\<close>; \<open>Server.serve\<close> is one request from the connection to the answer.
    Bodies and query strings are texts. \<open>Wire\<close>: the JSON text of every answer, and the event
    stream of \<open>notification/hub.go\<close> with a reader for it. \<open>Answers\<close>: the type of an answer,
    which every handler keeps.
    \<open>ServerLoop\<close>: the life of the process, a list of events (requests, ticks of the worker,
    the expiry job and the limiter's cleanup, audit records, crashes, restarts).
  \<^item> \<open>Startup\<close>: \<open>config\<close>, \<open>db\<close>, \<open>app/bootstrap.go\<close>. \<open>Legacy\<close>,
    \<open>LegacyRepo\<close>: receipts, the first worker with its repositories, the service catalogue and
    the embedded frontend, which the server does not construct.

  \<^bold>\<open>The running system.\<close> \<open>TableSteps.table_step\<close> is the abstract specification: what one
  step may do to the tables. \<open>SystemModel\<close> shows that every operation refines such steps.
  \<open>Running.sys_step\<close> adds the tasks in flight between two transactions of an operation (an
  order priced but not committed, a user without a wallet, a claimed job, a client created
  but not stored, a job ended but not marked), which may vanish at any moment: requests,
  worker and expiry interleave at that grain, under any faults. Serializable isolation
  makes each transaction one step (that of Provision, at the default level, has a single
  statement). \<open>Runs\<close>, \<open>ServerRuns\<close> and \<open>ServerLoop\<close> show that whole
  operations, the serving of any HTTP request, the seeding of the demo shop and every
  history of the process are runs of these steps, so the invariants of the reachable states
  hold under all traffic.

  \<^bold>\<open>What the properties show.\<close> \<open>OrderProps\<close>: an order or a renewal is placed as a whole
  or not at all, once per key, never beyond the balance. \<open>SystemProps\<close>: what holds in all
  reachable states (books, orders, prices, accounts, jobs, panels), that a tick of the worker
  serves the oldest waiting job (\<open>Serving\<close>) and the loop of the worker all that wait, in their
  order (\<open>Backlog\<close>), so that an order ends as a service in the list of its user (\<open>Delivery\<close>), and
  that no order can be placed while
  \<open>service_catalog\<close> is empty, which the program never fills. \<open>ServiceProps\<close>:
  jobs, retries, the life of a service, isolation of vendors, UUIDs. \<open>AccessProps\<close>:
  passwords, tokens, registration, the two stores, the limiter, notifications.
  \<open>WireProps\<close>: what a login sends back opens the protected routes, the event stream is read
  back, JSON answers are JSON, or empty when a time in them has no text. \<open>HttpProps\<close> and \<open>PageProps\<close>: who reaches which handler, panics, what pages show, slugs,
  waiting for the database. \<open>Demo\<close> has the small shop the witnesses run on.

  \<^bold>\<open>Bounds and loops.\<close> The adapter tries three times (\<open>Xui.provision_loop\<close>, structural in
  the attempts left), the connection fifteen times (\<open>Startup.connect_loop\<close>, with its
  measure); every other loop is over a list or a text (\<open>Json.parse_value\<close> with a measure on what is left). The \<open>for\<close> loops of the worker and of the
  tickers are events of \<open>ServerLoop\<close>, one for each tick, in any order and number;
  \<open>Worker.worker_loop\<close> is the worker's own loop for a number of ticks, and as many as jobs wait
  are enough to serve them.

  \<^bold>\<open>Parameters.\<close> SHA-256, AES-GCM and HMAC (\<open>crypto\<close>, \<open>token_lib\<close>), \<open>net/url\<close>'s parser,
  random bytes, the QR encoder, the file server, the wording of driver errors (\<open>drv\<close>) and
  of times (\<open>tm\<close>) in answers, and at start-up the environment. The hypothesis on them is
  named: \<open>aead_ok\<close> (what was sealed opens).

  \<^bold>\<open>Not modelled.\<close> The HTML of pages (the template data is), TLS, timeouts, connection
  pools, logging and the pauses of tickers and retries; interleavings inside one database
  transaction, which serializable isolation excludes; in \<open>Json\<close> the value of a number with a
  fraction or exponent, which no field of the program takes. The extension of an expiry is \<open>$1 || ' days'\<close> with
  a Go integer for a parameter that PostgreSQL takes as text: the model lets the statement
  through, and a driver that refuses it is the fault \<open>FFail\<close> of that round trip. So is a text
  with a zero byte, which PostgreSQL does not store. A request to a panel that \<open>http.Do\<close> refuses
  before sending it (a header value or scheme it does not take) counts as sent and not answered. The
  constructors only pass on references, and no code uses the type \<open>models.Receipt\<close>.
\<close>

end
